(* ===== verification/Prelude.thy ===== *)
theory Prelude
  imports Main "HOL-Library.Word" "HOL-Library.Multiset" "HOL-Library.Sublist"
begin

text \<open>
  Shared vocabulary of the development: the widths of Rust's integers, the parts of
  \<^verbatim>\<open>str\<close>, \<^verbatim>\<open>slice\<close> and \<^verbatim>\<open>Option\<close> of the standard library that the crates
  use, a stable sort driven by a comparison, and the generic lemmas about them.

  A Rust \<^verbatim>\<open>String\<close> is its sequence of UTF-8 bytes, a \<^typ>\<open>string\<close>.
\<close>

named_theorems round_trips \<open>parsers read back what printers write\<close>
named_theorems total_cmps \<open>comparisons that are total preorders\<close>

type_synonym u8 = "8 word"
type_synonym u16 = "16 word"
type_synonym u32 = "32 word"
type_synonym u64 = "64 word"

type_synonym duration = nat \<comment> \<open>nanoseconds, as in \<^verbatim>\<open>std::time::Duration\<close>\<close>
type_synonym instant = nat \<comment> \<open>nanoseconds since an arbitrary origin\<close>

definition from_secs :: "nat \<Rightarrow> duration" where
  "from_secs s = s * 1000000000"

definition from_millis :: "nat \<Rightarrow> duration" where
  "from_millis ms = ms * 1000000"

definition as_secs :: "duration \<Rightarrow> nat" where
  "as_secs d = d div 1000000000"

definition as_millis :: "duration \<Rightarrow> nat" where
  "as_millis d = d div 1000000"

text \<open>\<^verbatim>\<open>Instant::elapsed\<close> saturates at zero.\<close>

definition elapsed :: "instant \<Rightarrow> instant \<Rightarrow> duration" where
  "elapsed now at = now - at"

definition saturating_sub :: "('a::len) word \<Rightarrow> 'a word \<Rightarrow> 'a word" where
  "saturating_sub a b = (if a < b then 0 else a - b)"

lemma unat_saturating_sub: "unat (saturating_sub a b) = unat a - unat b"
  by (simp add: saturating_sub_def unat_sub word_less_nat_alt word_le_nat_alt not_less)

section \<open>Sorting by a comparison\<close>

datatype ordering = OLess | OEqual | OGreater

text \<open>\<^verbatim>\<open>Ordering\<close> derives \<^verbatim>\<open>Ord\<close>: the constructors in their order.\<close>

instantiation ordering :: linorder
begin

fun ordinal :: "ordering \<Rightarrow> nat" where
  "ordinal OLess = 0"
| "ordinal OEqual = 1"
| "ordinal OGreater = 2"

definition less_eq_ordering :: "ordering \<Rightarrow> ordering \<Rightarrow> bool" where
  "less_eq_ordering a b \<longleftrightarrow> ordinal a \<le> ordinal b"

definition less_ordering :: "ordering \<Rightarrow> ordering \<Rightarrow> bool" where
  "less_ordering a b \<longleftrightarrow> ordinal a < ordinal b"

instance
proof
  fix a b c :: ordering
  show "a < b \<longleftrightarrow> a \<le> b \<and> \<not> b \<le> a"
    by (auto simp: less_eq_ordering_def less_ordering_def)
  show "a \<le> a" "a \<le> b \<Longrightarrow> b \<le> c \<Longrightarrow> a \<le> c" "a \<le> b \<or> b \<le> a"
    by (auto simp: less_eq_ordering_def)
  show "a \<le> b \<Longrightarrow> b \<le> a \<Longrightarrow> a = b"
    by (cases a; cases b) (simp_all add: less_eq_ordering_def)
qed

end

lemma not_OGreater: "c \<noteq> OGreater \<longleftrightarrow> c \<le> OEqual"
  by (cases c) (simp_all add: less_eq_ordering_def)

definition then_with :: "ordering \<Rightarrow> ordering \<Rightarrow> ordering" where
  "then_with a b = (case a of OEqual \<Rightarrow> b | _ \<Rightarrow> a)"

definition cmp_nat :: "nat \<Rightarrow> nat \<Rightarrow> ordering" where
  "cmp_nat a b = (if a < b then OLess else if a = b then OEqual else OGreater)"

text \<open>\<^verbatim>\<open>Ord for str\<close> is lexicographic on the bytes.\<close>

fun cmp_str :: "string \<Rightarrow> string \<Rightarrow> ordering" where
  "cmp_str [] [] = OEqual"
| "cmp_str [] (_ # _) = OLess"
| "cmp_str (_ # _) [] = OGreater"
| "cmp_str (a # s) (b # t) = then_with (cmp_nat (of_char a) (of_char b)) (cmp_str s t)"

text \<open>
  \<^verbatim>\<open>slice::sort_by\<close> is a stable sort. For a comparison that is a total preorder its
  result is determined, and this insertion sort computes it.
\<close>

fun ins_by :: "('a \<Rightarrow> 'a \<Rightarrow> ordering) \<Rightarrow> 'a \<Rightarrow> 'a list \<Rightarrow> 'a list" where
  "ins_by cmp x [] = [x]"
| "ins_by cmp x (y # ys) =
     (if cmp x y = OGreater then y # ins_by cmp x ys else x # y # ys)"

fun sort_by :: "('a \<Rightarrow> 'a \<Rightarrow> ordering) \<Rightarrow> 'a list \<Rightarrow> 'a list" where
  "sort_by cmp [] = []"
| "sort_by cmp (x # xs) = ins_by cmp x (sort_by cmp xs)"

text \<open>What Rust requires of the comparison, on the elements compared.\<close>

definition total_cmp_on :: "'a set \<Rightarrow> ('a \<Rightarrow> 'a \<Rightarrow> ordering) \<Rightarrow> bool" where
  "total_cmp_on A cmp \<longleftrightarrow>
     (\<forall>x\<in>A. \<forall>y\<in>A. cmp x y = OGreater \<longrightarrow> cmp y x = OLess) \<and>
     (\<forall>x\<in>A. \<forall>y\<in>A. cmp x y = OLess \<longrightarrow> cmp y x = OGreater) \<and>
     (\<forall>x\<in>A. \<forall>y\<in>A. \<forall>z\<in>A.
        cmp x y \<noteq> OGreater \<longrightarrow> cmp y z \<noteq> OGreater \<longrightarrow> cmp x z \<noteq> OGreater)"

definition sorted_by :: "('a \<Rightarrow> 'a \<Rightarrow> ordering) \<Rightarrow> 'a list \<Rightarrow> bool" where
  "sorted_by cmp xs \<longleftrightarrow> sorted_wrt (\<lambda>x y. cmp x y \<noteq> OGreater) xs"

lemma mset_ins_by [simp]: "mset (ins_by cmp x xs) = add_mset x (mset xs)"
  by (induction xs) auto

lemma mset_sort_by [simp]: "mset (sort_by cmp xs) = mset xs"
  by (induction xs) auto

lemma set_sort_by [simp]: "set (sort_by cmp xs) = set xs"
  by (metis mset_sort_by set_mset_mset)

lemma set_ins_by [simp]: "set (ins_by cmp x xs) = insert x (set xs)"
  by (metis mset_ins_by set_mset_add_mset_insert set_mset_mset)

lemma length_sort_by [simp]: "length (sort_by cmp xs) = length xs"
  by (metis mset_sort_by size_mset)

lemma sort_by_Nil_iff [simp]: "sort_by cmp xs = [] \<longleftrightarrow> xs = []"
  by (metis length_0_conv length_sort_by)

lemma total_cmp_onD:
  assumes "total_cmp_on A cmp" and "x \<in> A" and "y \<in> A"
  shows "cmp x y = OGreater \<Longrightarrow> cmp y x = OLess"
    and "cmp x y = OLess \<Longrightarrow> cmp y x = OGreater"
    and "z \<in> A \<Longrightarrow> cmp x y \<noteq> OGreater \<Longrightarrow> cmp y z \<noteq> OGreater \<Longrightarrow> cmp x z \<noteq> OGreater"
  using assms unfolding total_cmp_on_def by blast+

lemma total_cmp_on_subset: "total_cmp_on A cmp \<Longrightarrow> B \<subseteq> A \<Longrightarrow> total_cmp_on B cmp"
  unfolding total_cmp_on_def by blast

lemma sorted_by_ins_by:
  assumes "total_cmp_on (insert x (set xs)) cmp" and "sorted_by cmp xs"
  shows "sorted_by cmp (ins_by cmp x xs)"
  using assms
proof (induction xs)
  case Nil
  then show ?case by (simp add: sorted_by_def)
next
  case (Cons y ys)
  have sub: "total_cmp_on (insert x (set ys)) cmp"
    by (rule total_cmp_on_subset [OF Cons.prems(1)]) auto
  have ys: "sorted_by cmp ys" and y: "\<forall>z\<in>set ys. cmp y z \<noteq> OGreater"
    using Cons.prems(2) by (auto simp: sorted_by_def)
  show ?case
  proof (cases "cmp x y = OGreater")
    case True
    then have "cmp y x = OLess"
      using total_cmp_onD(1) [OF Cons.prems(1), of x y] by simp
    then show ?thesis
      using True y Cons.IH [OF sub ys] by (simp add: sorted_by_def)
  next
    case False
    have "cmp x z \<noteq> OGreater" if "z \<in> set ys" for z
      using total_cmp_onD(3) [OF Cons.prems(1), of x y z] False y that by auto
    then show ?thesis
      using False y ys by (simp add: sorted_by_def)
  qed
qed

lemma sorted_by_sort_by: "total_cmp_on (set xs) cmp \<Longrightarrow> sorted_by cmp (sort_by cmp xs)"
proof (induction xs)
  case Nil
  then show ?case by (simp add: sorted_by_def)
next
  case (Cons x xs)
  have "total_cmp_on (set xs) cmp"
    by (rule total_cmp_on_subset [OF Cons.prems]) auto
  then show ?case
    using Cons sorted_by_ins_by [of x "sort_by cmp xs" cmp] by simp
qed

lemma sorted_by_hd: "sorted_by cmp (x # xs) \<Longrightarrow> y \<in> set xs \<Longrightarrow> cmp x y \<noteq> OGreater"
  by (simp add: sorted_by_def)

text \<open>The comparisons on keys are total preorders.\<close>

lemma cmp_nat_simps [simp]:
  "cmp_nat a b = OLess \<longleftrightarrow> a < b"
  "cmp_nat a b = OEqual \<longleftrightarrow> a = b"
  "cmp_nat a b = OGreater \<longleftrightarrow> b < a"
  by (auto simp: cmp_nat_def)

lemma then_with_simps [simp]:
  "then_with a b = OLess \<longleftrightarrow> a = OLess \<or> a = OEqual \<and> b = OLess"
  "then_with a b = OEqual \<longleftrightarrow> a = OEqual \<and> b = OEqual"
  "then_with a b = OGreater \<longleftrightarrow> a = OGreater \<or> a = OEqual \<and> b = OGreater"
  by (cases a; simp add: then_with_def)+

lemma cmp_str_refl [simp]: "cmp_str s s = OEqual"
  by (induction s) auto

lemma cmp_str_eq: "cmp_str s t = OEqual \<longleftrightarrow> s = t"
  by (induction s t rule: cmp_str.induct) auto

lemma cmp_str_swap: "cmp_str s t = OGreater \<longleftrightarrow> cmp_str t s = OLess"
  by (induction s t rule: cmp_str.induct) auto

lemma cmp_str_less_trans:
  "cmp_str s t = OLess \<Longrightarrow> cmp_str t u = OLess \<Longrightarrow> cmp_str s u = OLess"
proof (induction s t arbitrary: u rule: cmp_str.induct)
  case (4 a s b t)
  then show ?case by (cases u) auto
qed (auto elim: cmp_str.elims)

lemma cmp_str_le_trans:
  "cmp_str s t \<noteq> OGreater \<Longrightarrow> cmp_str t u \<noteq> OGreater \<Longrightarrow> cmp_str s u \<noteq> OGreater"
  by (metis cmp_str_eq cmp_str_less_trans cmp_str_swap ordering.exhaust)

lemma total_cmp_onI:
  assumes "\<And>x y. x \<in> A \<Longrightarrow> y \<in> A \<Longrightarrow> cmp x y = OGreater \<Longrightarrow> cmp y x = OLess"
    and "\<And>x y. x \<in> A \<Longrightarrow> y \<in> A \<Longrightarrow> cmp x y = OLess \<Longrightarrow> cmp y x = OGreater"
    and "\<And>x y z. x \<in> A \<Longrightarrow> y \<in> A \<Longrightarrow> z \<in> A \<Longrightarrow> cmp x y \<noteq> OGreater \<Longrightarrow>
           cmp y z \<noteq> OGreater \<Longrightarrow> cmp x z \<noteq> OGreater"
  shows "total_cmp_on A cmp"
  using assms unfolding total_cmp_on_def by blast

text \<open>Keys of ordered types, and the lexicographic combination by \<^verbatim>\<open>then_with\<close>.\<close>

lemma total_cmp_nat_key [total_cmps]: "total_cmp_on A (\<lambda>x y. cmp_nat (f x) (f y))"
  by (auto simp: total_cmp_on_def)

lemma total_cmp_str_key [total_cmps]: "total_cmp_on A (\<lambda>x y. cmp_str (f x) (f y))"
proof (rule total_cmp_onI)
  show "cmp_str (f x) (f z) \<noteq> OGreater"
    if "cmp_str (f x) (f y) \<noteq> OGreater" "cmp_str (f y) (f z) \<noteq> OGreater" for x y z
    by (rule cmp_str_le_trans [OF that])
qed (simp_all add: cmp_str_swap)

lemma total_cmp_on_trans_eq:
  assumes t: "total_cmp_on A cmp" and A: "x \<in> A" "y \<in> A" "z \<in> A"
    and le: "cmp x y \<noteq> OGreater" "cmp y z \<noteq> OGreater" and eq: "cmp x z = OEqual"
  shows "cmp x y = OEqual \<and> cmp y z = OEqual"
proof -
  have zx: "cmp z x \<noteq> OGreater"
    using total_cmp_onD(1) [OF t A(3) A(1)] eq by auto
  have "cmp z y \<noteq> OGreater" "cmp y x \<noteq> OGreater"
    using total_cmp_onD(3) [OF t A(3) A(1) A(2) zx le(1)]
      total_cmp_onD(3) [OF t A(2) A(3) A(1) le(2) zx] by simp_all
  then have "cmp y z \<noteq> OLess" "cmp x y \<noteq> OLess"
    using total_cmp_onD(2) [OF t A(2) A(3)] total_cmp_onD(2) [OF t A(1) A(2)] by auto
  with le show ?thesis by (metis ordering.exhaust)
qed

lemma total_cmp_then_with [total_cmps]:
  assumes c: "total_cmp_on A c" and d: "total_cmp_on A d"
  shows "total_cmp_on A (\<lambda>x y. then_with (c x y) (d x y))"
proof -
  have eq: "c x y = OEqual \<Longrightarrow> c y x = OEqual" if "x \<in> A" "y \<in> A" for x y
    using total_cmp_onD(1,2) [OF c that(2,1)] by (metis ordering.distinct ordering.exhaust)
  have trans: "then_with (c x z) (d x z) \<noteq> OGreater"
    if A: "x \<in> A" "y \<in> A" "z \<in> A"
      and xy: "then_with (c x y) (d x y) \<noteq> OGreater" and yz: "then_with (c y z) (d y z) \<noteq> OGreater"
    for x y z
  proof -
    have le: "c x y \<noteq> OGreater" "c y z \<noteq> OGreater" using xy yz by simp_all
    then have "c x z \<noteq> OGreater" using total_cmp_onD(3) [OF c A] by simp
    moreover have "d x z \<noteq> OGreater" if "c x z = OEqual"
      using total_cmp_on_trans_eq [OF c A le that] xy yz total_cmp_onD(3) [OF d A] by simp
    ultimately show ?thesis by simp
  qed
  have gt: "then_with (c y x) (d y x) = OLess"
    if "x \<in> A" "y \<in> A" "then_with (c x y) (d x y) = OGreater" for x y
    using that(3) total_cmp_onD(1) [OF c that(1,2)] total_cmp_onD(1) [OF d that(1,2)]
      eq [OF that(1,2)] by auto
  have lt: "then_with (c y x) (d y x) = OGreater"
    if "x \<in> A" "y \<in> A" "then_with (c x y) (d x y) = OLess" for x y
    using that(3) total_cmp_onD(2) [OF c that(1,2)] total_cmp_onD(2) [OF d that(1,2)]
      eq [OF that(1,2)] by auto
  show ?thesis
    by (rule total_cmp_onI) (use gt lt trans in blast)+
qed

lemma total_cmp_nat_key_rev [total_cmps]: "total_cmp_on A (\<lambda>x y. cmp_nat (f y) (f x))"
  by (auto simp: total_cmp_on_def)

subsection \<open>Sorting by a total comparison\<close>

text \<open>What a caller of \<^verbatim>\<open>sort_by\<close> has to provide, and what it gets.\<close>

locale sort_order =
  fixes cmp :: "'a \<Rightarrow> 'a \<Rightarrow> ordering"
  assumes total: "total_cmp_on UNIV cmp"
begin

lemma sorted: "sorted_by cmp (sort_by cmp xs)"
  by (rule sorted_by_sort_by) (rule total_cmp_on_subset [OF total subset_UNIV])

text \<open>A prefix of the sorted list holds the least elements.\<close>

lemma take_least:
  assumes "x \<in> set (take n (sort_by cmp xs))" and "y \<in> set (drop n (sort_by cmp xs))"
  shows "cmp x y \<le> OEqual"
proof -
  have "sorted_wrt (\<lambda>x y. cmp x y \<noteq> OGreater) (take n (sort_by cmp xs) @ drop n (sort_by cmp xs))"
    using sorted [of xs] by (simp only: sorted_by_def append_take_drop_id)
  then have "cmp x y \<noteq> OGreater" using assms by (simp only: sorted_wrt_append) blast
  then show ?thesis by (simp only: not_OGreater)
qed

lemma sort_sorted: "sorted_by cmp xs \<Longrightarrow> sort_by cmp xs = xs"
proof (induction xs)
  case (Cons x xs)
  then have "sort_by cmp xs = xs" by (simp add: sorted_by_def)
  then show ?case using Cons.prems by (cases xs) (auto simp: sorted_by_def)
qed simp

lemma sort_idem: "sort_by cmp (sort_by cmp xs) = sort_by cmp xs"
  by (rule sort_sorted) (rule sorted)

end

section \<open>Printers and parsers\<close>

locale text_codec =
  fixes show_text :: "'a \<Rightarrow> string" and parse_text :: "string \<Rightarrow> 'a option"
  assumes parse_show: "parse_text (show_text x) = Some x"
begin

lemma show_inj: "show_text x = show_text y \<longleftrightarrow> x = y"
  by (metis option.inject parse_show)

lemma parse_all: "map parse_text (map show_text xs) = map Some xs"
  by (simp add: parse_show)

lemma distinct_show: "distinct (map show_text xs) \<longleftrightarrow> distinct xs"
  by (auto simp: distinct_map inj_on_def show_inj)

text \<open>The texts of a list, and the words a parser refuses, told apart again.\<close>

lemma read_mixed: "\<forall>d\<in>set ds. parse_text d = None \<Longrightarrow>
    List.map_filter parse_text (map show_text xs @ ds) = xs \<and>
    filter (\<lambda>i. parse_text i = None) (map show_text xs @ ds) = ds"
  by (induction xs)
    (auto simp: List.map_filter_simps parse_show List.map_filter_def filter_empty_conv filter_id_conv)

end

end
