(* ===== verification/Rust_Str.thy ===== *)
theory Rust_Str
  imports Prelude
begin

text \<open>
  The methods of Rust's \<^verbatim>\<open>str\<close> that the crates call, on the UTF-8 bytes of the
  string, with the facts about trimming, splitting, joining and number printing that the
  parsers and printers of the other theories share.
\<close>

section \<open>Strings\<close>

text \<open>\<^verbatim>\<open>str::to_ascii_lowercase\<close> works byte by byte.\<close>

definition lower_char :: "char \<Rightarrow> char" where
  "lower_char c = (let n = of_char c :: nat in
     if 65 \<le> n \<and> n \<le> 90 then char_of (n + 32) else c)"

definition to_ascii_lowercase :: "string \<Rightarrow> string" where
  "to_ascii_lowercase s = map lower_char s"

definition eq_ignore_ascii_case :: "string \<Rightarrow> string \<Rightarrow> bool" where
  "eq_ignore_ascii_case a b \<longleftrightarrow> to_ascii_lowercase a = to_ascii_lowercase b"

text \<open>
  \<^verbatim>\<open>str::trim\<close> removes the code points with the Unicode property White_Space. These are
  their UTF-8 encodings; UTF-8 is self-synchronising, so on a valid string a byte pattern
  matches only at a character.
\<close>

definition ws_chars :: "string list" where
  "ws_chars =
     [[CHR 0x20], [CHR 0x09], [CHR 0x0A], [CHR 0x0B], [CHR 0x0C], [CHR 0x0D],
      [CHR 0xC2, CHR 0x85], [CHR 0xC2, CHR 0xA0], [CHR 0xE1, CHR 0x9A, CHR 0x80],
      [CHR 0xE2, CHR 0x80, CHR 0x80], [CHR 0xE2, CHR 0x80, CHR 0x81],
      [CHR 0xE2, CHR 0x80, CHR 0x82], [CHR 0xE2, CHR 0x80, CHR 0x83],
      [CHR 0xE2, CHR 0x80, CHR 0x84], [CHR 0xE2, CHR 0x80, CHR 0x85],
      [CHR 0xE2, CHR 0x80, CHR 0x86], [CHR 0xE2, CHR 0x80, CHR 0x87],
      [CHR 0xE2, CHR 0x80, CHR 0x88], [CHR 0xE2, CHR 0x80, CHR 0x89],
      [CHR 0xE2, CHR 0x80, CHR 0x8A], [CHR 0xE2, CHR 0x80, CHR 0xA8],
      [CHR 0xE2, CHR 0x80, CHR 0xA9], [CHR 0xE2, CHR 0x80, CHR 0xAF],
      [CHR 0xE2, CHR 0x81, CHR 0x9F], [CHR 0xE3, CHR 0x80, CHR 0x80]]"

text \<open>Drop matching patterns from the front while there is one.\<close>

function strip_with :: "string list \<Rightarrow> string \<Rightarrow> string" where
  "strip_with ws s =
     (case find (\<lambda>w. w \<noteq> [] \<and> take (length w) s = w) ws of
        None \<Rightarrow> s
      | Some w \<Rightarrow> strip_with ws (drop (length w) s))"
  by pat_completeness auto
termination
proof (relation "measure (\<lambda>(ws, s). length s)")
  fix ws s w
  assume "find (\<lambda>w. w \<noteq> [] \<and> take (length w) s = w) ws = Some w"
  then have w: "w \<noteq> []" "take (length w) s = w"
    by (auto simp: find_Some_iff)
  then have "s \<noteq> []" by auto
  with w show "((ws, drop (length w) s), (ws, s)) \<in> measure (\<lambda>(ws, s). length s)"
    by simp
qed simp

declare strip_with.simps [simp del]

definition trim_start :: "string \<Rightarrow> string" where
  "trim_start s = strip_with ws_chars s"

definition trim_end :: "string \<Rightarrow> string" where
  "trim_end s = rev (strip_with (map rev ws_chars) (rev s))"

definition trim :: "string \<Rightarrow> string" where
  "trim s = trim_end (trim_start s)"

text \<open>\<^verbatim>\<open>str::split_once\<close> at the first character satisfying the pattern.\<close>

fun split_once :: "(char \<Rightarrow> bool) \<Rightarrow> string \<Rightarrow> (string \<times> string) option" where
  "split_once p [] = None"
| "split_once p (c # s) =
     (if p c then Some ([], s)
      else map_option (\<lambda>(a, b). (c # a, b)) (split_once p s))"

text \<open>\<^verbatim>\<open>str::split\<close> on a character: always at least one piece.\<close>

fun split_on :: "char \<Rightarrow> string \<Rightarrow> string list" where
  "split_on d [] = [[]]"
| "split_on d (c # s) =
     (if c = d then [] # split_on d s
      else (case split_on d s of [] \<Rightarrow> [[c]] | p # ps \<Rightarrow> (c # p) # ps))"

text \<open>
  \<^verbatim>\<open>str::lines\<close>: split at newlines, a final empty piece is no line, and one carriage
  return before the newline is not part of the line.
\<close>

definition strip_cr :: "string \<Rightarrow> string" where
  "strip_cr l = (if l \<noteq> [] \<and> last l = CHR 0x0D then butlast l else l)"

fun lines_of :: "string list \<Rightarrow> string list" where
  "lines_of [] = []"
| "lines_of [l] = (if l = [] then [] else [l])"
| "lines_of (l # ls) = strip_cr l # lines_of ls"

definition str_lines :: "string \<Rightarrow> string list" where
  "str_lines s = lines_of (split_on (CHR 0x0A) s)"

text \<open>\<^verbatim>\<open>str::split_whitespace\<close>, on the ASCII white space command output uses.\<close>

definition is_ascii_ws :: "char \<Rightarrow> bool" where
  "is_ascii_ws c \<longleftrightarrow> [c] \<in> set ws_chars"

fun words_acc :: "string \<Rightarrow> string \<Rightarrow> string list" where
  "words_acc acc [] = (if acc = [] then [] else [rev acc])"
| "words_acc acc (c # s) =
     (if is_ascii_ws c then (if acc = [] then words_acc [] s else rev acc # words_acc [] s)
      else words_acc (c # acc) s)"

definition split_whitespace :: "string \<Rightarrow> string list" where
  "split_whitespace s = words_acc [] s"

fun str_join :: "string \<Rightarrow> string list \<Rightarrow> string" where
  "str_join sep [] = []"
| "str_join sep [s] = s"
| "str_join sep (s # ss) = s @ sep @ str_join sep ss"

definition starts_with :: "string \<Rightarrow> string \<Rightarrow> bool" where
  "starts_with s p \<longleftrightarrow> prefix p s"

definition str_contains :: "string \<Rightarrow> string \<Rightarrow> bool" where
  "str_contains s p \<longleftrightarrow> sublist p s"

text \<open>Decimal numbers: \<^verbatim>\<open>Display\<close> for the unsigned types, and their \<^verbatim>\<open>FromStr\<close>.\<close>

definition digit_char :: "nat \<Rightarrow> char" where
  "digit_char n = char_of (48 + n)"

fun show_nat :: "nat \<Rightarrow> string" where
  "show_nat n = (if n < 10 then [digit_char n] else show_nat (n div 10) @ [digit_char (n mod 10)])"

declare show_nat.simps [simp del]

definition digit_val :: "char \<Rightarrow> nat option" where
  "digit_val c = (let n = of_char c in if 48 \<le> n \<and> n \<le> 57 then Some (n - 48) else None)"

fun read_digits :: "nat \<Rightarrow> string \<Rightarrow> nat option" where
  "read_digits acc [] = Some acc"
| "read_digits acc (c # s) =
     (case digit_val c of None \<Rightarrow> None | Some d \<Rightarrow> read_digits (10 * acc + d) s)"

text \<open>
  \<^verbatim>\<open>uN::from_str\<close>: an optional plus sign, at least one digit, and no overflow of the
  width (\<open>bound\<close> is one past the largest value).
\<close>

definition parse_unsigned :: "nat \<Rightarrow> string \<Rightarrow> nat option" where
  "parse_unsigned bound s =
     (let ds = (case s of [] \<Rightarrow> [] | c # t \<Rightarrow> if c = CHR ''+'' then t else s)
      in if ds = [] then None
         else (case read_digits 0 ds of
                 None \<Rightarrow> None
               | Some n \<Rightarrow> if n < bound then Some n else None))"

section \<open>Facts about strings\<close>

subsection \<open>Case folding\<close>

lemma of_char_lower_char:
  "(of_char (lower_char c) :: nat) =
     (if 65 \<le> (of_char c :: nat) \<and> (of_char c :: nat) \<le> 90 then of_char c + 32 else of_char c)"
proof (cases "65 \<le> (of_char c :: nat) \<and> (of_char c :: nat) \<le> 90")
  case True
  then have "((of_char c :: nat) + 32) mod 256 = of_char c + 32" by simp
  with True show ?thesis by (simp add: lower_char_def Let_def)
next
  case False
  then have "lower_char c = c" unfolding lower_char_def Let_def by (rule if_not_P)
  then show ?thesis unfolding if_not_P [OF False] by (rule arg_cong)
qed

lemma lower_char_idem [simp]: "lower_char (lower_char c) = lower_char c"
proof -
  have "\<not> (65 \<le> (of_char (lower_char c) :: nat) \<and> (of_char (lower_char c) :: nat) \<le> 90)"
    unfolding of_char_lower_char by auto
  then show ?thesis
    unfolding lower_char_def [of "lower_char c"] Let_def by (rule if_not_P)
qed

lemma to_ascii_lowercase_idem [simp]:
  "to_ascii_lowercase (to_ascii_lowercase s) = to_ascii_lowercase s"
  by (simp add: to_ascii_lowercase_def)

lemma to_ascii_lowercase_Nil_iff [simp]: "to_ascii_lowercase s = [] \<longleftrightarrow> s = []"
  by (simp add: to_ascii_lowercase_def)

lemma length_to_ascii_lowercase [simp]: "length (to_ascii_lowercase s) = length s"
  by (simp add: to_ascii_lowercase_def)

subsection \<open>Trimming\<close>

definition no_lead :: "string list \<Rightarrow> string \<Rightarrow> bool" where
  "no_lead ws s \<longleftrightarrow> (\<forall>w\<in>set ws. w \<noteq> [] \<longrightarrow> take (length w) s \<noteq> w)"

lemma strip_with_id: "no_lead ws s \<Longrightarrow> strip_with ws s = s"
proof -
  assume "no_lead ws s"
  then have "find (\<lambda>w. w \<noteq> [] \<and> take (length w) s = w) ws = None"
    by (auto simp: find_None_iff no_lead_def)
  then show ?thesis by (subst strip_with.simps) simp
qed

lemma no_lead_strip_with: "no_lead ws (strip_with ws s)"
proof (induction ws s rule: strip_with.induct)
  case (1 ws s)
  show ?case
  proof (cases "find (\<lambda>w. w \<noteq> [] \<and> take (length w) s = w) ws")
    case None
    then have "no_lead ws s" by (auto simp: find_None_iff no_lead_def)
    then show ?thesis by (simp add: strip_with_id)
  next
    case (Some w)
    then show ?thesis using "1.IH" by (subst strip_with.simps) simp
  qed
qed

lemma suffix_strip_with: "suffix (strip_with ws s) s"
proof (induction ws s rule: strip_with.induct)
  case (1 ws s)
  show ?case
  proof (cases "find (\<lambda>w. w \<noteq> [] \<and> take (length w) s = w) ws")
    case None
    then show ?thesis by (subst strip_with.simps) simp
  next
    case (Some w)
    then have "suffix (strip_with ws (drop (length w) s)) (drop (length w) s)"
      using "1.IH" by blast
    then have "suffix (strip_with ws (drop (length w) s)) s"
      using suffix_drop suffix_order.trans by blast
    then show ?thesis using Some by (subst strip_with.simps) simp
  qed
qed

lemma no_lead_prefix: "no_lead ws s \<Longrightarrow> prefix t s \<Longrightarrow> no_lead ws t"
  unfolding no_lead_def
proof (intro ballI impI notI)
  fix w
  assume s: "\<forall>w\<in>set ws. w \<noteq> [] \<longrightarrow> take (length w) s \<noteq> w" and "prefix t s"
    and w: "w \<in> set ws" "w \<noteq> []" and eq: "take (length w) t = w"
  obtain u where "s = t @ u" using \<open>prefix t s\<close> by (auto simp: prefix_def)
  moreover have "length w \<le> length t"
    using arg_cong [OF eq, of length] by simp
  ultimately have "take (length w) s = w" using eq by simp
  with s w show False by blast
qed

lemma strip_with_strip_with [simp]: "strip_with ws (strip_with ws s) = strip_with ws s"
  by (simp add: no_lead_strip_with strip_with_id)

lemma trim_end_prefix: "prefix (trim_end s) s"
  using suffix_strip_with [of "map rev ws_chars" "rev s"]
  by (simp add: trim_end_def suffix_to_prefix)

lemma trim_idem [simp]: "trim (trim s) = trim s"
proof -
  have "no_lead ws_chars (trim s)"
    unfolding trim_def trim_start_def
    by (rule no_lead_prefix [OF no_lead_strip_with trim_end_prefix])
  then have "trim_start (trim s) = trim s"
    by (simp add: trim_start_def strip_with_id)
  then show ?thesis
    by (simp add: trim_def [of "trim s"]) (simp add: trim_def trim_end_def)
qed

text \<open>Printable ASCII other than space: never the first or last byte of white space.\<close>

definition graph_char :: "char \<Rightarrow> bool" where
  "graph_char c \<longleftrightarrow> 33 \<le> (of_char c :: nat) \<and> (of_char c :: nat) \<le> 126"

lemma ws_chars_ends:
  "w \<in> set ws_chars \<Longrightarrow> w \<noteq> [] \<and> \<not> graph_char (hd w) \<and> \<not> graph_char (last w)"
  by (auto simp: ws_chars_def graph_char_def)

lemma no_lead_graph:
  assumes "s \<noteq> []" and "graph_char (hd s)"
  shows "no_lead ws_chars s"
  unfolding no_lead_def
proof (intro ballI impI notI)
  fix w
  assume "w \<in> set ws_chars" and "w \<noteq> []" and eq: "take (length w) s = w"
  then have "hd w = hd s"
    by (metis hd_take length_greater_0_conv)
  with assms ws_chars_ends [OF \<open>w \<in> set ws_chars\<close>] show False by simp
qed

lemma no_lead_graph_rev:
  assumes "s \<noteq> []" and "graph_char (last s)"
  shows "no_lead (map rev ws_chars) (rev s)"
  unfolding no_lead_def
proof (intro ballI impI notI)
  fix w
  assume w: "w \<in> set (map rev ws_chars)" and "w \<noteq> []" and eq: "take (length w) (rev s) = w"
  then have "hd w = last s"
    by (metis hd_rev hd_take length_greater_0_conv)
  moreover obtain v where "v \<in> set ws_chars" "w = rev v" using w by auto
  ultimately show False
    using assms ws_chars_ends [of v] \<open>w \<noteq> []\<close> by (simp add: hd_rev)
qed

lemma trim_Nil [simp]: "trim [] = []"
proof -
  have "no_lead ws []" for ws by (auto simp: no_lead_def)
  then show ?thesis by (simp add: trim_def trim_start_def trim_end_def strip_with_id)
qed

lemma trim_id:
  "s = [] \<or> graph_char (hd s) \<and> graph_char (last s) \<Longrightarrow> trim s = s"
proof (cases "s = []")
  case False
  assume "s = [] \<or> graph_char (hd s) \<and> graph_char (last s)"
  with False show ?thesis
    by (simp add: trim_def trim_start_def trim_end_def strip_with_id no_lead_graph no_lead_graph_rev)
qed simp

lemma strip_with_space:
  "strip_with ws_chars (CHR '' '' # s) = strip_with ws_chars s"
  "strip_with (map rev ws_chars) (CHR '' '' # s) = strip_with (map rev ws_chars) s"
  by (subst strip_with.simps, simp add: ws_chars_def)+

lemma trim_space_front: "trim (CHR '' '' # s) = trim s"
  by (simp add: trim_def trim_start_def strip_with_space)

lemma trim_space_back:
  assumes "s \<noteq> []" and "graph_char (hd s)"
  shows "trim (s @ '' '') = trim s"
proof -
  have "trim_start (s @ '' '') = s @ '' ''"
    using assms by (simp add: trim_start_def strip_with_id no_lead_graph)
  moreover have "trim_start s = s"
    using assms by (simp add: trim_start_def strip_with_id no_lead_graph)
  ultimately show ?thesis
    by (simp add: trim_def trim_end_def strip_with_space)
qed

subsection \<open>Splitting and joining\<close>

lemma split_once_first:
  assumes "\<forall>c\<in>set a. \<not> p c" and "p d"
  shows "split_once p (a @ d # b) = Some (a, b)"
  using assms by (induction a) auto

lemma split_once_None_iff: "split_once p s = None \<longleftrightarrow> (\<forall>c\<in>set s. \<not> p c)"
  by (induction s) auto

lemma split_on_no_sep: "d \<notin> set s \<Longrightarrow> split_on d s = [s]"
  by (induction s) auto

lemma split_on_append:
  "d \<notin> set a \<Longrightarrow> split_on d (a @ d # b) = a # split_on d b"
  by (induction a) auto

lemma split_on_not_Nil [simp]: "split_on d s \<noteq> []"
  by (induction s) (auto split: list.splits)

lemma split_on_str_join:
  "ps \<noteq> [] \<Longrightarrow> \<forall>p\<in>set ps. d \<notin> set p \<Longrightarrow> split_on d (str_join [d] ps) = ps"
proof (induction "[d]" ps rule: str_join.induct)
  case (2 s)
  then show ?case by (simp add: split_on_no_sep)
next
  case (3 s t ps)
  then show ?case by (simp add: split_on_append)
qed simp

lemma split_on_set: "set s \<subseteq> insert d (\<Union> (set ` set (split_on d s)))"
proof (induction s)
  case (Cons c s)
  then show ?case by (cases "split_on d s") auto
qed simp

subsection \<open>Decimal numbers\<close>

lemma digit_val_digit_char: "n < 10 \<Longrightarrow> digit_val (digit_char n) = Some n"
  by (simp add: digit_val_def digit_char_def)

lemma read_digits_append:
  "read_digits acc (s @ t) =
     (case read_digits acc s of None \<Rightarrow> None | Some n \<Rightarrow> read_digits n t)"
  by (induction acc s rule: read_digits.induct) (auto split: option.splits)

lemma read_digits_show_nat: "read_digits 0 (show_nat n) = Some n"
proof (induction n rule: show_nat.induct)
  case (1 n)
  show ?case
  proof (cases "n < 10")
    case True
    then show ?thesis by (subst show_nat.simps) (simp add: digit_val_digit_char)
  next
    case False
    then show ?thesis
      using "1.IH" by (subst show_nat.simps) (simp add: read_digits_append digit_val_digit_char)
  qed
qed

lemma show_nat_not_Nil [simp]: "show_nat n \<noteq> []"
  by (subst show_nat.simps) simp

definition is_digit_char :: "char \<Rightarrow> bool" where
  "is_digit_char c \<longleftrightarrow> 48 \<le> (of_char c :: nat) \<and> (of_char c :: nat) \<le> 57"

lemma set_show_nat: "c \<in> set (show_nat n) \<Longrightarrow> is_digit_char c"
proof (induction n rule: show_nat.induct)
  case (1 n)
  have dig: "is_digit_char (digit_char k)" if "k < 10" for k
    using that by (simp add: is_digit_char_def digit_char_def)
  show ?case
  proof (cases "n < 10")
    case True
    with "1.prems" show ?thesis using dig by (simp add: show_nat.simps [of n])
  next
    case False
    with "1.prems" have "c \<in> set (show_nat (n div 10)) \<or> c = digit_char (n mod 10)"
      by (subst (asm) show_nat.simps) auto
    with False "1.IH" show ?thesis using dig by auto
  qed
qed

lemma parse_unsigned_show_nat [round_trips]: "n < bound \<Longrightarrow> parse_unsigned bound (show_nat n) = Some n"
proof -
  assume "n < bound"
  obtain c t where ct: "show_nat n = c # t" by (cases "show_nat n") auto
  then have "is_digit_char c" using set_show_nat [of c n] by simp
  then have "c \<noteq> CHR ''+''" by (auto simp: is_digit_char_def)
  then show ?thesis
    using ct read_digits_show_nat [of n] \<open>n < bound\<close> by (simp add: parse_unsigned_def)
qed

end
