(* ===== verification/Net.thy ===== *)
theory Net
  imports Rust_Str
begin

text \<open>
  The addresses of \<^verbatim>\<open>std::net\<close>: \<^verbatim>\<open>IpAddr\<close> on machine words, \<^verbatim>\<open>SocketAddr\<close>, the
  dotted text form of IPv4 with its parser, and prefix masks.
\<close>

datatype ipaddr = V4 "32 word" | V6 "128 word"

record sockaddr =
  sa_ip :: ipaddr
  sa_port :: u16

fun is_ipv4 :: "ipaddr \<Rightarrow> bool" where
  "is_ipv4 (V4 _) = True"
| "is_ipv4 (V6 _) = False"

definition is_ipv6 :: "ipaddr \<Rightarrow> bool" where
  "is_ipv6 a \<longleftrightarrow> \<not> is_ipv4 a"

definition mk_sockaddr :: "ipaddr \<Rightarrow> u16 \<Rightarrow> sockaddr" where
  "mk_sockaddr ip port = \<lparr>sa_ip = ip, sa_port = port\<rparr>"

lemma mk_sockaddr_sel [simp]: "sa_ip (mk_sockaddr ip p) = ip" "sa_port (mk_sockaddr ip p) = p"
  by (simp_all add: mk_sockaddr_def)

text \<open>The four bytes of an IPv4 address, most significant first (\<^verbatim>\<open>octets\<close>).\<close>

definition octets :: "32 word \<Rightarrow> nat list" where
  "octets w = [unat w div 2 ^ 24, unat w div 2 ^ 16 mod 256, unat w div 2 ^ 8 mod 256, unat w mod 256]"

definition of_octets :: "nat \<Rightarrow> nat \<Rightarrow> nat \<Rightarrow> nat \<Rightarrow> 32 word" where
  "of_octets a b c d = of_nat (a * 2 ^ 24 + b * 2 ^ 16 + c * 2 ^ 8 + d)"

lemma of_octets_octets:
  "octets w = [a, b, c, d] \<Longrightarrow> of_octets a b c d = w"
proof -
  assume o: "octets w = [a, b, c, d]"
  define n where "n = unat w"
  have "a * 2 ^ 24 + b * 2 ^ 16 + c * 2 ^ 8 + d = n"
  proof -
    have "n div 2 ^ 24 = n div 2 ^ 16 div 256" "n div 2 ^ 16 = n div 2 ^ 8 div 256"
      by (simp_all flip: div_mult2_eq)
    moreover have "n div 2 ^ 16 = n div 2 ^ 16 div 256 * 256 + n div 2 ^ 16 mod 256"
      "n div 2 ^ 8 = n div 2 ^ 8 div 256 * 256 + n div 2 ^ 8 mod 256"
      "n = n div 2 ^ 8 * 256 + n mod 256"
      by simp_all
    ultimately have "n = (((n div 2 ^ 24) * 256 + n div 2 ^ 16 mod 256) * 256
        + n div 2 ^ 8 mod 256) * 256 + n mod 256"
      by presburger
    moreover have "a = n div 2 ^ 24" "b = n div 2 ^ 16 mod 256" "c = n div 2 ^ 8 mod 256" "d = n mod 256"
      using o by (simp_all add: octets_def n_def)
    ultimately show ?thesis by simp
  qed
  then show ?thesis by (simp add: of_octets_def n_def)
qed

lemma octets_less: "x \<in> set (octets w) \<Longrightarrow> x < 256"
  using unsigned_less [of w, where ?'a = nat] by (auto simp: octets_def div_less_iff_less_mult)

definition show_v4 :: "32 word \<Rightarrow> string" where
  "show_v4 w = str_join ''.'' (map show_nat (octets w))"

text \<open>
  One number of the dotted form: one to three digits, no leading zero, at most 255.
\<close>

definition parse_octet :: "string \<Rightarrow> nat option" where
  "parse_octet s =
     (if s = [] \<or> 3 < length s \<or> (1 < length s \<and> hd s = CHR ''0'') then None
      else (case read_digits 0 s of
              None \<Rightarrow> None
            | Some n \<Rightarrow> if n < 256 then Some n else None))"

definition parse_v4 :: "string \<Rightarrow> 32 word option" where
  "parse_v4 s =
     (case map parse_octet (split_on (CHR ''.'') s) of
        [Some a, Some b, Some c, Some d] \<Rightarrow> Some (of_octets a b c d)
      | _ \<Rightarrow> None)"

lemma show_nat_lt_1000:
  assumes "n < 1000"
  shows "length (show_nat n) \<le> 3 \<and> (1 < length (show_nat n) \<longrightarrow> hd (show_nat n) \<noteq> CHR ''0'')"
proof -
  have d: "digit_char k \<noteq> CHR ''0''" if "0 < k" "k < 10" for k
    using that digit_val_digit_char [of k] by (auto simp: digit_val_def)
  consider "n < 10" | "10 \<le> n" "n < 100" | "100 \<le> n" "n < 1000"
    using assms by linarith
  then show ?thesis
  proof cases
    case 1
    then show ?thesis by (simp add: show_nat.simps [of n])
  next
    case 2
    then have "n div 10 < 10" "0 < n div 10" by auto
    with 2 show ?thesis
      by (simp add: show_nat.simps [of n] show_nat.simps [of "n div 10"] d)
  next
    case 3
    then have "\<not> n div 10 < 10" "n div 10 div 10 < 10" "0 < n div 10 div 10" by auto
    with 3 show ?thesis
      by (simp add: show_nat.simps [of n] show_nat.simps [of "n div 10"]
          show_nat.simps [of "n div 10 div 10"] d del: div_mult2_eq)
  qed
qed

lemma parse_octet_show_nat: "n < 256 \<Longrightarrow> parse_octet (show_nat n) = Some n"
  using show_nat_lt_1000 [of n] by (auto simp: parse_octet_def read_digits_show_nat)

lemma dot_notin_show_nat: "CHR ''.'' \<notin> set (show_nat n)"
  using set_show_nat by (fastforce simp: is_digit_char_def)

lemma parse_v4_show_v4 [round_trips]: "parse_v4 (show_v4 w) = Some w"
proof -
  obtain a b c d where o: "octets w = [a, b, c, d]" by (simp add: octets_def)
  then have lt: "a < 256" "b < 256" "c < 256" "d < 256"
    using octets_less [of _ w] by auto
  have "split_on (CHR ''.'') (show_v4 w) = [show_nat a, show_nat b, show_nat c, show_nat d]"
    using o by (simp add: show_v4_def split_on_append split_on_no_sep dot_notin_show_nat)
  then show ?thesis
    using lt of_octets_octets [OF o] by (simp add: parse_v4_def parse_octet_show_nat)
qed

interpretation v4_text: text_codec show_v4 parse_v4
  by unfold_locales (rule parse_v4_show_v4)

end
