(* ===== verification/Core_Error.thy ===== *)
theory Core_Error
  imports Net
begin

text \<open>
  \<^verbatim>\<open>vpnmgr-core/src/error.rs\<close> and \<^verbatim>\<open>key.rs\<close>: the errors of the core crate and the key
  types. The text of a rejected setting is kept as a constructor with the values the text
  shows; \<^verbatim>\<open>base64\<close> is a parameter.
\<close>

type_synonym path = string

datatype key_error = NotBase64 | WrongLength nat

text \<open>Why a configuration is refused, one constructor per message of \<^verbatim>\<open>Config::validate\<close>.\<close>

datatype config_reason =
    MaxLoadMeaningless u32
  | CountriesInBoth "string set"
  | ServersInBoth "string set"
  | ConcurrencyZero
  | SamplesZero
  | TimeoutZero
  | IntervalZero
  | TargetNotPositive
  | AcceptFractionRange
  | HeadroomMarginNotPositive
  | ImprovementThresholdRange
  | WeightsNegative
  | WeightsAllZero
  | NoTunnelAddress
  | BadKeyFile path key_error

text \<open>The error strings of \<^verbatim>\<open>Cidr::from_str\<close>.\<close>

datatype cidr_error =
    NotAnIp string
  | NotAPrefix string
  | PrefixTooLong u8 u8

text \<open>Why a WireGuard file is refused, with the line number the message shows.\<close>

datatype wgconf_reason =
    UnknownSection nat string
  | ExpectedKeyValue nat
  | BeforeAnySection nat string
  | NoPeerSection
  | ManyPeerSections nat
  | NoPrivateKey
  | BadPrivateKey nat key_error
  | NoPublicKey
  | BadPublicKey nat key_error
  | BadPresharedKey nat key_error
  | BadListEntry nat string string cidr_error
  | NoAddress
  | BadScalar nat string string

datatype core_error =
    Http string
  | ApiResult string
  | Decode string
  | ReadErr path string
  | ConfigParse path string
  | WgConf path wgconf_reason
  | ConfigErr config_reason
  | NoCandidates nat nat

section \<open>Keys\<close>

definition KEY_LEN :: nat where "KEY_LEN = 32"

datatype public_key = PublicKey "u8 list"
datatype secret_key = SecretKey "u8 list"

text \<open>The \<^verbatim>\<open>base64\<close> crate's standard engine: \<^verbatim>\<open>encode\<close> and \<^verbatim>\<open>decode\<close>.\<close>

record base64 =
  b64_encode :: "u8 list \<Rightarrow> string"
  b64_decode :: "string \<Rightarrow> u8 list option"

definition key_decode :: "base64 \<Rightarrow> string \<Rightarrow> key_error + u8 list" where
  "key_decode b64 s =
     (case b64_decode b64 (trim s) of
        None \<Rightarrow> Inl NotBase64
      | Some raw \<Rightarrow> if length raw = KEY_LEN then Inr raw else Inl (WrongLength (length raw)))"

definition public_from_base64 :: "base64 \<Rightarrow> string \<Rightarrow> key_error + public_key" where
  "public_from_base64 b64 s = map_sum id PublicKey (key_decode b64 s)"

definition secret_from_base64 :: "base64 \<Rightarrow> string \<Rightarrow> key_error + secret_key" where
  "secret_from_base64 b64 s = map_sum id SecretKey (key_decode b64 s)"

primrec public_bytes :: "public_key \<Rightarrow> u8 list" where
  "public_bytes (PublicKey k) = k"

primrec secret_expose :: "secret_key \<Rightarrow> u8 list" where
  "secret_expose (SecretKey k) = k"

definition public_to_base64 :: "base64 \<Rightarrow> public_key \<Rightarrow> string" where
  "public_to_base64 b64 k = b64_encode b64 (public_bytes k)"

definition secret_to_base64 :: "base64 \<Rightarrow> secret_key \<Rightarrow> string" where
  "secret_to_base64 b64 k = b64_encode b64 (secret_expose k)"

text \<open>\<^verbatim>\<open>Debug\<close> of the two key types: only the public one prints its bytes.\<close>

definition public_debug :: "base64 \<Rightarrow> public_key \<Rightarrow> string" where
  "public_debug b64 k = ''PublicKey('' @ public_to_base64 b64 k @ '')''"

definition secret_debug :: "secret_key \<Rightarrow> string" where
  "secret_debug _ = ''SecretKey(<redacted>)''"

text \<open>
  What the standard engine documents: decoding an encoding gives the bytes back, and the
  alphabet is printable (no white space, no separator of the \<^verbatim>\<open>.conf\<close> format); only the
  empty string encodes no bytes.
\<close>

definition b64_char :: "char \<Rightarrow> bool" where
  "b64_char c \<longleftrightarrow> graph_char c \<and> c \<noteq> CHR ''#'' \<and> c \<noteq> CHR '';'' \<and> c \<noteq> CHR '','' \<and> c \<noteq> CHR ''[''"

definition base64_ok :: "base64 \<Rightarrow> bool" where
  "base64_ok b64 \<longleftrightarrow>
     (\<forall>bs. b64_decode b64 (b64_encode b64 bs) = Some bs) \<and>
     (\<forall>bs. bs \<noteq> [] \<longrightarrow> b64_encode b64 bs \<noteq> []) \<and>
     (\<forall>bs. \<forall>c\<in>set (b64_encode b64 bs). b64_char c)"

lemma key_decode_encode:
  assumes "base64_ok b64" and "length bs = KEY_LEN"
  shows "key_decode b64 (b64_encode b64 bs) = Inr bs"
proof -
  have "\<forall>c\<in>set (b64_encode b64 bs). graph_char c"
    using assms(1) by (simp add: base64_ok_def b64_char_def)
  then have "trim (b64_encode b64 bs) = b64_encode b64 bs"
    by (intro trim_id) (metis hd_in_set last_in_set)
  then show ?thesis
    using assms by (simp add: key_decode_def base64_ok_def)
qed

section \<open>Sample keys\<close>

text \<open>A hexadecimal stand-in for the engine of the \<^verbatim>\<open>base64\<close> crate, for the witnesses.\<close>

definition nibble :: "nat \<Rightarrow> char" where
  "nibble n = char_of (97 + n)"

definition nibble_value :: "char \<Rightarrow> nat" where
  "nibble_value c = of_char c - 97"

fun hex_encode :: "u8 list \<Rightarrow> string" where
  "hex_encode [] = []"
| "hex_encode (b # bs) = nibble (unat b div 16) # nibble (unat b mod 16) # hex_encode bs"

fun hex_decode :: "string \<Rightarrow> u8 list option" where
  "hex_decode [] = Some []"
| "hex_decode [_] = None"
| "hex_decode (c # d # s) =
     map_option ((#) (of_nat (nibble_value c * 16 + nibble_value d))) (hex_decode s)"

definition sample_engine :: base64 where
  "sample_engine = \<lparr>b64_encode = hex_encode, b64_decode = hex_decode\<rparr>"

lemma nibble_value: "n < 16 \<Longrightarrow> nibble_value (nibble n) = n"
  by (simp add: nibble_value_def nibble_def)

lemma nibble_char: "n < 16 \<Longrightarrow> b64_char (nibble n)"
  by (auto simp: b64_char_def graph_char_def nibble_def char_of_eq_iff take_bit_nat_def)

lemma hex_round: "hex_decode (hex_encode bs) = Some bs"
proof (induction bs)
  case (Cons b bs)
  have "unat b < 256" using unsigned_less [of b] by simp
  then have "unat b div 16 < 16" by simp
  then show ?case using Cons by (simp add: nibble_value)
qed simp

lemma sample_engine_ok: "base64_ok sample_engine"
proof -
  have "\<forall>c\<in>set (hex_encode bs). b64_char c" for bs
  proof (induction bs)
    case (Cons b bs)
    have "unat b < 256" using unsigned_less [of b] by simp
    then have "unat b div 16 < 16" by simp
    then show ?case using Cons by (simp add: nibble_char)
  qed simp
  moreover have "bs \<noteq> [] \<Longrightarrow> hex_encode bs \<noteq> []" for bs by (cases bs) simp_all
  ultimately show ?thesis by (simp add: base64_ok_def sample_engine_def hex_round)
qed

end
