(* ===== verification/Floats.thy ===== *)
theory Floats
  imports Complex_Main Rust_Str
begin

text \<open>
  Rust's \<^verbatim>\<open>f64\<close>. The special values and the way they compare and propagate are
  modelled (a NaN compares with nothing, \<^verbatim>\<open>max\<close> and \<^verbatim>\<open>min\<close> skip it); a finite
  value is the exact real, so rounding, overflow to infinity and the sign of zero are not.
\<close>

datatype f64 = Fin real | PInf | NInf | NaN

instantiation f64 :: "{plus, minus, times, inverse, zero, one, ord}"
begin

definition zero_f64 :: f64 where "0 = Fin 0"

definition one_f64 :: f64 where "1 = Fin 1"

fun plus_f64 :: "f64 \<Rightarrow> f64 \<Rightarrow> f64" where
  "Fin a + Fin b = Fin (a + b)"
| "NaN + _ = NaN"
| "_ + NaN = NaN"
| "PInf + NInf = NaN"
| "NInf + PInf = NaN"
| "PInf + _ = PInf"
| "_ + PInf = PInf"
| "NInf + _ = NInf"
| "_ + NInf = NInf"

fun neg_f64 :: "f64 \<Rightarrow> f64" where
  "neg_f64 (Fin a) = Fin (- a)"
| "neg_f64 PInf = NInf"
| "neg_f64 NInf = PInf"
| "neg_f64 NaN = NaN"

definition minus_f64 :: "f64 \<Rightarrow> f64 \<Rightarrow> f64" where
  "a - b = a + neg_f64 b"

definition signed_inf :: "real \<Rightarrow> f64" where
  "signed_inf s = (if 0 < s then PInf else if s < 0 then NInf else NaN)"

fun sgn_f64 :: "f64 \<Rightarrow> real" where
  "sgn_f64 (Fin a) = sgn a"
| "sgn_f64 PInf = 1"
| "sgn_f64 NInf = -1"
| "sgn_f64 NaN = 0"

fun times_f64 :: "f64 \<Rightarrow> f64 \<Rightarrow> f64" where
  "Fin a * Fin b = Fin (a * b)"
| "NaN * _ = NaN"
| "_ * NaN = NaN"
| "a * b = signed_inf (sgn_f64 a * sgn_f64 b)"

text \<open>A finite value over zero is an infinity, zero over zero and infinity over infinity NaN.\<close>

fun divide_f64 :: "f64 \<Rightarrow> f64 \<Rightarrow> f64" where
  "Fin a div Fin b = (if b = 0 then signed_inf (sgn a) else Fin (a / b))"
| "NaN div _ = NaN"
| "_ div NaN = NaN"
| "Fin a div _ = Fin 0"
| "a div Fin b = signed_inf (sgn_f64 a * (if b < 0 then -1 else 1))"
| "_ div _ = NaN"

definition inverse_f64 :: "f64 \<Rightarrow> f64" where
  "inverse a = Fin 1 div a"

text \<open>The comparison operators; every one with a NaN operand is false.\<close>

fun less_eq_f64 :: "f64 \<Rightarrow> f64 \<Rightarrow> bool" where
  "Fin a \<le> Fin b \<longleftrightarrow> a \<le> b"
| "NaN \<le> _ \<longleftrightarrow> False"
| "_ \<le> NaN \<longleftrightarrow> False"
| "NInf \<le> _ \<longleftrightarrow> True"
| "_ \<le> PInf \<longleftrightarrow> True"
| "(_ :: f64) \<le> _ \<longleftrightarrow> False"

fun less_f64 :: "f64 \<Rightarrow> f64 \<Rightarrow> bool" where
  "Fin a < Fin b \<longleftrightarrow> a < b"
| "NaN < _ \<longleftrightarrow> False"
| "_ < NaN \<longleftrightarrow> False"
| "NInf < NInf \<longleftrightarrow> False"
| "NInf < _ \<longleftrightarrow> True"
| "PInf < _ \<longleftrightarrow> False"
| "_ < PInf \<longleftrightarrow> True"
| "(_ :: f64) < NInf \<longleftrightarrow> False"

instance ..

end

definition is_fin :: "f64 \<Rightarrow> bool" where
  "is_fin x \<longleftrightarrow> (\<exists>r. x = Fin r)"

primrec fin_val :: "f64 \<Rightarrow> real" where
  "fin_val (Fin r) = r"
| "fin_val PInf = 0"
| "fin_val NInf = 0"
| "fin_val NaN = 0"

text \<open>\<^verbatim>\<open>f64::max\<close> and \<^verbatim>\<open>f64::min\<close> return the other operand when one is NaN.\<close>

definition fmax :: "f64 \<Rightarrow> f64 \<Rightarrow> f64" where
  "fmax a b = (if a = NaN then b else if b = NaN then a else if a \<le> b then b else a)"

definition fmin :: "f64 \<Rightarrow> f64 \<Rightarrow> f64" where
  "fmin a b = (if a = NaN then b else if b = NaN then a else if a \<le> b then a else b)"

text \<open>\<^verbatim>\<open>f64::clamp\<close> with ordered bounds; a NaN stays NaN.\<close>

definition fclamp :: "f64 \<Rightarrow> f64 \<Rightarrow> f64 \<Rightarrow> f64" where
  "fclamp x lo hi = (if x < lo then lo else if hi < x then hi else x)"

fun fln :: "f64 \<Rightarrow> f64" where
  "fln (Fin x) = (if 0 < x then Fin (ln x) else if x = 0 then NInf else NaN)"
| "fln PInf = PInf"
| "fln NInf = NaN"
| "fln NaN = NaN"

text \<open>\<^verbatim>\<open>f64::partial_cmp\<close>.\<close>

definition partial_cmp :: "f64 \<Rightarrow> f64 \<Rightarrow> ordering option" where
  "partial_cmp a b =
     (if a = NaN \<or> b = NaN then None
      else Some (if a < b then OLess else if b < a then OGreater else OEqual))"

definition f64_epsilon :: f64 where
  "f64_epsilon = Fin (1 / 2 ^ 52)"

text \<open>\<^verbatim>\<open>RangeInclusive::contains\<close>.\<close>

definition in_range :: "f64 \<Rightarrow> f64 \<Rightarrow> f64 \<Rightarrow> bool" where
  "in_range lo hi x \<longleftrightarrow> lo \<le> x \<and> x \<le> hi"

definition f64_of_nat :: "nat \<Rightarrow> f64" where
  "f64_of_nat n = Fin (of_nat n)"

text \<open>\<^verbatim>\<open>Duration::as_secs_f64\<close>.\<close>

definition as_secs_f64 :: "duration \<Rightarrow> f64" where
  "as_secs_f64 d = Fin (of_nat d / 1000000000)"

text \<open>
  Formatting with a precision (\<^verbatim>\<open>{:.1}\<close>, \<^verbatim>\<open>{:.0}\<close>): the value rounded half to even.
\<close>

definition round_half_even :: "real \<Rightarrow> int" where
  "round_half_even x =
     (let n = \<lfloor>x\<rfloor>; r = x - of_int n in
      if r < 1 / 2 then n else if 1 / 2 < r then n + 1 else if even n then n else n + 1)"

definition pad_left :: "nat \<Rightarrow> string \<Rightarrow> string" where
  "pad_left w s = replicate (w - length s) (CHR ''0'') @ s"

definition fmt_pos :: "nat \<Rightarrow> real \<Rightarrow> string" where
  "fmt_pos p x =
     (let n = nat (round_half_even (x * 10 ^ p)) in
      if p = 0 then show_nat n
      else show_nat (n div 10 ^ p) @ ''.'' @ pad_left p (show_nat (n mod 10 ^ p)))"

fun fmt_prec :: "nat \<Rightarrow> f64 \<Rightarrow> string" where
  "fmt_prec p (Fin x) = (if x < 0 then ''-'' @ fmt_pos p (- x) else fmt_pos p x)"
| "fmt_prec p PInf = ''inf''"
| "fmt_prec p NInf = ''-inf''"
| "fmt_prec p NaN = ''NaN''"

lemma is_fin_simps [simp]:
  "is_fin (Fin r)" "\<not> is_fin PInf" "\<not> is_fin NInf" "\<not> is_fin NaN"
  by (simp_all add: is_fin_def)

lemma is_fin_cases: "is_fin x \<Longrightarrow> (\<And>r. x = Fin r \<Longrightarrow> P) \<Longrightarrow> P"
  by (auto simp: is_fin_def)

lemma minus_f64_Fin [simp]: "Fin a - Fin b = Fin (a - b)"
  by (simp add: minus_f64_def)

lemma divide_f64_Fin [simp]: "b \<noteq> 0 \<Longrightarrow> Fin a / Fin b = Fin (a / b)"
  by simp

lemma fmax_Fin [simp]: "fmax (Fin a) (Fin b) = Fin (max a b)"
  by (simp add: fmax_def max_def)

lemma fmin_Fin [simp]: "fmin (Fin a) (Fin b) = Fin (min a b)"
  by (simp add: fmin_def min_def)

lemma fclamp_Fin: "lo \<le> hi \<Longrightarrow> fclamp (Fin x) (Fin lo) (Fin hi) = Fin (max lo (min hi x))"
  by (auto simp: fclamp_def)

lemma fclamp_unit: "x \<noteq> NaN \<Longrightarrow> \<exists>r. fclamp x (Fin 0) (Fin 1) = Fin r \<and> 0 \<le> r \<and> r \<le> 1"
  by (cases x) (auto simp: fclamp_def)

lemma fmax_not_NaN: "b \<noteq> NaN \<Longrightarrow> fmax a b \<noteq> NaN"
  by (auto simp: fmax_def)

lemma NaN_compare [simp]:
  "\<not> NaN \<le> x" "\<not> x \<le> NaN" "\<not> NaN < x" "\<not> x < NaN"
  by (cases x; simp)+

lemma NaN_arith [simp]:
  "NaN + x = NaN" "x + NaN = NaN" "NaN * x = NaN" "x * NaN = NaN" "NaN / x = NaN" "x / NaN = NaN"
  by (cases x; simp)+

lemma partial_cmp_Fin [simp]:
  "partial_cmp (Fin a) (Fin b) = Some (if a < b then OLess else if b < a then OGreater else OEqual)"
  by (simp add: partial_cmp_def)

lemma partial_cmp_NaN [simp]: "partial_cmp NaN x = None" "partial_cmp x NaN = None"
  by (simp_all add: partial_cmp_def)

end
