(* ===== verification/Airvpn.thy ===== *)
theory Airvpn
  imports Core_Error Floats
begin

text \<open>
  \<^verbatim>\<open>vpnmgr-core/src/airvpn.rs\<close>: the server list and what is derived from one server.
  The HTTP client and the JSON decoder are parameters.
\<close>

definition STATUS_URL :: string where
  "STATUS_URL = ''https://airvpn.org/api/status/''"

definition WG_PORT :: u16 where "WG_PORT = 1637"

definition WG_ENTRIES :: "u8 list" where "WG_ENTRIES = [1, 3]"

definition WG_PUBLIC_KEY_FALLBACK :: string where
  "WG_PUBLIC_KEY_FALLBACK = ''PyLCXAQT8KkM4T+dUsOQfn+Ub3pGxfGlxkIApuig+hk=''"

datatype health = HealthOk | HealthError | HealthUnknown

record server =
  srv_name :: string
  country_name :: string
  country_code :: string
  srv_location :: string
  continent :: string
  bw :: u64
  bw_max :: u64
  srv_users :: u32
  srv_load :: u32
  srv_health :: health
  srv_warning :: "string option"
  wg_ipv4 :: "32 word"
  wg_ipv4_alt :: "32 word option"
  wg_ipv6 :: "128 word option"

definition is_healthy :: "server \<Rightarrow> bool" where
  "is_healthy s \<longleftrightarrow> srv_health s = HealthOk"

definition wg_endpoint :: "server \<Rightarrow> u16 \<Rightarrow> sockaddr" where
  "wg_endpoint s port = mk_sockaddr (V4 (wg_ipv4 s)) port"

definition wg_endpoint_for_entry :: "server \<Rightarrow> u8 \<Rightarrow> u16 \<Rightarrow> sockaddr option" where
  "wg_endpoint_for_entry s entry port =
     (case (if entry = 1 then Some (wg_ipv4 s)
            else if entry = 3 then wg_ipv4_alt s
            else None) of
        None \<Rightarrow> None
      | Some ip \<Rightarrow> Some (mk_sockaddr (V4 ip) port))"

definition wg_endpoints :: "server \<Rightarrow> u8 list \<Rightarrow> u16 \<Rightarrow> (u8 \<times> sockaddr) list" where
  "wg_endpoints s entries port =
     List.map_filter (\<lambda>e. map_option (\<lambda>a. (e, a)) (wg_endpoint_for_entry s e port)) entries"

definition load_fraction :: "server \<Rightarrow> f64" where
  "load_fraction s = fmin (f64_of_nat (unat (srv_load s))) (Fin 100) / Fin 100"

definition headroom_mbps :: "server \<Rightarrow> u64" where
  "headroom_mbps s = (if bw_max s = 0 then 0 else saturating_sub (bw_max s) (bw s))"

definition srv_id :: "server \<Rightarrow> string" where
  "srv_id s = srv_name s"

record server_list =
  sl_servers :: "server list"
  sl_result :: "string option"

definition from_json :: "(string \<Rightarrow> string + server_list) \<Rightarrow> string \<Rightarrow> core_error + server_list" where
  "from_json decode body =
     (case decode body of
        Inl e \<Rightarrow> Inl (Decode e)
      | Inr list \<Rightarrow>
          (case sl_result list of
             None \<Rightarrow> Inr list
           | Some r \<Rightarrow> if r = ''ok'' then Inr list else Inl (ApiResult r)))"

definition healthy :: "server_list \<Rightarrow> server list" where
  "healthy l = filter is_healthy (sl_servers l)"

definition healthy_count :: "server_list \<Rightarrow> nat" where
  "healthy_count l = length (healthy l)"

definition get_server :: "server_list \<Rightarrow> string \<Rightarrow> server option" where
  "get_server l name = find (\<lambda>s. eq_ignore_ascii_case (srv_name s) name) (sl_servers l)"

text \<open>The client: a URL to ask and an HTTP library to ask with.\<close>

record client =
  cl_url :: string

text \<open>Building the HTTP client can fail; the argument is its error, if any.\<close>

definition client_new :: "string option \<Rightarrow> core_error + client" where
  "client_new build = (case build of Some e \<Rightarrow> Inl (Http e) | None \<Rightarrow> Inr \<lparr>cl_url = STATUS_URL\<rparr>)"

definition with_url :: "client \<Rightarrow> string \<Rightarrow> client" where
  "with_url c url = c\<lparr>cl_url := url\<rparr>"

definition client_fetch ::
  "(string \<Rightarrow> string + string) \<Rightarrow> (string \<Rightarrow> string + server_list) \<Rightarrow> client \<Rightarrow> core_error + server_list"
where
  "client_fetch http_get decode c =
     (case http_get (cl_url c) of
        Inl e \<Rightarrow> Inl (Http e)
      | Inr body \<Rightarrow> from_json decode body)"

section \<open>Lemmas\<close>

lemma load_fraction_Fin:
  "load_fraction s = Fin (min (of_nat (unat (srv_load s))) 100 / 100)"
  by (simp add: load_fraction_def f64_of_nat_def)

lemma unat_headroom: "unat (headroom_mbps s) = unat (bw_max s) - unat (bw s)"
  by (simp add: headroom_mbps_def unat_saturating_sub)

lemma wg_endpoints_set:
  "(e, a) \<in> set (wg_endpoints s entries port) \<longleftrightarrow>
     e \<in> set entries \<and> wg_endpoint_for_entry s e port = Some a"
  by (induction entries) (auto simp: wg_endpoints_def List.map_filter_simps split: option.splits)

lemma wg_endpoint_for_entry_cases:
  "wg_endpoint_for_entry s e port = Some a \<Longrightarrow>
     (e = 1 \<and> a = wg_endpoint s port) \<or>
     (e = 3 \<and> (\<exists>ip. wg_ipv4_alt s = Some ip \<and> a = mk_sockaddr (V4 ip) port))"
  by (auto simp: wg_endpoint_for_entry_def wg_endpoint_def split: if_splits option.splits)

lemma wg_endpoints_not_Nil: "1 \<in> set entries \<Longrightarrow> wg_endpoints s entries port \<noteq> []"
  using wg_endpoints_set [of 1 "wg_endpoint s port" s entries port]
  by (auto simp: wg_endpoint_for_entry_def wg_endpoint_def)

lemma from_json_ok: "from_json decode body = Inr l \<Longrightarrow> sl_result l \<in> {None, Some ''ok''}"
  by (auto simp: from_json_def split: sum.splits option.splits if_splits)

lemma get_server_Some:
  "get_server l name = Some s \<Longrightarrow> s \<in> set (sl_servers l) \<and> eq_ignore_ascii_case (srv_name s) name"
  by (auto simp: get_server_def find_Some_iff)

lemma get_server_None:
  "get_server l name = None \<longleftrightarrow> (\<forall>s\<in>set (sl_servers l). \<not> eq_ignore_ascii_case (srv_name s) name)"
  by (auto simp: get_server_def find_None_iff)

section \<open>Properties\<close>

definition sample_server :: server where
  "sample_server =
     \<lparr>srv_name = ''Achernar'', country_name = ''Netherlands'', country_code = ''nl'',
      srv_location = ''Alblasserdam'', continent = ''Europe'', bw = 4000, bw_max = 20000,
      srv_users = 120, srv_load = 20, srv_health = HealthOk, srv_warning = None,
      wg_ipv4 = 0xB99CAFAA, wg_ipv4_alt = Some 0xB99CAFAC, wg_ipv6 = None\<rparr>"

text \<open>The endpoints offered for a server are exactly its own entry addresses. Entry 1 is
the primary address and is always there, entry 3 is the alternate address when the list
names one, and no other entry number yields an address.\<close>

lemma endpoints_are_entries:
  "(e, a) \<in> set (wg_endpoints s entries port) \<longleftrightarrow>
     e \<in> set entries \<and>
     (e = 1 \<and> a = mk_sockaddr (V4 (wg_ipv4 s)) port \<or>
      e = 3 \<and> (\<exists>ip. wg_ipv4_alt s = Some ip \<and> a = mk_sockaddr (V4 ip) port))"
  by (auto simp: wg_endpoints_set wg_endpoint_for_entry_def split: option.splits)

text \<open>A fetch hands on a server list only when the request succeeded, the body decoded
and the API itself reported success; each failure is reported as its own error.\<close>

lemma fetch_outcomes:
  "client_fetch http decode c =
     (case http (cl_url c) of
        Inl e \<Rightarrow> Inl (Http e)
      | Inr body \<Rightarrow>
          (case decode body of
             Inl e \<Rightarrow> Inl (Decode e)
           | Inr l \<Rightarrow> if sl_result l \<in> {None, Some ''ok''} then Inr l
                      else Inl (ApiResult (the (sl_result l)))))"
  by (auto simp: client_fetch_def from_json_def split: sum.splits option.splits)

end
