(* ===== verification/Ip_Text.thy ===== *)
theory Ip_Text
  imports Net
begin

text \<open>
  The text form of \<^verbatim>\<open>IpAddr\<close>, \<^verbatim>\<open>SocketAddr\<close>: \<^verbatim>\<open>Display\<close> (RFC 5952 compression of the
  first longest run of zero groups, IPv4-mapped addresses in dotted form) and
  \<^verbatim>\<open>FromStr\<close>, with the proof that parsing what was printed gives the address back.
\<close>

section \<open>Groups of an IPv6 address\<close>

fun base_digits :: "nat \<Rightarrow> nat \<Rightarrow> nat list" where
  "base_digits 0 n = []"
| "base_digits (Suc k) n = base_digits k (n div 65536) @ [n mod 65536]"

definition segments :: "128 word \<Rightarrow> nat list" where
  "segments w = base_digits 8 (unat w)"

definition of_segments :: "nat list \<Rightarrow> 128 word" where
  "of_segments gs = of_nat (foldl (\<lambda>a g. a * 65536 + g) 0 gs)"

lemma base_digits_value:
  "foldl (\<lambda>a g. a * 65536 + g) 0 (base_digits k n) = n mod 65536 ^ k"
proof (induction k arbitrary: n)
  case (Suc k)
  have "n mod 65536 ^ Suc k = 65536 * (n div 65536 mod 65536 ^ k) + n mod 65536"
    by (simp add: mod_mult2_eq)
  then show ?case using Suc.IH [of "n div 65536"] by simp
qed simp

lemma length_base_digits [simp]: "length (base_digits k n) = k"
  by (induction k arbitrary: n) auto

lemma base_digits_less: "g \<in> set (base_digits k n) \<Longrightarrow> g < 65536"
  by (induction k arbitrary: n) auto

lemma of_segments_segments [simp]: "of_segments (segments w) = w"
proof -
  have "unat w < 65536 ^ 8"
    using unsigned_less [of w, where ?'a = nat] by simp
  then show ?thesis by (simp add: of_segments_def segments_def base_digits_value)
qed

section \<open>Hexadecimal groups\<close>

definition hex_char :: "nat \<Rightarrow> char" where
  "hex_char n = (if n < 10 then char_of (48 + n) else char_of (87 + n))"

fun show_hex :: "nat \<Rightarrow> string" where
  "show_hex n = (if n < 16 then [hex_char n] else show_hex (n div 16) @ [hex_char (n mod 16)])"

declare show_hex.simps [simp del]

definition hex_val :: "char \<Rightarrow> nat option" where
  "hex_val c =
     (let n = of_char c in
      if 48 \<le> n \<and> n \<le> 57 then Some (n - 48)
      else if 97 \<le> n \<and> n \<le> 102 then Some (n - 87)
      else if 65 \<le> n \<and> n \<le> 70 then Some (n - 55) else None)"

fun read_hex :: "nat \<Rightarrow> string \<Rightarrow> nat option" where
  "read_hex acc [] = Some acc"
| "read_hex acc (c # s) =
     (case hex_val c of None \<Rightarrow> None | Some d \<Rightarrow> read_hex (16 * acc + d) s)"

definition parse_group :: "string \<Rightarrow> nat option" where
  "parse_group s = (if s = [] \<or> 4 < length s then None else read_hex 0 s)"

lemma hex_val_hex_char [simp]: "n < 16 \<Longrightarrow> hex_val (hex_char n) = Some n"
proof -
  assume "n < 16"
  then have "n \<in> set [0..<16]" by simp
  then show "hex_val (hex_char n) = Some n"
    by (auto simp: upt_rec hex_val_def hex_char_def)
qed

lemma hex_char_no_sep: "n < 16 \<Longrightarrow> hex_char n \<noteq> CHR '':'' \<and> hex_char n \<noteq> CHR ''.''"
  using hex_val_hex_char [of n] by (auto simp: hex_val_def)

lemma read_hex_append:
  "read_hex acc (s @ t) = (case read_hex acc s of None \<Rightarrow> None | Some n \<Rightarrow> read_hex n t)"
  by (induction acc s rule: read_hex.induct) (auto split: option.splits)

lemma read_hex_show_hex: "read_hex 0 (show_hex n) = Some n"
proof (induction n rule: show_hex.induct)
  case (1 n)
  then show ?case
    by (cases "n < 16") (simp_all add: show_hex.simps [of n] read_hex_append)
qed

lemma show_hex_chars: "c \<in> set (show_hex n) \<Longrightarrow> c \<noteq> CHR '':'' \<and> c \<noteq> CHR ''.''"
proof (induction n rule: show_hex.induct)
  case (1 n)
  then show ?case
    by (cases "n < 16") (auto simp: show_hex.simps [of n] hex_char_no_sep)
qed

lemma show_hex_not_Nil [simp]: "show_hex n \<noteq> []"
  by (subst show_hex.simps) simp

lemma length_show_hex: "n < 16 ^ Suc k \<Longrightarrow> length (show_hex n) \<le> Suc k"
proof (induction k arbitrary: n)
  case 0
  then show ?case by (simp add: show_hex.simps [of n])
next
  case (Suc k)
  then have "n div 16 < 16 ^ Suc k" by (simp add: div_less_iff_less_mult)
  from Suc.IH [OF this] show ?case by (simp add: show_hex.simps [of n])
qed

lemma parse_group_show_hex: "n < 65536 \<Longrightarrow> parse_group (show_hex n) = Some n"
  using length_show_hex [of n 3] by (simp add: parse_group_def read_hex_show_hex)

section \<open>Printing\<close>

text \<open>
  Length of the run of zeros a list starts with, and the first longest run as
  \<^verbatim>\<open>(start, len)\<close>; a later run replaces an earlier one only when it is longer.
\<close>

definition zero_run :: "nat list \<Rightarrow> nat" where
  "zero_run gs = length (takeWhile (\<lambda>g. g = 0) gs)"

fun longest_zero_run :: "nat list \<Rightarrow> nat \<Rightarrow> nat \<times> nat \<Rightarrow> nat \<times> nat" where
  "longest_zero_run [] i best = best"
| "longest_zero_run (g # gs) i best =
     longest_zero_run gs (Suc i)
       (if snd best < zero_run (g # gs) then (i, zero_run (g # gs)) else best)"

definition show_groups :: "nat list \<Rightarrow> string" where
  "show_groups gs = str_join '':'' (map show_hex gs)"

definition show_v6 :: "128 word \<Rightarrow> string" where
  "show_v6 w =
     (let gs = segments w in
      if take 6 gs = [0, 0, 0, 0, 0, 0xFFFF]
      then ''::ffff:'' @ show_v4 (of_nat (gs ! 6 * 65536 + gs ! 7))
      else (let (start, len) = longest_zero_run gs 0 (0, 0) in
            if 1 < len
            then show_groups (take start gs) @ ''::'' @ show_groups (drop (start + len) gs)
            else show_groups gs))"

fun show_ip :: "ipaddr \<Rightarrow> string" where
  "show_ip (V4 a) = show_v4 a"
| "show_ip (V6 a) = show_v6 a"

definition show_sockaddr :: "sockaddr \<Rightarrow> string" where
  "show_sockaddr a =
     (case sa_ip a of
        V4 v \<Rightarrow> show_v4 v @ '':'' @ show_nat (unat (sa_port a))
      | V6 v \<Rightarrow> ''['' @ show_v6 v @ '']:'' @ show_nat (unat (sa_port a)))"

section \<open>Parsing\<close>

text \<open>
  Groups separated by colons; where \<open>v4\<close> is set, the last may be a dotted IPv4 address
  standing for two groups.
\<close>

fun parse_groups :: "bool \<Rightarrow> string list \<Rightarrow> nat list option" where
  "parse_groups v4 [] = Some []"
| "parse_groups v4 [s] =
     (case parse_group s of
        Some g \<Rightarrow> Some [g]
      | None \<Rightarrow>
          if v4 then map_option (\<lambda>a. [unat a div 65536, unat a mod 65536]) (parse_v4 s) else None)"
| "parse_groups v4 (s # ss) =
     (case parse_group s of
        None \<Rightarrow> None
      | Some g \<Rightarrow> map_option ((#) g) (parse_groups v4 ss))"

definition group_pieces :: "string \<Rightarrow> string list" where
  "group_pieces s = (if s = [] then [] else split_on (CHR '':'') s)"

text \<open>The text before and after the first double colon.\<close>

fun split_double :: "string \<Rightarrow> (string \<times> string) option" where
  "split_double [] = None"
| "split_double (c # s) =
     (if c = CHR '':'' \<and> s \<noteq> [] \<and> hd s = CHR '':'' then Some ([], tl s)
      else map_option (\<lambda>(a, b). (c # a, b)) (split_double s))"

definition parse_v6 :: "string \<Rightarrow> 128 word option" where
  "parse_v6 s =
     (case split_double s of
        None \<Rightarrow>
          (case parse_groups True (group_pieces s) of
             None \<Rightarrow> None
           | Some gs \<Rightarrow> if length gs = 8 then Some (of_segments gs) else None)
      | Some (h, t) \<Rightarrow>
          (case (parse_groups False (group_pieces h), parse_groups True (group_pieces t)) of
             (Some hs, Some ts) \<Rightarrow>
               if length hs + length ts \<le> 7
               then Some (of_segments (hs @ replicate (8 - length hs - length ts) 0 @ ts))
               else None
           | _ \<Rightarrow> None))"

text \<open>\<^verbatim>\<open>IpAddr::from_str\<close> tries IPv4 first.\<close>

definition parse_ip :: "string \<Rightarrow> ipaddr option" where
  "parse_ip s =
     (case parse_v4 s of Some a \<Rightarrow> Some (V4 a) | None \<Rightarrow> map_option V6 (parse_v6 s))"

section \<open>Parsing what was printed\<close>

lemma longest_zero_run_spec:
  "longest_zero_run gs i best = (s, l) \<Longrightarrow>
     (s, l) = best \<or> i \<le> s \<and> l = zero_run (drop (s - i) gs)"
proof (induction gs arbitrary: i best)
  case (Cons g gs)
  from Cons.IH [OF Cons.prems [simplified]] show ?case
  proof (elim disjE conjE)
    assume "(s, l) = (if snd best < zero_run (g # gs) then (i, zero_run (g # gs)) else best)"
    then show ?thesis by (auto split: if_splits)
  next
    assume "Suc i \<le> s" "l = zero_run (drop (s - Suc i) gs)"
    then show ?thesis by (simp add: Suc_diff_le drop_Cons')
  qed
qed simp

lemma take_zero_run: "take (zero_run gs) gs = replicate (zero_run gs) 0"
proof (induction gs)
  case (Cons g gs)
  then show ?case by (simp add: zero_run_def)
qed (simp add: zero_run_def)

lemma zero_run_le: "zero_run gs \<le> length gs"
  by (simp add: zero_run_def length_takeWhile_le)

lemma longest_zero_run_split:
  assumes "longest_zero_run gs 0 (0, 0) = (s, l)" and "0 < l"
  shows "gs = take s gs @ replicate l 0 @ drop (s + l) gs" and "s + l \<le> length gs"
proof -
  have l: "l = zero_run (drop s gs)"
    using longest_zero_run_spec [OF assms(1)] assms(2) by auto
  then have "take l (drop s gs) = replicate l 0"
    using take_zero_run by simp
  then show "gs = take s gs @ replicate l 0 @ drop (s + l) gs"
    by (metis add.commute append_take_drop_id drop_drop)
  have "l \<le> length gs - s" using l zero_run_le [of "drop s gs"] by simp
  with assms(2) show "s + l \<le> length gs" by simp
qed

lemma split_double_skip:
  "CHR '':'' \<notin> set s \<Longrightarrow>
     split_double (s @ r) = map_option (\<lambda>(a, b). (s @ a, b)) (split_double r)"
proof (induction s)
  case Nil
  then show ?case by (cases "split_double r") auto
next
  case (Cons c s)
  then show ?case by (cases "split_double r") auto
qed

definition plain_piece :: "string \<Rightarrow> bool" where
  "plain_piece s \<longleftrightarrow> s \<noteq> [] \<and> CHR '':'' \<notin> set s"

lemma str_join_plain:
  assumes "\<forall>p\<in>set ps. plain_piece p"
  shows "split_double (str_join '':'' ps) = None \<and>
         (ps \<noteq> [] \<longrightarrow> str_join '':'' ps \<noteq> [] \<and> hd (str_join '':'' ps) \<noteq> CHR '':'' \<and>
           last (str_join '':'' ps) \<noteq> CHR '':'')"
  using assms
proof (induction "'':''" ps rule: str_join.induct)
  case (2 s)
  then have s: "s \<noteq> []" "CHR '':'' \<notin> set s" by (simp_all add: plain_piece_def)
  then have "hd s \<noteq> CHR '':''" "last s \<noteq> CHR '':''"
    by (metis hd_in_set, metis last_in_set)
  then show ?case using s split_double_skip [of s "[]"] by simp
next
  case (3 s t ps)
  then have s: "s \<noteq> []" "CHR '':'' \<notin> set s" by (simp_all add: plain_piece_def)
  then have "hd s \<noteq> CHR '':''" by (metis hd_in_set)
  then show ?case
    using 3 s split_double_skip [of s "CHR '':'' # str_join '':'' (t # ps)"] by simp
qed simp

lemma split_double_at:
  assumes "split_double u = None" and "u = [] \<or> last u \<noteq> CHR '':''"
  shows "split_double (u @ '':'' @ '':'' @ t) = Some (u, t)"
  using assms
proof (induction u)
  case (Cons c u)
  show ?case
  proof (cases u)
    case Nil
    then show ?thesis using Cons.prems by simp
  next
    case (Cons d v)
    then show ?thesis using Cons.IH Cons.prems by (auto split: if_splits)
  qed
qed simp

lemma plain_show_hex: "plain_piece (show_hex n)"
  using show_hex_chars by (fastforce simp: plain_piece_def)

lemma group_pieces_show_groups: "group_pieces (show_groups gs) = map show_hex gs"
proof (cases "gs = []")
  case False
  have "show_groups gs \<noteq> []"
    using str_join_plain [of "map show_hex gs"] False plain_show_hex
    by (simp add: show_groups_def)
  moreover have "split_on (CHR '':'') (show_groups gs) = map show_hex gs"
    unfolding show_groups_def
    by (rule split_on_str_join) (use False plain_show_hex in \<open>auto simp: plain_piece_def\<close>)
  ultimately show ?thesis by (simp add: group_pieces_def)
qed (simp add: group_pieces_def show_groups_def)

lemma parse_groups_show_hex:
  "\<forall>g\<in>set gs. g < 65536 \<Longrightarrow> parse_groups v4 (map show_hex gs) = Some gs"
proof (induction gs)
  case (Cons g gs)
  then show ?case by (cases gs) (auto simp: parse_group_show_hex)
qed simp

lemma length_segments [simp]: "length (segments w) = 8"
  by (simp add: segments_def)

lemma segments_less: "g \<in> set (segments w) \<Longrightarrow> g < 65536"
  using base_digits_less by (auto simp: segments_def)

lemma parse_v6_plain:
  assumes "longest_zero_run (segments w) 0 (0, 0) = (s, l)" and "\<not> 1 < l"
  shows "parse_v6 (show_groups (segments w)) = Some w"
proof -
  have "split_double (show_groups (segments w)) = None"
    using str_join_plain [of "map show_hex (segments w)"] plain_show_hex
    by (simp add: show_groups_def)
  then show ?thesis
    using segments_less [of _ w]
    by (simp add: parse_v6_def group_pieces_show_groups parse_groups_show_hex)
qed

lemma parse_v6_compressed:
  assumes run: "longest_zero_run (segments w) 0 (0, 0) = (s, l)" and l: "1 < l"
  shows "parse_v6 (show_groups (take s (segments w)) @ ''::'' @
           show_groups (drop (s + l) (segments w))) = Some w"
proof -
  define hs ts where "hs = take s (segments w)" and "ts = drop (s + l) (segments w)"
  have gs: "segments w = hs @ replicate l 0 @ ts" "s + l \<le> 8"
    using longest_zero_run_split [OF run] l by (simp_all add: hs_def ts_def)
  have len: "length hs + length ts \<le> 7" "8 - length hs - length ts = l"
    using gs(2) l by (simp_all add: hs_def ts_def)
  have small: "\<forall>g\<in>set hs. g < 65536" "\<forall>g\<in>set ts. g < 65536"
    using segments_less [of _ w] by (auto simp: gs(1))
  have "split_double (show_groups hs @ '':'' @ '':'' @ show_groups ts)
      = Some (show_groups hs, show_groups ts)"
    using str_join_plain [of "map show_hex hs"] plain_show_hex
    by (intro split_double_at) (cases "hs = []", auto simp: show_groups_def)
  then have "parse_v6 (show_groups hs @ ''::'' @ show_groups ts)
      = Some (of_segments (hs @ replicate l 0 @ ts))"
    using small len by (simp add: parse_v6_def group_pieces_show_groups parse_groups_show_hex)
  then show ?thesis by (simp add: gs(1) [symmetric] hs_def [symmetric] ts_def [symmetric])
qed

lemma read_hex_dot: "CHR ''.'' \<in> set s \<Longrightarrow> read_hex n s = None"
  by (induction n s rule: read_hex.induct) (auto simp: hex_val_def split: option.splits)

lemma show_v4_shape:
  "CHR ''.'' \<in> set (show_v4 a)" "CHR '':'' \<notin> set (show_v4 a)" "show_v4 a \<noteq> []"
proof -
  have "CHR '':'' \<notin> set (show_nat n)" for n
    using set_show_nat by (fastforce simp: is_digit_char_def)
  then show "CHR ''.'' \<in> set (show_v4 a)" "CHR '':'' \<notin> set (show_v4 a)" "show_v4 a \<noteq> []"
    by (simp_all add: show_v4_def octets_def)
qed

lemma parse_v6_mapped:
  assumes "take 6 (segments w) = [0, 0, 0, 0, 0, 0xFFFF]"
  shows "parse_v6 (''::ffff:'' @ show_v4 (of_nat (segments w ! 6 * 65536 + segments w ! 7))) = Some w"
proof -
  define n where "n = segments w ! 6 * 65536 + segments w ! 7"
  define a :: "32 word" where "a = of_nat n"
  have small: "segments w ! 6 < 65536" "segments w ! 7 < 65536"
    using segments_less [of _ w] by simp_all
  then have "n < 2 ^ 32" by (simp add: n_def)
  then have "unat a = n" by (simp add: a_def unsigned_of_nat take_bit_eq_mod)
  then have ab: "unat a div 65536 = segments w ! 6" "unat a mod 65536 = segments w ! 7"
    using small by (simp_all add: n_def)
  have gs: "segments w = [0, 0, 0, 0, 0, 0xFFFF, segments w ! 6, segments w ! 7]"
  proof -
    have "segments w = take 6 (segments w) @ drop 6 (segments w)" by simp
    also have "drop 6 (segments w) = [segments w ! 6, segments w ! 7]"
      by (simp add: Cons_nth_drop_Suc [symmetric])
    finally show ?thesis using assms by simp
  qed
  have "parse_group (show_v4 a) = None"
    using show_v4_shape(1) by (simp add: parse_group_def read_hex_dot)
  moreover have "parse_group ''ffff'' = Some 0xFFFF"
    by (simp add: parse_group_def hex_val_def)
  moreover have "group_pieces (''ffff:'' @ show_v4 a) = [''ffff'', show_v4 a]"
    using show_v4_shape(2) by (simp add: group_pieces_def split_on_no_sep)
  moreover have "replicate 5 (0 :: nat) = [0, 0, 0, 0, 0]"
    by (simp add: numeral_eq_Suc)
  ultimately have "parse_v6 (''::ffff:'' @ show_v4 a)
      = Some (of_segments [0, 0, 0, 0, 0, 0xFFFF, segments w ! 6, segments w ! 7])"
    by (simp add: parse_v6_def parse_v4_show_v4 ab group_pieces_def)
  then show ?thesis by (simp only: gs [symmetric] a_def n_def of_segments_segments)
qed

lemma parse_v6_show_v6: "parse_v6 (show_v6 w) = Some w"
proof (cases "take 6 (segments w) = [0, 0, 0, 0, 0, 0xFFFF]")
  case True
  then show ?thesis using parse_v6_mapped [OF True] True by (simp add: show_v6_def Let_def)
next
  case False
  obtain s l where run: "longest_zero_run (segments w) 0 (0, 0) = (s, l)" by fastforce
  show ?thesis
    using False run parse_v6_plain [OF run] parse_v6_compressed [OF run]
    by (cases "1 < l") (simp_all add: show_v6_def Let_def)
qed

lemma parse_v4_no_colon: "parse_v4 s = Some a \<Longrightarrow> CHR '':'' \<notin> set s"
proof
  assume "parse_v4 s = Some a" and colon: "CHR '':'' \<in> set s"
  then have "\<forall>p\<in>set (split_on (CHR ''.'') s). parse_octet p \<noteq> None"
    by (auto simp: parse_v4_def split: list.splits option.splits)
  moreover obtain p where "p \<in> set (split_on (CHR ''.'') s)" "CHR '':'' \<in> set p"
    using colon split_on_set [of s "CHR ''.''"] by auto
  moreover have "read_digits n q = None" if "CHR '':'' \<in> set q" for n q
    using that by (induction n q rule: read_digits.induct)
      (auto simp: digit_val_def split: option.splits)
  ultimately show False by (auto simp: parse_octet_def split: if_splits)
qed

lemma show_v6_colon: "CHR '':'' \<in> set (show_v6 w)"
proof -
  have "CHR '':'' \<in> set (show_groups (segments w))"
  proof -
    obtain a b gs where "segments w = a # b # gs"
    proof (cases "segments w")
      case (Cons a as)
      then show ?thesis using that length_segments [of w] by (cases as) auto
    qed (use length_segments [of w] in simp)
    then show ?thesis by (simp add: show_groups_def)
  qed
  then show ?thesis
    by (cases "longest_zero_run (segments w) 0 (0, 0)") (simp add: show_v6_def Let_def)
qed

lemma parse_ip_show_ip [round_trips]: "parse_ip (show_ip a) = Some a"
proof (cases a)
  case (V4 v)
  then show ?thesis by (simp add: parse_ip_def parse_v4_show_v4)
next
  case (V6 v)
  have "parse_v4 (show_v6 v) = None"
    using parse_v4_no_colon [of "show_v6 v"] show_v6_colon by (cases "parse_v4 (show_v6 v)") auto
  then show ?thesis using V6 by (simp add: parse_ip_def parse_v6_show_v6)
qed

interpretation ip_text: text_codec show_ip parse_ip
  by unfold_locales (rule parse_ip_show_ip)

section \<open>Properties\<close>

text \<open>Every address, IPv4 or IPv6 (zero runs compressed, IPv4-mapped forms included), is
read back from its printed form.\<close>

lemma address_round_trip: "parse_ip (show_ip a) = Some a"
  by (rule ip_text.parse_show)

end
