(* ===== verification/Wgconf.thy ===== *)
theory Wgconf
  imports Airvpn Ip_Text
begin

text \<open>
  \<^verbatim>\<open>vpnmgr-core/src/wgconf.rs\<close>: addresses with a prefix length, the client's
  credentials, and the parser of a WireGuard \<^verbatim>\<open>.conf\<close>.
\<close>

section \<open>Cidr\<close>

record cidr =
  c_addr :: ipaddr
  c_prefix :: u8

definition cidr_is_ipv4 :: "cidr \<Rightarrow> bool" where
  "cidr_is_ipv4 c \<longleftrightarrow> is_ipv4 (c_addr c)"

definition is_default_route :: "cidr \<Rightarrow> bool" where
  "is_default_route c \<longleftrightarrow> c_prefix c = 0"

definition max_prefix :: "ipaddr \<Rightarrow> u8" where
  "max_prefix a = (if is_ipv4 a then 32 else 128)"

definition parse_cidr :: "string \<Rightarrow> cidr_error + cidr" where
  "parse_cidr s0 =
     (let s = trim s0;
          (addr_part, prefix_part) =
            (case split_once (\<lambda>c. c = CHR ''/'') s of
               Some (a, p) \<Rightarrow> (a, Some p)
             | None \<Rightarrow> (s, None))
      in case parse_ip (trim addr_part) of
           None \<Rightarrow> Inl (NotAnIp addr_part)
         | Some addr \<Rightarrow>
             (case prefix_part of
                None \<Rightarrow> Inr \<lparr>c_addr = addr, c_prefix = max_prefix addr\<rparr>
              | Some p \<Rightarrow>
                  (case parse_unsigned 256 (trim p) of
                     None \<Rightarrow> Inl (NotAPrefix p)
                   | Some n \<Rightarrow>
                       if max_prefix addr < of_nat n
                       then Inl (PrefixTooLong (of_nat n) (max_prefix addr))
                       else Inr \<lparr>c_addr = addr, c_prefix = of_nat n\<rparr>)))"

definition show_cidr :: "cidr \<Rightarrow> string" where
  "show_cidr c = show_ip (c_addr c) @ ''/'' @ show_nat (unat (c_prefix c))"

text \<open>The prefixes the parser lets through.\<close>

definition cidr_ok :: "cidr \<Rightarrow> bool" where
  "cidr_ok c \<longleftrightarrow> c_prefix c \<le> max_prefix (c_addr c)"

section \<open>ClientConfig\<close>

record client_config =
  cc_private_key :: secret_key
  cc_addresses :: "cidr list"
  cc_dns :: "ipaddr list"
  cc_search_domains :: "string list"
  cc_mtu :: "u32 option"
  cc_peer_public_key :: public_key
  cc_preshared_key :: "secret_key option"
  cc_allowed_ips :: "cidr list"
  cc_persistent_keepalive :: "u16 option"

definition matches_known_airvpn_key :: "base64 \<Rightarrow> client_config \<Rightarrow> bool" where
  "matches_known_airvpn_key b64 c \<longleftrightarrow>
     public_to_base64 b64 (cc_peer_public_key c) = WG_PUBLIC_KEY_FALLBACK"

definition is_full_tunnel :: "client_config \<Rightarrow> bool" where
  "is_full_tunnel c \<longleftrightarrow> list_ex is_default_route (cc_allowed_ips c)"

section \<open>Sections of a \<^verbatim>\<open>.conf\<close>\<close>

text \<open>A section is its entries: lowercased key, raw value and line number.\<close>

type_synonym wg_section = "(string \<times> string \<times> nat) list"

definition section_set :: "wg_section \<Rightarrow> string \<Rightarrow> string \<Rightarrow> nat \<Rightarrow> wg_section" where
  "section_set sec key val lineno = sec @ [(to_ascii_lowercase key, val, lineno)]"

definition section_get_all :: "wg_section \<Rightarrow> string \<Rightarrow> (string \<times> nat) list" where
  "section_get_all sec key = map snd (filter (\<lambda>(k, _). k = key) sec)"

definition section_get :: "wg_section \<Rightarrow> string \<Rightarrow> (string \<times> nat) option" where
  "section_get sec key = map_option snd (find (\<lambda>(k, _). k = key) sec)"

fun parse_items :: "(wgconf_reason \<Rightarrow> core_error) \<Rightarrow> string \<Rightarrow> nat \<Rightarrow> string list
    \<Rightarrow> core_error + cidr list" where
  "parse_items bad display lineno [] = Inr []"
| "parse_items bad display lineno (i # is) =
     (let item = trim i in
      if item = [] then parse_items bad display lineno is
      else (case parse_cidr item of
              Inl e \<Rightarrow> Inl (bad (BadListEntry lineno display item e))
            | Inr c \<Rightarrow> map_sum id ((#) c) (parse_items bad display lineno is)))"

fun parse_values :: "(wgconf_reason \<Rightarrow> core_error) \<Rightarrow> string \<Rightarrow> (string \<times> nat) list
    \<Rightarrow> core_error + cidr list" where
  "parse_values bad display [] = Inr []"
| "parse_values bad display ((val, lineno) # vs) =
     (case parse_items bad display lineno (split_on (CHR '','') val) of
        Inl e \<Rightarrow> Inl e
      | Inr cs \<Rightarrow> map_sum id ((@) cs) (parse_values bad display vs))"

definition parse_list :: "wg_section \<Rightarrow> string \<Rightarrow> string \<Rightarrow> (wgconf_reason \<Rightarrow> core_error)
    \<Rightarrow> core_error + cidr list" where
  "parse_list sec key display bad = parse_values bad display (section_get_all sec key)"

definition parse_scalar :: "nat \<Rightarrow> wg_section \<Rightarrow> string \<Rightarrow> string \<Rightarrow> (wgconf_reason \<Rightarrow> core_error)
    \<Rightarrow> core_error + ('a::len) word option" where
  "parse_scalar bound sec key display bad =
     (case section_get sec key of
        None \<Rightarrow> Inr None
      | Some (val, lineno) \<Rightarrow>
          (case parse_unsigned bound val of
             None \<Rightarrow> Inl (bad (BadScalar lineno display val))
           | Some n \<Rightarrow> Inr (Some (of_nat n))))"

definition strip_comment :: "string \<Rightarrow> string" where
  "strip_comment line =
     (case split_once (\<lambda>c. c = CHR ''#'' \<or> c = CHR '';'') line of
        Some (before, _) \<Rightarrow> before
      | None \<Rightarrow> line)"

section \<open>Parsing\<close>

text \<open>Which section the next setting belongs to; a peer section is always the last one.\<close>

datatype cur_section = NoSection | InInterface | InPeer

record parse_state =
  ps_interface :: wg_section
  ps_peers :: "wg_section list"
  ps_current :: cur_section

definition parse_init :: parse_state where
  "parse_init = \<lparr>ps_interface = [], ps_peers = [], ps_current = NoSection\<rparr>"

text \<open>The name between brackets, when the line has them.\<close>

definition bracketed :: "string \<Rightarrow> string option" where
  "bracketed line =
     (case line of
        [] \<Rightarrow> None
      | c # l \<Rightarrow> if c = CHR ''['' \<and> l \<noteq> [] \<and> last l = CHR '']'' then Some (butlast l) else None)"

definition parse_line :: "(wgconf_reason \<Rightarrow> core_error) \<Rightarrow> nat \<Rightarrow> string \<Rightarrow> parse_state
    \<Rightarrow> core_error + parse_state" where
  "parse_line bad lineno raw st =
     (let line = trim (strip_comment raw) in
      if line = [] then Inr st
      else (case bracketed line of
        Some name \<Rightarrow>
          (let sec = to_ascii_lowercase (trim name) in
           if sec = ''interface'' then Inr (st\<lparr>ps_current := InInterface\<rparr>)
           else if sec = ''peer''
             then Inr (st\<lparr>ps_peers := ps_peers st @ [[]], ps_current := InPeer\<rparr>)
           else Inl (bad (UnknownSection lineno sec)))
      | None \<Rightarrow>
          (case split_once (\<lambda>c. c = CHR ''='') line of
             None \<Rightarrow> Inl (bad (ExpectedKeyValue lineno))
           | Some (key, val) \<Rightarrow>
               (case ps_current st of
                  NoSection \<Rightarrow> Inl (bad (BeforeAnySection lineno (trim key)))
                | InInterface \<Rightarrow>
                    Inr (st\<lparr>ps_interface :=
                      section_set (ps_interface st) (trim key) (trim val) lineno\<rparr>)
                | InPeer \<Rightarrow>
                    Inr (st\<lparr>ps_peers := butlast (ps_peers st) @
                      [section_set (last (ps_peers st)) (trim key) (trim val) lineno]\<rparr>)))))"

fun parse_lines :: "(wgconf_reason \<Rightarrow> core_error) \<Rightarrow> nat \<Rightarrow> string list \<Rightarrow> parse_state
    \<Rightarrow> core_error + parse_state" where
  "parse_lines bad n [] st = Inr st"
| "parse_lines bad n (l # ls) st =
     (case parse_line bad (n + 1) l st of
        Inl e \<Rightarrow> Inl e
      | Inr st' \<Rightarrow> parse_lines bad (n + 1) ls st')"

text \<open>\<^verbatim>\<open>wg-quick\<close>'s DNS key mixes addresses and search domains.\<close>

definition dns_items :: "wg_section \<Rightarrow> string list" where
  "dns_items sec =
     filter (\<lambda>i. i \<noteq> []) (concat (map (\<lambda>(val, _). map trim (split_on (CHR '','') val))
       (section_get_all sec ''dns'')))"

definition dns_ips :: "string list \<Rightarrow> ipaddr list" where
  "dns_ips items = List.map_filter parse_ip items"

definition dns_domains :: "string list \<Rightarrow> string list" where
  "dns_domains items = filter (\<lambda>i. parse_ip i = None) items"

definition default_allowed :: "cidr list" where
  "default_allowed = [\<lparr>c_addr = V4 0, c_prefix = 0\<rparr>, \<lparr>c_addr = V6 0, c_prefix = 0\<rparr>]"

definition assemble :: "base64 \<Rightarrow> (wgconf_reason \<Rightarrow> core_error) \<Rightarrow> parse_state
    \<Rightarrow> core_error + client_config" where
  "assemble b64 bad st =
     (case ps_peers st of
        [] \<Rightarrow> Inl (bad NoPeerSection)
      | _ # _ # _ \<Rightarrow> Inl (bad (ManyPeerSections (length (ps_peers st))))
      | [peer] \<Rightarrow>
     (case section_get (ps_interface st) ''privatekey'' of
        None \<Rightarrow> Inl (bad NoPrivateKey)
      | Some (raw, lineno) \<Rightarrow>
     (case secret_from_base64 b64 raw of
        Inl e \<Rightarrow> Inl (bad (BadPrivateKey lineno e))
      | Inr private_key \<Rightarrow>
     (case section_get peer ''publickey'' of
        None \<Rightarrow> Inl (bad NoPublicKey)
      | Some (raw, lineno) \<Rightarrow>
     (case public_from_base64 b64 raw of
        Inl e \<Rightarrow> Inl (bad (BadPublicKey lineno e))
      | Inr peer_public_key \<Rightarrow>
     (case (case section_get peer ''presharedkey'' of
              None \<Rightarrow> Inr None
            | Some (raw, lineno) \<Rightarrow>
                map_sum (\<lambda>e. bad (BadPresharedKey lineno e)) Some (secret_from_base64 b64 raw)) of
        Inl e \<Rightarrow> Inl e
      | Inr preshared_key \<Rightarrow>
     (case parse_list (ps_interface st) ''address'' ''Address'' bad of
        Inl e \<Rightarrow> Inl e
      | Inr addresses \<Rightarrow>
     if addresses = [] then Inl (bad NoAddress) else
     (case parse_list peer ''allowedips'' ''AllowedIPs'' bad of
        Inl e \<Rightarrow> Inl e
      | Inr parsed \<Rightarrow>
     (case parse_scalar (2 ^ 32) (ps_interface st) ''mtu'' ''MTU'' bad of
        Inl e \<Rightarrow> Inl e
      | Inr mtu \<Rightarrow>
     (case parse_scalar (2 ^ 16) peer ''persistentkeepalive'' ''PersistentKeepalive'' bad of
        Inl e \<Rightarrow> Inl e
      | Inr keepalive \<Rightarrow>
          Inr \<lparr>cc_private_key = private_key,
               cc_addresses = addresses,
               cc_dns = dns_ips (dns_items (ps_interface st)),
               cc_search_domains = dns_domains (dns_items (ps_interface st)),
               cc_mtu = mtu,
               cc_peer_public_key = peer_public_key,
               cc_preshared_key = preshared_key,
               cc_allowed_ips = (if parsed = [] then default_allowed else parsed),
               cc_persistent_keepalive = keepalive\<rparr>))))))))))"

definition wg_parse :: "base64 \<Rightarrow> string \<Rightarrow> path \<Rightarrow> core_error + client_config" where
  "wg_parse b64 txt path =
     (case parse_lines (WgConf path) 0 (str_lines txt) parse_init of
        Inl e \<Rightarrow> Inl e
      | Inr st \<Rightarrow> assemble b64 (WgConf path) st)"

definition wg_import :: "base64 \<Rightarrow> (path \<Rightarrow> string + string) \<Rightarrow> path \<Rightarrow> core_error + client_config"
where
  "wg_import b64 read_to_string path =
     (case read_to_string path of
        Inl e \<Rightarrow> Inl (ReadErr path e)
      | Inr txt \<Rightarrow> wg_parse b64 txt path)"

definition split_secrets :: "client_config \<Rightarrow> secret_key \<times> secret_key option" where
  "split_secrets c = (cc_private_key c, cc_preshared_key c)"

section \<open>A sample client\<close>

definition sample_client :: client_config where
  "sample_client =
     \<lparr>cc_private_key = SecretKey (replicate 32 1),
      cc_addresses = [\<lparr>c_addr = V4 0x0A000002, c_prefix = 32\<rparr>],
      cc_dns = [V4 0x0A800001], cc_search_domains = [''lan''], cc_mtu = Some 1320,
      cc_peer_public_key = PublicKey (replicate 32 2), cc_preshared_key = Some (SecretKey (replicate 32 3)),
      cc_allowed_ips = [\<lparr>c_addr = V4 0, c_prefix = 0\<rparr>], cc_persistent_keepalive = Some 15\<rparr>"

end
