(* ===== verification/Config.thy ===== *)
theory Config
  imports Wgconf
begin

text \<open>
  \<^verbatim>\<open>vpnmgr-core/src/config.rs\<close>: the daemon's settings, their defaults, the checks made
  on loading and the figures derived from them. The TOML library and the file system are
  parameters.
\<close>

section \<open>Data\<close>

record bypass_cfg =
  by_cidrs :: "string list"
  by_hosts :: "string list"
  by_other_vpns :: bool
  by_lan :: bool

record throughput_cfg =
  tp_url :: string
  tp_bytes :: u64
  tp_timeout_secs :: u64
  tp_select_bytes :: u64

record killswitch_cfg =
  ks_enabled :: bool
  ks_allow_lan :: bool

record airvpn_provider =
  ap_private_key_file :: path
  ap_preshared_key_file :: "path option"
  ap_address :: "cidr list"
  ap_dns :: "ipaddr list"
  ap_search_domains :: "string list"
  ap_peer_public_key :: public_key
  ap_port :: u16
  ap_mtu :: "u32 option"
  ap_persistent_keepalive :: "u16 option"
  ap_allowed_ips :: "cidr list"

record filters =
  country_whitelist :: "string list"
  country_blacklist :: "string list"
  server_whitelist :: "string list"
  server_blacklist :: "string list"
  max_load :: u32

datatype switch_policy = Ask | Auto | Never

record weights =
  w_rtt :: f64
  w_load :: f64
  w_headroom :: f64

record autotune =
  interval_minutes :: u64
  max_latency_ms :: u32
  min_mbps :: f64
  accept_fraction :: f64
  measure_before_connect :: bool
  at_target_mbps :: "f64 option"
  headroom_margin :: f64
  verify_candidates :: nat
  at_switch_policy :: switch_policy
  improvement_threshold :: f64
  at_weights :: weights

record probe_cfg =
  pr_concurrency :: nat
  pr_timeout_ms :: u64
  pr_samples :: nat

record config =
  cf_airvpn :: airvpn_provider
  cf_filters :: filters
  cf_autotune :: autotune
  cf_probe :: probe_cfg
  cf_killswitch :: killswitch_cfg
  cf_throughput :: throughput_cfg
  cf_bypass :: bypass_cfg

section \<open>Defaults\<close>

definition DEFAULT_TARGET_MBPS :: f64 where "DEFAULT_TARGET_MBPS = Fin 500"

definition MEASURED_TARGET_FRACTION :: f64 where "MEASURED_TARGET_FRACTION = Fin (9 / 10)"

definition filters_default :: filters where
  "filters_default =
     \<lparr>country_whitelist = [], country_blacklist = [], server_whitelist = [],
      server_blacklist = [], max_load = 85\<rparr>"

definition weights_default :: weights where
  "weights_default = \<lparr>w_rtt = Fin (6 / 10), w_load = Fin (1 / 10), w_headroom = Fin (3 / 10)\<rparr>"

definition autotune_default :: autotune where
  "autotune_default =
     \<lparr>interval_minutes = 30, max_latency_ms = 80, min_mbps = Fin 50,
      accept_fraction = Fin (6 / 10), measure_before_connect = True, at_target_mbps = None,
      headroom_margin = Fin 2, verify_candidates = 5, at_switch_policy = Ask,
      improvement_threshold = Fin (1 / 4), at_weights = weights_default\<rparr>"

definition bypass_default :: bypass_cfg where
  "bypass_default = \<lparr>by_cidrs = [], by_hosts = [], by_other_vpns = True, by_lan = True\<rparr>"

definition killswitch_default :: killswitch_cfg where
  "killswitch_default = \<lparr>ks_enabled = False, ks_allow_lan = True\<rparr>"

definition throughput_default :: throughput_cfg where
  "throughput_default =
     \<lparr>tp_url = ''https://speed.cloudflare.com/__down?bytes='', tp_bytes = 25000000,
      tp_timeout_secs = 30, tp_select_bytes = 8000000\<rparr>"

definition probe_default :: probe_cfg where
  "probe_default = \<lparr>pr_concurrency = 32, pr_timeout_ms = 1500, pr_samples = 3\<rparr>"

section \<open>Derived figures\<close>

definition request_url_for :: "throughput_cfg \<Rightarrow> u64 \<Rightarrow> string" where
  "request_url_for t bytes =
     (if tp_url t \<noteq> [] \<and> last (tp_url t) = CHR ''=''
      then tp_url t @ show_nat (unat bytes) else tp_url t)"

definition request_url :: "throughput_cfg \<Rightarrow> string" where
  "request_url t = request_url_for t (tp_bytes t)"

text \<open>The product is taken in \<^verbatim>\<open>u64\<close>, which wraps in a release build.\<close>

definition interval :: "autotune \<Rightarrow> duration" where
  "interval a = from_secs (unat (interval_minutes a * 60))"

definition target_mbps :: "autotune \<Rightarrow> f64 option \<Rightarrow> f64" where
  "target_mbps a measured =
     (case at_target_mbps a of
        Some t \<Rightarrow> t
      | None \<Rightarrow>
          (case measured of
             Some m \<Rightarrow> if 0 < m then m * MEASURED_TARGET_FRACTION else DEFAULT_TARGET_MBPS
           | None \<Rightarrow> DEFAULT_TARGET_MBPS))"

definition headroom_target_mbps :: "autotune \<Rightarrow> f64 option \<Rightarrow> f64" where
  "headroom_target_mbps a measured = fmax (target_mbps a measured * headroom_margin a) (Fin 1)"

definition acceptance_mbps :: "autotune \<Rightarrow> f64 option \<Rightarrow> f64" where
  "acceptance_mbps a measured =
     fmax (target_mbps a measured * accept_fraction a) (min_mbps a)"

definition probe_timeout :: "probe_cfg \<Rightarrow> duration" where
  "probe_timeout p = from_millis (unat (pr_timeout_ms p))"

section \<open>Loading and validation\<close>

definition lower :: "string \<Rightarrow> string" where
  "lower s = to_ascii_lowercase (trim s)"

definition validate :: "config \<Rightarrow> core_error + unit" where
  "validate c =
     (let f = cf_filters c; a = cf_autotune c; p = cf_probe c; w = at_weights a;
          both = lower ` set (country_whitelist f) \<inter> lower ` set (country_blacklist f);
          sboth = lower ` set (server_whitelist f) \<inter> lower ` set (server_blacklist f)
      in
      if 200 < max_load f then Inl (ConfigErr (MaxLoadMeaningless (max_load f)))
      else if both \<noteq> {} then Inl (ConfigErr (CountriesInBoth both))
      else if sboth \<noteq> {} then Inl (ConfigErr (ServersInBoth sboth))
      else if pr_concurrency p = 0 then Inl (ConfigErr ConcurrencyZero)
      else if pr_samples p = 0 then Inl (ConfigErr SamplesZero)
      else if pr_timeout_ms p = 0 then Inl (ConfigErr TimeoutZero)
      else if interval_minutes a = 0 then Inl (ConfigErr IntervalZero)
      else if (case at_target_mbps a of Some t \<Rightarrow> t \<le> 0 | None \<Rightarrow> False)
        then Inl (ConfigErr TargetNotPositive)
      else if \<not> in_range 0 1 (accept_fraction a) then Inl (ConfigErr AcceptFractionRange)
      else if headroom_margin a \<le> 0 then Inl (ConfigErr HeadroomMarginNotPositive)
      else if \<not> in_range 0 1 (improvement_threshold a)
        then Inl (ConfigErr ImprovementThresholdRange)
      else if w_rtt w < 0 \<or> w_load w < 0 \<or> w_headroom w < 0
        then Inl (ConfigErr WeightsNegative)
      else if w_rtt w + w_load w + w_headroom w \<le> 0 then Inl (ConfigErr WeightsAllZero)
      else if ap_address (cf_airvpn c) = [] then Inl (ConfigErr NoTunnelAddress)
      else Inr ())"

definition config_parse :: "(string \<Rightarrow> string + config) \<Rightarrow> string \<Rightarrow> path \<Rightarrow> core_error + config"
where
  "config_parse toml txt path =
     (case toml txt of
        Inl e \<Rightarrow> Inl (ConfigParse path e)
      | Inr c \<Rightarrow> (case validate c of Inl e \<Rightarrow> Inl e | Inr _ \<Rightarrow> Inr c))"

definition config_load :: "(path \<Rightarrow> string + string) \<Rightarrow> (string \<Rightarrow> string + config) \<Rightarrow> path
    \<Rightarrow> core_error + config" where
  "config_load read_to_string toml path =
     (case read_to_string path of
        Inl e \<Rightarrow> Inl (ReadErr path e)
      | Inr txt \<Rightarrow> config_parse toml txt path)"

definition read_key :: "base64 \<Rightarrow> (path \<Rightarrow> string + string) \<Rightarrow> path \<Rightarrow> core_error + secret_key" where
  "read_key b64 read_to_string path =
     (case read_to_string path of
        Inl e \<Rightarrow> Inl (ReadErr path e)
      | Inr txt \<Rightarrow>
          map_sum (\<lambda>e. ConfigErr (BadKeyFile path e)) id (secret_from_base64 b64 (trim txt)))"

definition load_client_config :: "base64 \<Rightarrow> (path \<Rightarrow> string + string) \<Rightarrow> config
    \<Rightarrow> core_error + client_config" where
  "load_client_config b64 read_to_string c =
     (let p = cf_airvpn c in
      case read_key b64 read_to_string (ap_private_key_file p) of
        Inl e \<Rightarrow> Inl e
      | Inr private_key \<Rightarrow>
     (case (case ap_preshared_key_file p of
              Some path \<Rightarrow> map_sum id Some (read_key b64 read_to_string path)
            | None \<Rightarrow> Inr None) of
        Inl e \<Rightarrow> Inl e
      | Inr preshared_key \<Rightarrow>
          Inr \<lparr>cc_private_key = private_key,
               cc_addresses = ap_address p,
               cc_dns = ap_dns p,
               cc_search_domains = ap_search_domains p,
               cc_mtu = ap_mtu p,
               cc_peer_public_key = ap_peer_public_key p,
               cc_preshared_key = preshared_key,
               cc_allowed_ips = ap_allowed_ips p,
               cc_persistent_keepalive = ap_persistent_keepalive p\<rparr>))"

definition from_imported :: "client_config \<Rightarrow> path \<Rightarrow> path \<Rightarrow> config" where
  "from_imported client private_key_file preshared_key_file =
     \<lparr>cf_airvpn =
        \<lparr>ap_private_key_file = private_key_file,
         ap_preshared_key_file =
           map_option (\<lambda>_. preshared_key_file) (cc_preshared_key client),
         ap_address = cc_addresses client,
         ap_dns = cc_dns client,
         ap_search_domains = cc_search_domains client,
         ap_peer_public_key = cc_peer_public_key client,
         ap_port = WG_PORT,
         ap_mtu = cc_mtu client,
         ap_persistent_keepalive = cc_persistent_keepalive client,
         ap_allowed_ips = cc_allowed_ips client\<rparr>,
      cf_filters = filters_default,
      cf_autotune = autotune_default,
      cf_probe = probe_default,
      cf_killswitch = killswitch_default,
      cf_throughput = throughput_default,
      cf_bypass = bypass_default\<rparr>"

section \<open>What validation gives\<close>

text \<open>
  What the other components rely on. The bounds on floating point settings are what the
  comparisons of \<^verbatim>\<open>validate\<close> leave open: a NaN passes every one of them that is not a
  range check.
\<close>

definition disjoint_folded :: "string list \<Rightarrow> string list \<Rightarrow> bool" where
  "disjoint_folded xs ys \<longleftrightarrow> lower ` set xs \<inter> lower ` set ys = {}"

definition config_ok :: "config \<Rightarrow> bool" where
  "config_ok c \<longleftrightarrow>
     max_load (cf_filters c) \<le> 200 \<and>
     disjoint_folded (country_whitelist (cf_filters c)) (country_blacklist (cf_filters c)) \<and>
     disjoint_folded (server_whitelist (cf_filters c)) (server_blacklist (cf_filters c)) \<and>
     pr_concurrency (cf_probe c) \<noteq> 0 \<and> pr_samples (cf_probe c) \<noteq> 0 \<and>
     pr_timeout_ms (cf_probe c) \<noteq> 0 \<and> interval_minutes (cf_autotune c) \<noteq> 0 \<and>
     (\<forall>t. at_target_mbps (cf_autotune c) = Some t \<longrightarrow> \<not> t \<le> 0) \<and>
     in_range 0 1 (accept_fraction (cf_autotune c)) \<and>
     \<not> headroom_margin (cf_autotune c) \<le> 0 \<and>
     in_range 0 1 (improvement_threshold (cf_autotune c)) \<and>
     (let w = at_weights (cf_autotune c) in
        \<not> w_rtt w < 0 \<and> \<not> w_load w < 0 \<and> \<not> w_headroom w < 0 \<and>
        \<not> w_rtt w + w_load w + w_headroom w \<le> 0) \<and>
     ap_address (cf_airvpn c) \<noteq> []"

lemma validate_iff: "validate c = Inr () \<longleftrightarrow> config_ok c"
  unfolding validate_def config_ok_def Let_def disjoint_folded_def
  by (auto split: option.splits)

lemma config_load_ok: "config_load rd toml p = Inr c \<Longrightarrow> config_ok c"
  by (auto simp: config_load_def config_parse_def validate_iff [symmetric] split: sum.splits)

text \<open>The weights a validated configuration of ordinary numbers has.\<close>

definition weights_ok :: "weights \<Rightarrow> bool" where
  "weights_ok w \<longleftrightarrow>
     (\<exists>r l h. w_rtt w = Fin r \<and> w_load w = Fin l \<and> w_headroom w = Fin h \<and>
        0 \<le> r \<and> 0 \<le> l \<and> 0 \<le> h \<and> 0 < r + l + h)"

lemma config_ok_weights:
  assumes "config_ok c" and "is_fin (w_rtt (at_weights (cf_autotune c)))"
    and "is_fin (w_load (at_weights (cf_autotune c)))"
    and "is_fin (w_headroom (at_weights (cf_autotune c)))"
  shows "weights_ok (at_weights (cf_autotune c))"
  using assms
  by (auto simp: config_ok_def weights_ok_def is_fin_def zero_f64_def)

lemma from_imported_ok: "cc_addresses cl \<noteq> [] \<Longrightarrow> config_ok (from_imported cl k p)"
  by (simp add: config_ok_def from_imported_def filters_default_def probe_default_def
      autotune_default_def weights_default_def disjoint_folded_def in_range_def
      zero_f64_def one_f64_def)

text \<open>The figures the daemon scores and accepts by.\<close>

lemma headroom_target_pos: "Fin 1 \<le> headroom_target_mbps a m"
proof -
  have "Fin 1 \<le> fmax y (Fin 1)" for y
    by (cases y) (auto simp: fmax_def)
  then show ?thesis by (simp add: headroom_target_mbps_def)
qed

lemma acceptance_floor:
  assumes "is_fin (min_mbps a)"
  shows "min_mbps a \<le> acceptance_mbps a m"
proof -
  obtain r where "min_mbps a = Fin r" using assms by (auto simp: is_fin_def)
  moreover have "Fin r \<le> fmax y (Fin r)" for y
    by (cases y) (auto simp: fmax_def)
  ultimately show ?thesis by (simp add: acceptance_mbps_def)
qed

section \<open>Properties\<close>

text \<open>Loading yields exactly the settings the file holds, when it can be
read, its text is a configuration and every check holds (load limit, no name on both lists,
probe and interval settings not zero, fractions in range, weights usable, a tunnel address);
anything else is an error.\<close>

lemma loaded_config_is_valid:
  "config_load rd toml path = Inr c \<longleftrightarrow> (\<exists>txt. rd path = Inr txt \<and> toml txt = Inr c \<and> config_ok c)"
  by (auto simp: config_load_def config_parse_def validate_iff [symmetric] split: sum.splits)

definition sample_files :: "path \<Rightarrow> string + string" where
  "sample_files p =
     (if p = ''private'' then Inr (hex_encode (replicate 32 1))
      else if p = ''preshared'' then Inr (hex_encode (replicate 32 3)) else Inl ''missing'')"

text \<open>The key files an import writes: the base64 of each key.\<close>

definition holds_key :: "base64 \<Rightarrow> (path \<Rightarrow> string + string) \<Rightarrow> path \<Rightarrow> u8 list \<Rightarrow> bool" where
  "holds_key b64 rd path key \<longleftrightarrow> rd path = Inr (b64_encode b64 key) \<and> length key = KEY_LEN"

lemma encode_trim: "base64_ok b64 \<Longrightarrow> trim (b64_encode b64 bs) = b64_encode b64 bs"
  by (rule trim_id) (metis base64_ok_def b64_char_def hd_in_set last_in_set)

lemma read_key_holds:
  "base64_ok b64 \<Longrightarrow> holds_key b64 rd path key \<Longrightarrow> read_key b64 rd path = Inr (SecretKey key)"
  by (simp add: read_key_def holds_key_def encode_trim secret_from_base64_def key_decode_encode)

text \<open>The configuration written for an imported WireGuard file passes every
check, and loading it back with its key files in place gives the very credentials that were
imported.\<close>

lemma import_then_load:
  assumes "base64_ok b64" and "cc_addresses c \<noteq> []"
    and "holds_key b64 rd key_file (secret_expose (cc_private_key c))"
    and "\<And>k. cc_preshared_key c = Some k \<Longrightarrow> holds_key b64 rd psk_file (secret_expose k)"
  shows "validate (from_imported c key_file psk_file) = Inr () \<and>
    load_client_config b64 rd (from_imported c key_file psk_file) = Inr c"
proof -
  have "read_key b64 rd key_file = Inr (cc_private_key c)"
    using read_key_holds [OF assms(1,3)] by (cases "cc_private_key c") simp
  moreover have "read_key b64 rd psk_file = Inr k" if "cc_preshared_key c = Some k" for k
    using read_key_holds [OF assms(1) assms(4) [OF that]] by (cases k) simp
  ultimately show ?thesis
    using from_imported_ok [OF assms(2)]
    by (cases "cc_preshared_key c")
      (simp_all add: validate_iff load_client_config_def from_imported_def Let_def)
qed

text \<open>With a minimum that is a number, the figure a candidate has to reach is
never below that minimum, and the headroom scores are taken against is never below one
megabit, whatever was measured.\<close>

lemma acceptance_bounds:
  assumes "is_fin (min_mbps a)"
  shows "min_mbps a \<le> acceptance_mbps a m \<and> Fin 1 \<le> headroom_target_mbps a m"
  using acceptance_floor [OF assms] headroom_target_pos by simp

text \<open>The minutes are multiplied in 64 bits: some valid settings give an interval of zero.\<close>

lemma interval_can_wrap:
  "config_ok c \<Longrightarrow>
     config_ok (c\<lparr>cf_autotune := (cf_autotune c)\<lparr>interval_minutes := 2 ^ 62\<rparr>\<rparr>) \<and>
     interval ((cf_autotune c)\<lparr>interval_minutes := 2 ^ 62\<rparr>) = 0"
  by (simp add: config_ok_def interval_def from_secs_def Let_def)

text \<open>A NaN weight passes the checks.\<close>

lemma nan_weights_pass:
  "config_ok c \<Longrightarrow>
     config_ok (c\<lparr>cf_autotune := (cf_autotune c)\<lparr>at_weights := \<lparr>w_rtt = NaN, w_load = NaN, w_headroom = NaN\<rparr>\<rparr>\<rparr>)"
  by (simp add: config_ok_def Let_def zero_f64_def)

end
