(* ===== verification/Server_Filter.thy ===== *)
theory Server_Filter
  imports Config
begin

text \<open>
  \<^verbatim>\<open>vpnmgr-core/src/filter.rs\<close>: which servers are eligible before anything is probed.
  \<^verbatim>\<open>Ruleset\<close> is the filter settings compiled to case-folded sets, \<^verbatim>\<open>apply\<close> splits the
  server list by it, and \<^verbatim>\<open>eligible\<close> below is the same rule stated on the settings as the
  user wrote them.
\<close>

section \<open>Definitions\<close>

datatype rejection =
    Unhealthy "string option"
  | CountryNotWhitelisted
  | CountryBlacklisted
  | ServerNotWhitelisted
  | ServerBlacklisted
  | LoadTooHigh u32 u32

fun show_rejection :: "rejection \<Rightarrow> string" where
  "show_rejection (Unhealthy (Some w)) = ''unhealthy ('' @ w @ '')''"
| "show_rejection (Unhealthy None) = ''unhealthy''"
| "show_rejection CountryNotWhitelisted = ''country not in whitelist''"
| "show_rejection CountryBlacklisted = ''country blacklisted''"
| "show_rejection ServerNotWhitelisted = ''server not in whitelist''"
| "show_rejection ServerBlacklisted = ''server blacklisted''"
| "show_rejection (LoadTooHigh load mx) =
     ''load '' @ show_nat (unat load) @ ''% exceeds max_load '' @ show_nat (unat mx) @ ''%''"

record selection =
  sel_accepted :: "server list"
  sel_rejected :: "(server \<times> rejection) list"

definition sel_is_empty :: "selection \<Rightarrow> bool" where
  "sel_is_empty s \<longleftrightarrow> sel_accepted s = []"

text \<open>The label a rejection is counted under, the parameterised ones collapsed.\<close>

fun rejection_label :: "rejection \<Rightarrow> string" where
  "rejection_label (Unhealthy _) = ''unhealthy''"
| "rejection_label (LoadTooHigh _ mx) = ''load above max_load '' @ show_nat (unat mx) @ ''%''"
| "rejection_label r = show_rejection r"

text \<open>
  \<^verbatim>\<open>rejection_summary\<close> counts labels in a hash map and sorts its entries. The entries have
  distinct labels, so the order the map yields them in does not show after the sort; here
  they come in order of first occurrence.
\<close>

fun count_label :: "string \<Rightarrow> (string \<times> nat) list \<Rightarrow> (string \<times> nat) list" where
  "count_label l [] = [(l, 1)]"
| "count_label l ((k, n) # cs) = (if k = l then (k, n + 1) # cs else (k, n) # count_label l cs)"

definition cmp_summary :: "string \<times> nat \<Rightarrow> string \<times> nat \<Rightarrow> ordering" where
  "cmp_summary a b = then_with (cmp_nat (snd b) (snd a)) (cmp_str (fst a) (fst b))"

definition rejection_summary :: "selection \<Rightarrow> (string \<times> nat) list" where
  "rejection_summary s =
     sort_by cmp_summary
       (fold (\<lambda>(_, r) cs. count_label (rejection_label r) cs) (sel_rejected s) [])"

text \<open>\<^verbatim>\<open>normalised\<close>: trimmed, lowercased, empty entries dropped.\<close>

definition normalised :: "string list \<Rightarrow> string set" where
  "normalised vals = set (filter (\<lambda>v. v \<noteq> []) (map lower vals))"

record ruleset =
  country_white :: "string set"
  country_black :: "string set"
  server_white :: "string set"
  server_black :: "string set"
  rs_max_load :: u32

definition ruleset_new :: "filters \<Rightarrow> ruleset" where
  "ruleset_new f =
     \<lparr>country_white = normalised (country_whitelist f),
      country_black = normalised (country_blacklist f),
      server_white = normalised (server_whitelist f),
      server_black = normalised (server_blacklist f),
      rs_max_load = max_load f\<rparr>"

definition judge :: "ruleset \<Rightarrow> string \<Rightarrow> string \<Rightarrow> u32 \<Rightarrow> rejection option" where
  "judge rs name0 code load =
     (let name = to_ascii_lowercase (trim name0); country = to_ascii_lowercase (trim code) in
      if name \<in> server_black rs then Some ServerBlacklisted
      else if country \<in> country_black rs then Some CountryBlacklisted
      else if server_white rs \<noteq> {} \<and> name \<notin> server_white rs then Some ServerNotWhitelisted
      else if country_white rs \<noteq> {} \<and> country \<notin> country_white rs
        then Some CountryNotWhitelisted
      else if rs_max_load rs < load then Some (LoadTooHigh load (rs_max_load rs))
      else None)"

definition accepts :: "ruleset \<Rightarrow> string \<Rightarrow> string \<Rightarrow> u32 \<Rightarrow> bool" where
  "accepts rs name code load \<longleftrightarrow> judge rs name code load = None"

definition server_reason :: "ruleset \<Rightarrow> server \<Rightarrow> rejection option" where
  "server_reason rs s =
     (if \<not> is_healthy s then Some (Unhealthy (srv_warning s))
      else judge rs (srv_name s) (country_code s) (srv_load s))"

text \<open>The loop of \<^verbatim>\<open>apply\<close>, with its two accumulators.\<close>

definition apply_step :: "ruleset \<Rightarrow> server \<Rightarrow> selection \<Rightarrow> selection" where
  "apply_step rs s sel =
     (case server_reason rs s of
        Some r \<Rightarrow> sel\<lparr>sel_rejected := sel_rejected sel @ [(s, r)]\<rparr>
      | None \<Rightarrow> sel\<lparr>sel_accepted := sel_accepted sel @ [s]\<rparr>)"

definition filter_apply :: "server_list \<Rightarrow> filters \<Rightarrow> selection" where
  "filter_apply l f =
     fold (apply_step (ruleset_new f)) (sl_servers l) \<lparr>sel_accepted = [], sel_rejected = []\<rparr>"

section \<open>The rule on the settings\<close>

text \<open>A list names a value when an entry is the value up to case and surrounding space.\<close>

definition names :: "string list \<Rightarrow> string \<Rightarrow> bool" where
  "names xs v \<longleftrightarrow> lower v \<noteq> [] \<and> (\<exists>x\<in>set xs. lower x = lower v)"

definition restricts :: "string list \<Rightarrow> bool" where
  "restricts xs \<longleftrightarrow> (\<exists>x\<in>set xs. lower x \<noteq> [])"

definition eligible :: "filters \<Rightarrow> string \<Rightarrow> string \<Rightarrow> u32 \<Rightarrow> bool" where
  "eligible f name code load \<longleftrightarrow>
     \<not> names (server_blacklist f) name \<and> \<not> names (country_blacklist f) code \<and>
     (restricts (server_whitelist f) \<longrightarrow> names (server_whitelist f) name) \<and>
     (restricts (country_whitelist f) \<longrightarrow> names (country_whitelist f) code) \<and>
     load \<le> max_load f"

section \<open>Lemmas\<close>

lemma mem_normalised: "lower v \<in> normalised xs \<longleftrightarrow> names xs v"
  by (auto simp: normalised_def names_def intro: rev_image_eqI)

lemma normalised_empty: "normalised xs = {} \<longleftrightarrow> \<not> restricts xs"
  by (auto simp: normalised_def restricts_def filter_empty_conv)

lemma ruleset_new_sel [simp]:
  "country_white (ruleset_new f) = normalised (country_whitelist f)"
  "country_black (ruleset_new f) = normalised (country_blacklist f)"
  "server_white (ruleset_new f) = normalised (server_whitelist f)"
  "server_black (ruleset_new f) = normalised (server_blacklist f)"
  "rs_max_load (ruleset_new f) = max_load f"
  by (simp_all add: ruleset_new_def)

lemma judge_new:
  "judge (ruleset_new f) name code load =
     (if names (server_blacklist f) name then Some ServerBlacklisted
      else if names (country_blacklist f) code then Some CountryBlacklisted
      else if restricts (server_whitelist f) \<and> \<not> names (server_whitelist f) name
        then Some ServerNotWhitelisted
      else if restricts (country_whitelist f) \<and> \<not> names (country_whitelist f) code
        then Some CountryNotWhitelisted
      else if max_load f < load then Some (LoadTooHigh load (max_load f)) else None)"
  unfolding judge_def Let_def ruleset_new_sel
  by (simp add: lower_def [symmetric] mem_normalised normalised_empty)

lemma accepts_iff_eligible: "accepts (ruleset_new f) name code load \<longleftrightarrow> eligible f name code load"
  by (auto simp: accepts_def judge_new eligible_def)


text \<open>What \<^verbatim>\<open>apply\<close> computes: the two halves of the list, each in the list's order.\<close>

definition server_ok :: "filters \<Rightarrow> server \<Rightarrow> bool" where
  "server_ok f s \<longleftrightarrow> is_healthy s \<and> eligible f (srv_name s) (country_code s) (srv_load s)"

lemma server_reason_None: "server_reason (ruleset_new f) s = None \<longleftrightarrow> server_ok f s"
  by (auto simp: server_reason_def server_ok_def accepts_iff_eligible [symmetric] accepts_def)

lemma fold_apply_step:
  "fold (apply_step rs) ss sel =
     \<lparr>sel_accepted = sel_accepted sel @ filter (\<lambda>s. server_reason rs s = None) ss,
      sel_rejected = sel_rejected sel @
        map (\<lambda>s. (s, the (server_reason rs s))) (filter (\<lambda>s. server_reason rs s \<noteq> None) ss)\<rparr>"
  by (induction ss arbitrary: sel) (auto simp: apply_step_def split: option.splits)

lemma filter_apply_accepted: "sel_accepted (filter_apply l f) = filter (server_ok f) (sl_servers l)"
  by (simp add: filter_apply_def fold_apply_step server_reason_None)

lemma filter_apply_rejected:
  "sel_rejected (filter_apply l f) =
     map (\<lambda>s. (s, the (server_reason (ruleset_new f) s)))
       (filter (\<lambda>s. \<not> server_ok f s) (sl_servers l))"
  by (simp add: filter_apply_def fold_apply_step server_reason_None)

lemma mem_accepted:
  "s \<in> set (sel_accepted (filter_apply l f)) \<longleftrightarrow> s \<in> set (sl_servers l) \<and> server_ok f s"
  by (simp add: filter_apply_accepted)

lemma length_filter_apply:
  "length (sel_accepted (filter_apply l f)) + length (sel_rejected (filter_apply l f))
     = length (sl_servers l)"
  by (simp add: filter_apply_accepted filter_apply_rejected sum_length_filter_compl)

text \<open>The summary counts every rejection once and orders the counts.\<close>

interpretation summary_order: sort_order cmp_summary
  by unfold_locales (unfold cmp_summary_def [abs_def], intro total_cmps)

lemma sum_count_label: "sum_list (map snd (count_label l cs)) = Suc (sum_list (map snd cs))"
  by (induction l cs rule: count_label.induct) auto

lemma sum_fold_count_label:
  "sum_list (map snd (fold (\<lambda>(_, r) cs. count_label (g r) cs) rs cs))
     = sum_list (map snd cs) + length rs"
  by (induction rs arbitrary: cs) (auto simp: sum_count_label)

lemma rejection_summary_sum:
  "sum_list (map snd (rejection_summary s)) = length (sel_rejected s)"
proof -
  define cs where "cs = fold (\<lambda>(_, r) cs. count_label (rejection_label r) cs) (sel_rejected s) []"
  have "sum_list (map snd (sort_by cmp_summary cs)) = sum_list (map snd cs)"
    by (metis mset_map mset_sort_by sum_mset_sum_list)
  then show ?thesis
    by (simp add: rejection_summary_def cs_def sum_fold_count_label)
qed

lemma rejection_summary_sorted: "sorted_by cmp_summary (rejection_summary s)"
  unfolding rejection_summary_def by (rule summary_order.sorted)

section \<open>Properties\<close>

text \<open>The reason for leaving a server out, stated on the settings as written.\<close>

definition why_rejected :: "filters \<Rightarrow> server \<Rightarrow> rejection" where
  "why_rejected f s =
     (if \<not> is_healthy s then Unhealthy (srv_warning s)
      else if names (server_blacklist f) (srv_name s) then ServerBlacklisted
      else if names (country_blacklist f) (country_code s) then CountryBlacklisted
      else if restricts (server_whitelist f) \<and> \<not> names (server_whitelist f) (srv_name s)
        then ServerNotWhitelisted
      else if restricts (country_whitelist f) \<and> \<not> names (country_whitelist f) (country_code s)
        then CountryNotWhitelisted
      else LoadTooHigh (srv_load s) (max_load f))"

lemma reason_why: "\<not> server_ok f s \<Longrightarrow> the (server_reason (ruleset_new f) s) = why_rejected f s"
  by (auto simp: server_reason_def server_ok_def eligible_def why_rejected_def judge_new)

text \<open>C20: filtering splits the server list in two, keeping the list's order in both halves.
Accepted are exactly the healthy servers the settings admit (names and country codes compared
without regard to case or surrounding space), and every other server is reported with the
first rule it breaks.\<close>

theorem filter_apply_splits:
  "filter_apply l f =
     \<lparr>sel_accepted = filter (server_ok f) (sl_servers l),
      sel_rejected =
        map (\<lambda>s. (s, why_rejected f s)) (filter (\<lambda>s. \<not> server_ok f s) (sl_servers l))\<rparr>"
proof -
  have "map (\<lambda>s. (s, the (server_reason (ruleset_new f) s))) (filter (\<lambda>s. \<not> server_ok f s) ss) =
      map (\<lambda>s. (s, why_rejected f s)) (filter (\<lambda>s. \<not> server_ok f s) ss)" for ss
    by (auto simp: reason_why)
  then show ?thesis
    by (intro selection.equality) (simp_all add: filter_apply_accepted filter_apply_rejected)
qed

lemma count_label_lookup:
  "map_of (count_label l cs) k =
     (if k = l then Some (case map_of cs l of None \<Rightarrow> 1 | Some n \<Rightarrow> n + 1) else map_of cs k)"
  by (induction l cs rule: count_label.induct) (auto split: option.splits)

lemma count_label_keys: "set (map fst (count_label l cs)) = insert l (set (map fst cs))"
  by (induction l cs rule: count_label.induct) auto

lemma count_label_distinct: "distinct (map fst cs) \<Longrightarrow> distinct (map fst (count_label l cs))"
proof (induction l cs rule: count_label.induct)
  case (2 l k n cs)
  then show ?case using count_label_keys [of l cs] by auto
qed simp

definition count_of :: "string \<Rightarrow> (server \<times> rejection) list \<Rightarrow> nat" where
  "count_of k rs = length (filter (\<lambda>(_, r). rejection_label r = k) rs)"

definition count_all :: "(server \<times> rejection) list \<Rightarrow> (string \<times> nat) list \<Rightarrow> (string \<times> nat) list" where
  "count_all rs cs = fold (\<lambda>(_, r) cs. count_label (rejection_label r) cs) rs cs"

lemma count_all_Cons: "count_all ((s, r) # rs) cs = count_all rs (count_label (rejection_label r) cs)"
  by (simp add: count_all_def)

lemma count_all_distinct: "distinct (map fst cs) \<Longrightarrow> distinct (map fst (count_all rs cs))"
proof (induction rs arbitrary: cs)
  case (Cons x rs)
  obtain s r where "x = (s, r)" by fastforce
  then show ?case
    using Cons.IH [OF count_label_distinct [OF Cons.prems]] by (simp add: count_all_Cons)
qed (simp add: count_all_def)

lemma count_all_lookup:
  "map_of (count_all rs cs) k =
     (case map_of cs k of
        None \<Rightarrow> if count_of k rs = 0 then None else Some (count_of k rs)
      | Some n \<Rightarrow> Some (n + count_of k rs))"
proof (induction rs arbitrary: cs)
  case Nil
  then show ?case by (simp add: count_all_def count_of_def split: option.split)
next
  case (Cons x rs)
  obtain s r where x: "x = (s, r)" by fastforce
  have "count_of k (x # rs) = (if rejection_label r = k then Suc (count_of k rs) else count_of k rs)"
    by (simp add: count_of_def x)
  then show ?case
    by (auto simp: x count_all_Cons Cons.IH count_label_lookup split: option.splits)
qed

text \<open>The summary of rejections names every label that occurs exactly once, with the number
of servers rejected under it, the largest count first and equal counts by label. The counts
add up to the number of rejected servers.\<close>

lemma rejection_summary_counts:
  "map_of (rejection_summary sel) k =
     (let n = count_of k (sel_rejected sel) in if n = 0 then None else Some n) \<and>
   distinct (map fst (rejection_summary sel)) \<and>
   sorted_by cmp_summary (rejection_summary sel) \<and>
   sum_list (map snd (rejection_summary sel)) = length (sel_rejected sel)"
proof -
  have s: "rejection_summary sel = sort_by cmp_summary (count_all (sel_rejected sel) [])"
    by (simp add: rejection_summary_def count_all_def)
  have d: "distinct (map fst (count_all (sel_rejected sel) []))"
    by (rule count_all_distinct) simp
  have m: "mset (rejection_summary sel) = mset (count_all (sel_rejected sel) [])"
    by (simp add: s)
  have dd: "distinct (map fst (rejection_summary sel))"
    using d m by (metis mset_map mset_eq_imp_distinct_iff)
  have "map_of (rejection_summary sel) = map_of (count_all (sel_rejected sel) [])"
    using dd d mset_eq_setD [OF m] by (rule map_of_inject_set [THEN iffD2])
  then show ?thesis
    using dd rejection_summary_sorted rejection_summary_sum
    by (simp add: count_all_lookup Let_def)
qed

end
