(* ===== verification/Score.thy ===== *)
theory Score
  imports Config
begin

text \<open>
  \<^verbatim>\<open>vpnmgr-core/src/score.rs\<close>: the ranking of probed servers. A score is a weighted mean
  of three component scores in the unit interval; the latency component is the logarithm of
  the ratio to the fastest candidate.
\<close>

section \<open>Definitions\<close>

definition RTT_RATIO_FLOOR :: f64 where "RTT_RATIO_FLOOR = Fin 20"

record scoring =
  sc_weights :: weights
  sc_headroom_target_mbps :: f64

definition scoring_default :: scoring where
  "scoring_default =
     \<lparr>sc_weights = weights_default, sc_headroom_target_mbps = DEFAULT_TARGET_MBPS * Fin 2\<rparr>"

definition scoring_new :: "weights \<Rightarrow> f64 \<Rightarrow> scoring" where
  "scoring_new w t = \<lparr>sc_weights = w, sc_headroom_target_mbps = t\<rparr>"

record measured =
  m_server :: server
  m_endpoint :: sockaddr
  m_entry :: u8
  m_rtt :: "duration option"

record scored =
  sd_server :: server
  sd_endpoint :: sockaddr
  sd_entry :: u8
  sd_rtt :: duration
  sd_score :: f64
  sd_rtt_score :: f64
  sd_load_score :: f64
  sd_headroom_score :: f64

definition micros :: "duration \<Rightarrow> f64" where
  "micros d = as_secs_f64 d * Fin 1000000"

definition reachable :: "measured list \<Rightarrow> (measured \<times> duration) list" where
  "reachable ms = List.map_filter (\<lambda>m. map_option (\<lambda>rtt. (m, rtt)) (m_rtt m)) ms"

definition fastest_of :: "(measured \<times> duration) list \<Rightarrow> f64" where
  "fastest_of rs = foldl fmin PInf (map (\<lambda>(_, d). micros d) rs)"

definition rtt_score_of :: "f64 \<Rightarrow> duration \<Rightarrow> f64" where
  "rtt_score_of fastest rtt =
     (let us = micros rtt in
      if us \<le> f64_epsilon \<or> fastest \<le> f64_epsilon then Fin 1
      else let ratio = fmax (us / fastest) (Fin 1) in
           fclamp (Fin 1 - fln ratio / fln RTT_RATIO_FLOOR) (Fin 0) (Fin 1))"

definition load_score_of :: "server \<Rightarrow> f64" where
  "load_score_of s = Fin 1 - load_fraction s"

definition headroom_score_of :: "f64 \<Rightarrow> server \<Rightarrow> f64" where
  "headroom_score_of target s =
     (if target \<le> Fin 0 then Fin 1
      else let ratio = f64_of_nat (unat (headroom_mbps s)) / target in
           fclamp (fln (Fin 1 + ratio) / fln (Fin 2)) (Fin 0) (Fin 1))"

definition score_one :: "scoring \<Rightarrow> f64 \<Rightarrow> measured \<times> duration \<Rightarrow> scored" where
  "score_one sc fastest mr =
     (let m = fst mr; rtt = snd mr; w = sc_weights sc;
          total_weight = w_rtt w + w_load w + w_headroom w;
          rs = rtt_score_of fastest rtt;
          ls = load_score_of (m_server m);
          hs = headroom_score_of (sc_headroom_target_mbps sc) (m_server m)
      in \<lparr>sd_server = m_server m, sd_endpoint = m_endpoint m, sd_entry = m_entry m,
          sd_rtt = rtt,
          sd_score = (w_rtt w * rs + w_load w * ls + w_headroom w * hs) / total_weight,
          sd_rtt_score = rs, sd_load_score = ls, sd_headroom_score = hs\<rparr>)"

definition cmp_scored :: "scored \<Rightarrow> scored \<Rightarrow> ordering" where
  "cmp_scored a b =
     then_with
       (then_with
         (case partial_cmp (sd_score b) (sd_score a) of Some c \<Rightarrow> c | None \<Rightarrow> OEqual)
         (cmp_nat (sd_rtt a) (sd_rtt b)))
       (cmp_str (srv_name (sd_server a)) (srv_name (sd_server b)))"

definition rank :: "measured list \<Rightarrow> scoring \<Rightarrow> scored list" where
  "rank ms sc =
     (let rs = reachable ms in
      if rs = [] then []
      else sort_by cmp_scored (map (score_one sc (fastest_of rs)) rs))"

definition relative_improvement :: "f64 \<Rightarrow> f64 \<Rightarrow> f64" where
  "relative_improvement current candidate =
     (if candidate \<le> current then Fin 0
      else if current \<le> f64_epsilon then Fin 1
      else (candidate - current) / current)"

section \<open>Lemmas\<close>

definition unit_f64 :: "f64 \<Rightarrow> bool" where
  "unit_f64 x \<longleftrightarrow> (\<exists>r. x = Fin r \<and> 0 \<le> r \<and> r \<le> 1)"

definition scoring_ok :: "scoring \<Rightarrow> bool" where
  "scoring_ok sc \<longleftrightarrow> weights_ok (sc_weights sc) \<and> sc_headroom_target_mbps sc \<noteq> NaN"

lemma micros_Fin: "micros d = Fin (of_nat d / 1000)"
  by (simp add: micros_def as_secs_f64_def)

lemma unit_rtt_score: "fastest \<noteq> NaN \<Longrightarrow> unit_f64 (rtt_score_of fastest rtt)"
proof -
  assume "fastest \<noteq> NaN"
  have "unit_f64 (fclamp (Fin 1 - fln (fmax (micros rtt / fastest) (Fin 1)) / fln RTT_RATIO_FLOOR)
      (Fin 0) (Fin 1))"
  proof -
    have "Fin 1 - fln (fmax (micros rtt / fastest) (Fin 1)) / fln RTT_RATIO_FLOOR \<noteq> NaN"
    proof (cases "micros rtt / fastest")
      case (Fin x)
      have "0 < max x 1" by simp
      then show ?thesis using Fin by (simp add: RTT_RATIO_FLOOR_def)
    next
      case PInf
      then show ?thesis by (simp add: RTT_RATIO_FLOOR_def fmax_def signed_inf_def minus_f64_def)
    next
      case NInf
      then show ?thesis by (simp add: RTT_RATIO_FLOOR_def fmax_def)
    next
      case NaN
      then show ?thesis by (simp add: RTT_RATIO_FLOOR_def fmax_def)
    qed
    from fclamp_unit [OF this] show ?thesis by (auto simp: unit_f64_def)
  qed
  then show ?thesis
    by (auto simp: rtt_score_of_def Let_def) (auto simp: unit_f64_def)
qed

lemma unit_load_score: "unit_f64 (load_score_of s)"
proof -
  define u where "u = real (unat (srv_load s))"
  have "0 \<le> u" unfolding u_def by (rule of_nat_0_le_iff)
  then show ?thesis
    unfolding load_score_of_def load_fraction_Fin u_def [symmetric]
    by (auto simp: unit_f64_def min_def)
qed

lemma unit_headroom_score: "target \<noteq> NaN \<Longrightarrow> unit_f64 (headroom_score_of target s)"
proof -
  assume t: "target \<noteq> NaN"
  show ?thesis
  proof (cases "target \<le> Fin 0")
    case True
    then show ?thesis by (auto simp: headroom_score_of_def unit_f64_def)
  next
    case False
    have "fln (Fin 1 + f64_of_nat n / target) / fln (Fin 2) \<noteq> NaN" for n
    proof (cases target)
      case (Fin x)
      with False have "0 < x" by simp
      then have "0 < 1 + of_nat n / x" by (simp add: add_pos_nonneg)
      then show ?thesis using Fin \<open>0 < x\<close> by (simp add: f64_of_nat_def)
    qed (use t False in \<open>auto simp: f64_of_nat_def\<close>)
    from fclamp_unit [OF this] show ?thesis
      using False by (auto simp: headroom_score_of_def unit_f64_def Let_def)
  qed
qed

text \<open>The weighted mean stays in the unit interval.\<close>

lemma unit_weighted_mean:
  assumes "0 \<le> a" "0 \<le> b" "0 \<le> c" "0 < a + b + (c :: real)"
    and "0 \<le> x" "x \<le> 1" "0 \<le> y" "y \<le> 1" "0 \<le> z" "z \<le> 1"
  shows "0 \<le> (a * x + b * y + c * z) / (a + b + c) \<and> (a * x + b * y + c * z) / (a + b + c) \<le> 1"
proof -
  have "a * x \<le> a" "b * y \<le> b" "c * z \<le> c"
    using assms by (simp_all add: mult_left_le)
  moreover have "0 \<le> a * x" "0 \<le> b * y" "0 \<le> c * z"
    using assms by simp_all
  ultimately show ?thesis using assms(4) by simp
qed

lemma unit_score:
  assumes "scoring_ok sc" and "fastest \<noteq> NaN"
  shows "unit_f64 (sd_score (score_one sc fastest mr))"
proof -
  obtain r l h where w: "w_rtt (sc_weights sc) = Fin r" "w_load (sc_weights sc) = Fin l"
      "w_headroom (sc_weights sc) = Fin h" "0 \<le> r" "0 \<le> l" "0 \<le> h" "0 < r + l + h"
    using assms(1) by (auto simp: scoring_ok_def weights_ok_def)
  have "unit_f64 (rtt_score_of fastest (snd mr))"
    by (rule unit_rtt_score [OF assms(2)])
  then obtain x where x: "rtt_score_of fastest (snd mr) = Fin x" "0 \<le> x" "x \<le> 1"
    by (auto simp: unit_f64_def)
  obtain y where y: "load_score_of (m_server (fst mr)) = Fin y" "0 \<le> y" "y \<le> 1"
    using unit_load_score by (auto simp: unit_f64_def)
  have "unit_f64 (headroom_score_of (sc_headroom_target_mbps sc) (m_server (fst mr)))"
    using assms(1) by (intro unit_headroom_score) (simp add: scoring_ok_def)
  then obtain z where z: "headroom_score_of (sc_headroom_target_mbps sc) (m_server (fst mr)) = Fin z"
      "0 \<le> z" "z \<le> 1"
    by (auto simp: unit_f64_def)
  have "sd_score (score_one sc fastest mr) = Fin ((r * x + l * y + h * z) / (r + l + h))"
    using w x y z by (simp add: score_one_def Let_def)
  then show ?thesis
    using unit_weighted_mean [of r l h x y z] w x y z by (simp add: unit_f64_def)
qed

lemma foldl_fmin_not_NaN: "acc \<noteq> NaN \<Longrightarrow> foldl fmin acc (map (\<lambda>(_, d). micros d) rs) \<noteq> NaN"
  by (induction rs arbitrary: acc) (auto simp: fmin_def micros_Fin)

lemma fastest_not_NaN [simp]: "fastest_of rs \<noteq> NaN"
  by (simp add: fastest_of_def foldl_fmin_not_NaN)

text \<open>
  The fastest candidate as a minimum over the durations.
\<close>

lemma foldl_fmin_Fin:
  "foldl fmin (Fin a) (map (\<lambda>(_, d). micros d) rs)
     = Fin (foldl min a (map (\<lambda>(_, d). of_nat d / 1000) rs))"
  by (induction rs arbitrary: a) (auto simp: micros_Fin)

lemma fastest_of_Cons:
  "fastest_of ((m, d) # rs) = Fin (foldl min (of_nat d / 1000) (map (\<lambda>(_, d). of_nat d / 1000) rs))"
proof -
  have "fmin PInf (micros d) = Fin (of_nat d / 1000)"
    by (simp add: fmin_def micros_Fin)
  then show ?thesis
    unfolding fastest_of_def by (simp only: list.map prod.case foldl_Cons foldl_fmin_Fin)
qed

text \<open>The comparison is a total preorder when all scores are finite, and when all are NaN.\<close>

definition cmp_by_score :: "scored \<Rightarrow> scored \<Rightarrow> ordering" where
  "cmp_by_score a b =
     (case partial_cmp (sd_score b) (sd_score a) of Some c \<Rightarrow> c | None \<Rightarrow> OEqual)"

lemma cmp_scored_alt:
  "cmp_scored = (\<lambda>a b. then_with
      (then_with (cmp_by_score a b) (cmp_nat (sd_rtt a) (sd_rtt b)))
      (cmp_str (srv_name (sd_server a)) (srv_name (sd_server b))))"
  by (intro ext) (simp only: cmp_scored_def cmp_by_score_def)

lemma total_cmp_scored:
  "total_cmp_on A cmp_by_score \<Longrightarrow> total_cmp_on A cmp_scored"
  unfolding cmp_scored_alt
  by (intro total_cmp_then_with total_cmp_nat_key total_cmp_str_key)

lemma total_cmp_scored_fin:
  assumes "\<And>x. x \<in> A \<Longrightarrow> is_fin (sd_score x)"
  shows "total_cmp_on A cmp_scored"
proof (rule total_cmp_scored)
  have cmp: "cmp_by_score x y = (if fin_val (sd_score y) < fin_val (sd_score x) then OLess
      else if fin_val (sd_score x) < fin_val (sd_score y) then OGreater else OEqual)"
    if "x \<in> A" "y \<in> A" for x y
    using assms [OF that(1)] assms [OF that(2)] by (auto simp: cmp_by_score_def is_fin_def)
  show "total_cmp_on A cmp_by_score"
    unfolding total_cmp_on_def using cmp by (auto split: if_splits)
qed

lemma total_cmp_scored_nan:
  assumes "\<And>x. x \<in> A \<Longrightarrow> sd_score x = NaN"
  shows "total_cmp_on A cmp_scored"
  using assms by (intro total_cmp_scored) (auto simp: total_cmp_on_def cmp_by_score_def)

text \<open>The ranking is a sorted permutation of the scored reachable candidates.\<close>

lemma reachable_simps [simp]:
  "reachable [] = []"
  "reachable (m # ms) = (case m_rtt m of None \<Rightarrow> reachable ms | Some d \<Rightarrow> (m, d) # reachable ms)"
  by (auto simp: reachable_def List.map_filter_simps split: option.splits)

lemma mem_reachable: "(m, d) \<in> set (reachable ms) \<longleftrightarrow> m \<in> set ms \<and> m_rtt m = Some d"
  by (induction ms) (auto split: option.splits)

lemma mset_rank: "mset (rank ms sc) = mset (map (score_one sc (fastest_of (reachable ms))) (reachable ms))"
  by (simp add: rank_def Let_def)

lemma set_rank: "set (rank ms sc) = score_one sc (fastest_of (reachable ms)) ` set (reachable ms)"
  by (auto simp: rank_def Let_def)

lemma rank_sorted:
  assumes "scoring_ok sc"
  shows "sorted_by cmp_scored (rank ms sc)"
proof -
  have "is_fin x" if "unit_f64 x" for x
    using that by (auto simp: unit_f64_def)
  then have "total_cmp_on (set (map (score_one sc (fastest_of (reachable ms))) (reachable ms))) cmp_scored"
    using unit_score [OF assms] by (intro total_cmp_scored_fin) auto
  from sorted_by_sort_by [OF this] show ?thesis
    by (simp add: rank_def Let_def sorted_by_def)
qed

lemma score_one_sel [simp]:
  "sd_server (score_one sc f mr) = m_server (fst mr)"
  "sd_endpoint (score_one sc f mr) = m_endpoint (fst mr)"
  "sd_entry (score_one sc f mr) = m_entry (fst mr)"
  "sd_rtt (score_one sc f mr) = snd mr"
  by (simp_all add: score_one_def Let_def)

section \<open>Properties\<close>

lemma cmp_scored_score:
  "cmp_scored x y \<noteq> OGreater \<Longrightarrow> unit_f64 (sd_score x) \<Longrightarrow> unit_f64 (sd_score y) \<Longrightarrow>
     sd_score y \<le> sd_score x"
  by (auto simp: cmp_scored_def unit_f64_def then_with_def split: ordering.splits if_splits)

lemma rank_units: "scoring_ok sc \<Longrightarrow> x \<in> set (rank ms sc) \<Longrightarrow> unit_f64 (sd_score x)"
  by (auto simp: set_rank intro!: unit_score)

lemma rank_descending:
  assumes "scoring_ok sc"
  shows "sorted_wrt (\<lambda>x y. sd_score y \<le> sd_score x) (rank ms sc)"
  using rank_sorted [OF assms, of ms] rank_units [OF assms, of _ ms]
  unfolding sorted_by_def
  by (auto intro: sorted_wrt_mono_rel [rotated] cmp_scored_score)

text \<open>What a ranked entry keeps of its measurement.\<close>

definition measurement :: "scored \<Rightarrow> server \<times> sockaddr \<times> u8 \<times> duration" where
  "measurement s = (sd_server s, sd_endpoint s, sd_entry s, sd_rtt s)"

definition timed :: "measured list \<Rightarrow> (server \<times> sockaddr \<times> u8 \<times> duration) list" where
  "timed ms = map (\<lambda>m. (m_server m, m_endpoint m, m_entry m, the (m_rtt m)))
     (filter (\<lambda>m. m_rtt m \<noteq> None) ms)"

lemma timed_reachable:
  "map (\<lambda>mr. (m_server (fst mr), m_endpoint (fst mr), m_entry (fst mr), snd mr)) (reachable ms) = timed ms"
  by (induction ms) (auto simp: timed_def split: option.splits)

definition sample_server2 :: server where
  "sample_server2 = sample_server\<lparr>srv_name := ''Alioth'', bw := 19000, srv_load := 95\<rparr>"

definition sample_measured :: "measured list" where
  "sample_measured =
     [\<lparr>m_server = sample_server2, m_endpoint = wg_endpoint sample_server2 WG_PORT, m_entry = 1,
       m_rtt = Some 20000000\<rparr>,
      \<lparr>m_server = sample_server, m_endpoint = wg_endpoint sample_server WG_PORT, m_entry = 1,
       m_rtt = Some 10000000\<rparr>,
      \<lparr>m_server = sample_server, m_endpoint = wg_endpoint sample_server WG_PORT, m_entry = 3,
       m_rtt = None\<rparr>]"

lemma scoring_default_ok: "scoring_ok scoring_default"
proof -
  have "weights_ok weights_default"
    unfolding weights_ok_def
    by (rule exI [of _ "6 / 10"], rule exI [of _ "1 / 10"], rule exI [of _ "3 / 10"])
      (simp add: weights_default_def)
  then show ?thesis by (simp add: scoring_ok_def scoring_default_def DEFAULT_TARGET_MBPS_def)
qed

text \<open>C19: under weights that are ordinary numbers, not negative and not all zero,
ranking keeps every reachable candidate once with its own measurement, drops every other,
gives each a score in the unit interval and orders the scores from the highest down.\<close>

theorem rank_correct:
  assumes "scoring_ok sc"
  shows "mset (map measurement (rank ms sc)) = mset (timed ms) \<and>
    (\<forall>s\<in>set (rank ms sc). unit_f64 (sd_score s)) \<and>
    sorted_wrt (\<lambda>x y. sd_score y \<le> sd_score x) (rank ms sc)"
proof -
  have "mset (map measurement (rank ms sc)) = image_mset measurement
      (mset (map (score_one sc (fastest_of (reachable ms))) (reachable ms)))"
    by (simp only: mset_map mset_rank)
  also have "\<dots> = mset (timed ms)"
    by (simp add: measurement_def image_mset.compositionality comp_def flip: timed_reachable)
  finally show ?thesis by (simp add: rank_units [OF assms] rank_descending [OF assms])
qed

theorem rank_correct_witness:
  "scoring_ok scoring_default \<and>
   mset (map measurement (rank sample_measured scoring_default)) = mset (timed sample_measured) \<and>
   length (timed sample_measured) = 2"
  using rank_correct [OF scoring_default_ok, of sample_measured] scoring_default_ok
  by (simp add: timed_def sample_measured_def)

lemma fastest_append:
  "fastest_of (rs @ [(m, d)]) = fmin (fastest_of rs) (micros d)"
  by (simp add: fastest_of_def)

lemma foldl_min_le: "x \<in> insert a (set xs) \<Longrightarrow> foldl min a xs \<le> (x :: real)"
proof (induction xs arbitrary: a x)
  case (Cons y xs)
  have "foldl min (min a y) xs \<le> min a y" using Cons.IH [of "min a y" "min a y"] by simp
  then show ?case using Cons.IH [of x "min a y"] Cons.prems by auto
qed simp

lemma fastest_le: "(m, d) \<in> set rs \<Longrightarrow> \<exists>f. fastest_of rs = Fin f \<and> f \<le> of_nat d / 1000"
proof -
  assume a: "(m, d) \<in> set rs"
  then obtain m0 d0 rs' where rs: "rs = (m0, d0) # rs'" by (cases rs) auto
  have "of_nat d / 1000 \<in> insert (of_nat d0 / 1000 :: real) (set (map (\<lambda>(_, d). of_nat d / 1000) rs'))"
    using a rs by force
  from foldl_min_le [OF this] show ?thesis using rs fastest_of_Cons by blast
qed

lemma reachable_append: "reachable (ms @ [m]) =
    reachable ms @ (case m_rtt m of None \<Rightarrow> [] | Some d \<Rightarrow> [(m, d)])"
  by (induction ms) (auto split: option.splits)

text \<open>A candidate that is no faster than one already measured does
not change anybody's score: adding it to the field leaves the score of every other candidate
what it was, however slow it is.\<close>

lemma slower_candidate_is_neutral:
  assumes "m_rtt slow = Some d" and "(m0, d0) \<in> set (reachable ms)" and "d0 \<le> d"
  shows "score_one sc (fastest_of (reachable (ms @ [slow]))) x = score_one sc (fastest_of (reachable ms)) x"
proof -
  obtain f where f: "fastest_of (reachable ms) = Fin f" "f \<le> of_nat d0 / 1000"
    using fastest_le [OF assms(2)] by blast
  have "f \<le> of_nat d / 1000"
    using f(2) assms(3) of_nat_mono [OF assms(3), where 'a = real] by linarith
  then have "fastest_of (reachable (ms @ [slow])) = fastest_of (reachable ms)"
    using assms(1) f(1) by (simp add: reachable_append fastest_append micros_Fin fmin_def)
  then show ?thesis by simp
qed

text \<open>The fastest reachable candidate gets the full latency score, whatever
the others measure; a candidate that takes twenty times as long or more gets none.\<close>

lemma fastest_scores_one:
  assumes "fastest_of rs = Fin f" and "f = of_nat d / 1000" and "f64_epsilon < Fin f"
    and "Fin (20 * f) \<le> micros d'"
  shows "rtt_score_of (fastest_of rs) d = Fin 1 \<and> rtt_score_of (fastest_of rs) d' = Fin 0"
proof -
  obtain e where e: "f64_epsilon = Fin e" "0 < e" using that [of "1 / 2 ^ 52"] by (simp add: f64_epsilon_def)
  have "e < f" using assms(3) unfolding e(1) by simp
  then have f: "e < f" "0 < f" using e(2) by linarith+
  define q where "q = of_nat d' / 1000 / f"
  have m: "micros d = Fin f" "micros d' = Fin (q * f)" "20 \<le> q"
    using assms(2,4) f by (simp_all add: micros_Fin q_def le_divide_eq)
  have "20 * f \<le> q * f" using m(3) f by (simp add: mult_right_mono)
  then have "e < q * f" using f by linarith
  moreover have "ln 20 \<le> ln q" using m(3) by simp
  moreover have "1 \<le> ln q / ln 20" using \<open>ln 20 \<le> ln q\<close> by (simp add: le_divide_eq)
  moreover have "\<not> Fin f \<le> f64_epsilon" "\<not> Fin (q * f) \<le> f64_epsilon"
    unfolding e(1) using f \<open>e < q * f\<close> by simp_all
  ultimately show ?thesis
    using f m e
    by (auto simp: rtt_score_of_def assms(1) Let_def fmax_def fclamp_def RTT_RATIO_FLOOR_def max_def
        minus_f64_def)
qed

end
