(* ===== verification/Probe.thy ===== *)
theory Probe
  imports Score
begin

text \<open>
  \<^verbatim>\<open>vpnmgr-probe/src/lib.rs\<close>: handshake probes, the median of the samples, and the sweep
  over every entry of every server. What the socket, the network and the Noise library
  answer is an observation the functions take: one per task and sample. Tasks run
  concurrently in the program; their results are collected in input order, so they are a
  list here.
\<close>

section \<open>One handshake\<close>

definition MSG_HANDSHAKE_RESPONSE :: u8 where "MSG_HANDSHAKE_RESPONSE = 2"
definition MSG_COOKIE_REPLY :: u8 where "MSG_COOKIE_REPLY = 3"
definition SAMPLE_GAP :: duration where "SAMPLE_GAP = from_millis 120"

datatype outcome =
    Reachable
  | RateLimited
  | Unreachable
  | Rejected string
  | Failed string
  | SkippedConnected

fun is_usable :: "outcome \<Rightarrow> bool" where
  "is_usable Reachable = True"
| "is_usable RateLimited = True"
| "is_usable _ = False"

record probe_result =
  pr_endpoint :: sockaddr
  pr_rtt :: "duration option"
  pr_samples_got :: "duration list"
  pr_outcome :: outcome

record prober =
  pb_private_key :: "u8 list"
  pb_peer_public_key :: "u8 list"
  pb_preshared_key :: "u8 list option"
  pb_settings :: probe_cfg
  pb_fwmark :: "u32 option"
  pb_excluded :: "sockaddr option"

definition prober_new :: "client_config \<Rightarrow> probe_cfg \<Rightarrow> prober" where
  "prober_new c settings =
     \<lparr>pb_private_key = secret_expose (cc_private_key c),
      pb_peer_public_key = public_bytes (cc_peer_public_key c),
      pb_preshared_key = map_option secret_expose (cc_preshared_key c),
      pb_settings = settings, pb_fwmark = None, pb_excluded = None\<rparr>"

definition prober_with_fwmark :: "u32 \<Rightarrow> prober \<Rightarrow> prober" where
  "prober_with_fwmark m p = p\<lparr>pb_fwmark := Some m\<rparr>"

definition prober_excluding :: "sockaddr \<Rightarrow> prober \<Rightarrow> prober" where
  "prober_excluding a p = p\<lparr>pb_excluded := Some a\<rparr>"

text \<open>Results of the Noise library, and what one attempt sees of the outside.\<close>

datatype tunn_result =
    TDone
  | TErr string
  | TWriteToNetwork "u8 list"
  | TWriteToTunnelV4
  | TWriteToTunnelV6

fun tunn_describe :: "tunn_result \<Rightarrow> string" where
  "tunn_describe TDone = ''done''"
| "tunn_describe (TErr _) = ''error''"
| "tunn_describe (TWriteToNetwork _) = ''write-to-network''"
| "tunn_describe TWriteToTunnelV4 = ''write-to-tunnel-v4''"
| "tunn_describe TWriteToTunnelV6 = ''write-to-tunnel-v6''"

datatype recv_result =
    RecvTimeout
  | RecvErr string
  | RecvOk "u8 list" duration

record handshake_obs =
  ho_bind :: "string option" \<comment> \<open>the error of \<^verbatim>\<open>socket::bind_for\<close>, if any\<close>
  ho_initiation :: tunn_result
  ho_send :: "string option"
  ho_recv :: recv_result
  ho_decapsulate :: tunn_result

definition one_handshake :: "handshake_obs \<Rightarrow> outcome + duration \<times> outcome" where
  "one_handshake ob =
     (case ho_bind ob of Some e \<Rightarrow> Inl (Failed e) | None \<Rightarrow>
     (case ho_initiation ob of
        TErr e \<Rightarrow> Inl (Rejected e)
      | TWriteToNetwork _ \<Rightarrow>
          (case ho_send ob of Some e \<Rightarrow> Inl (Failed e) | None \<Rightarrow>
          (case ho_recv ob of
             RecvTimeout \<Rightarrow> Inl Unreachable
           | RecvErr e \<Rightarrow> Inl (Failed e)
           | RecvOk buf rtt \<Rightarrow>
               (case buf of
                  [] \<Rightarrow> Inl (Failed ''empty datagram'')
                | b # _ \<Rightarrow>
                    if b = MSG_COOKIE_REPLY then Inr (rtt, RateLimited)
                    else if b = MSG_HANDSHAKE_RESPONSE then
                      (case ho_decapsulate ob of
                         TWriteToNetwork _ \<Rightarrow> Inr (rtt, Reachable)
                       | TDone \<Rightarrow> Inr (rtt, Reachable)
                       | TErr e \<Rightarrow> Inl (Rejected e)
                       | r \<Rightarrow> Inl (Failed (''unexpected handshake result: '' @ tunn_describe r)))
                    else Inl (Failed (''unexpected WireGuard message type '' @ show_nat (unat b))))))
      | r \<Rightarrow> Inl (Failed (''expected a handshake initiation, got '' @ tunn_describe r))))"

section \<open>Probing one server\<close>

definition median :: "duration list \<Rightarrow> duration option" where
  "median ss = (if ss = [] then None else Some (sort ss ! ((length ss - 1) div 2)))"

definition sample_step :: "outcome + duration \<times> outcome \<Rightarrow> duration list \<times> outcome
    \<Rightarrow> duration list \<times> outcome" where
  "sample_step h acc =
     (case acc of (samples, oc) \<Rightarrow>
      (case h of
         Inr (rtt, o') \<Rightarrow> (samples @ [rtt], if oc \<noteq> Reachable then o' else oc)
       | Inl o' \<Rightarrow> (samples, if samples = [] then o' else oc)))"

fun sample_loop :: "(nat \<Rightarrow> handshake_obs) \<Rightarrow> nat \<Rightarrow> duration list \<times> outcome" where
  "sample_loop obs 0 = ([], Unreachable)"
| "sample_loop obs (Suc n) = sample_step (one_handshake (obs n)) (sample_loop obs n)"

definition probe :: "prober \<Rightarrow> (nat \<Rightarrow> handshake_obs) \<Rightarrow> sockaddr \<Rightarrow> probe_result" where
  "probe p obs endpoint =
     (if pb_excluded p = Some endpoint
      then \<lparr>pr_endpoint = endpoint, pr_rtt = None, pr_samples_got = [],
            pr_outcome = SkippedConnected\<rparr>
      else (case sample_loop obs (pr_samples (pb_settings p)) of (samples, oc) \<Rightarrow>
        \<lparr>pr_endpoint = endpoint, pr_rtt = median samples, pr_samples_got = samples,
         pr_outcome = oc\<rparr>))"

text \<open>
  What a run of \<^verbatim>\<open>probe_many\<close> sees: the attempts of each task, and whether the task ended
  in a panic.
\<close>

record net_obs =
  no_handshake :: "nat \<Rightarrow> nat \<Rightarrow> handshake_obs"
  no_join :: "nat \<Rightarrow> string option"

definition probe_task :: "prober \<Rightarrow> net_obs \<Rightarrow> nat \<Rightarrow> sockaddr \<Rightarrow> probe_result" where
  "probe_task p obs i endpoint =
     (case no_join obs i of
        Some e \<Rightarrow> \<lparr>pr_endpoint = endpoint, pr_rtt = None, pr_samples_got = [],
                   pr_outcome = Failed (''probe task panicked: '' @ e)\<rparr>
      | None \<Rightarrow> probe p (no_handshake obs i) endpoint)"

fun probe_many_from :: "prober \<Rightarrow> net_obs \<Rightarrow> nat \<Rightarrow> sockaddr list \<Rightarrow> probe_result list" where
  "probe_many_from p obs i [] = []"
| "probe_many_from p obs i (a # as) = probe_task p obs i a # probe_many_from p obs (Suc i) as"

definition probe_many :: "prober \<Rightarrow> net_obs \<Rightarrow> sockaddr list \<Rightarrow> probe_result list" where
  "probe_many p obs endpoints = probe_many_from p obs 0 endpoints"

section \<open>The sweep\<close>

fun flatten_from :: "nat \<Rightarrow> server list \<Rightarrow> u8 list \<Rightarrow> u16 \<Rightarrow> ((nat \<times> u8) \<times> sockaddr) list" where
  "flatten_from i [] entries port = []"
| "flatten_from i (s # ss) entries port =
     map (\<lambda>(e, a). ((i, e), a)) (wg_endpoints s entries port) @ flatten_from (Suc i) ss entries port"

type_synonym cand = "u8 \<times> sockaddr \<times> duration"

definition usable_rtt :: "probe_result \<Rightarrow> duration option" where
  "usable_rtt r = (case pr_rtt r of Some d \<Rightarrow> if is_usable (pr_outcome r) then Some d else None | None \<Rightarrow> None)"

definition keep_faster :: "cand \<Rightarrow> cand option \<Rightarrow> cand option" where
  "keep_faster c b =
     (case b of
        Some (e, a, current) \<Rightarrow> if current \<le> snd (snd c) then b else Some c
      | None \<Rightarrow> Some c)"

fun best_loop :: "((nat \<times> u8) \<times> probe_result) list \<Rightarrow> cand option list \<Rightarrow> cand option list" where
  "best_loop [] best = best"
| "best_loop (((i, e), r) # rs) best =
     best_loop rs
       (case usable_rtt r of
          None \<Rightarrow> best
        | Some rtt \<Rightarrow> best[i := keep_faster (e, pr_endpoint r, rtt) (best ! i)])"

definition to_measured :: "u8 list \<Rightarrow> u16 \<Rightarrow> server \<Rightarrow> cand option \<Rightarrow> measured" where
  "to_measured entries port s b =
     (case b of
        Some (entry, endpoint, rtt) \<Rightarrow>
          \<lparr>m_server = s, m_endpoint = endpoint, m_entry = entry, m_rtt = Some rtt\<rparr>
      | None \<Rightarrow>
          \<lparr>m_server = s, m_endpoint = wg_endpoint s port,
           m_entry = (case entries of [] \<Rightarrow> 1 | e # _ \<Rightarrow> e), m_rtt = None\<rparr>)"

definition sweep :: "prober \<Rightarrow> net_obs \<Rightarrow> server list \<Rightarrow> u8 list \<Rightarrow> u16 \<Rightarrow> measured list" where
  "sweep p obs servers entries port =
     (let flat = flatten_from 0 servers entries port;
          results = probe_many p obs (map snd flat);
          best = best_loop (zip (map fst flat) results) (replicate (length servers) None)
      in map (\<lambda>(s, b). to_measured entries port s b) (zip servers best))"

section \<open>Lemmas\<close>

lemma median_mem: "median ss = Some d \<Longrightarrow> d \<in> set ss"
proof -
  assume "median ss = Some d"
  then have ne: "ss \<noteq> []" and d: "d = sort ss ! ((length ss - 1) div 2)"
    by (auto simp: median_def split: if_splits)
  have "(length ss - 1) div 2 < length (sort ss)"
    using ne by (cases ss) auto
  then show ?thesis using d by (metis nth_mem set_sort)
qed

lemma median_None [simp]: "median ss = None \<longleftrightarrow> ss = []"
  by (simp add: median_def)

text \<open>At least half the samples lie on either side of the median.\<close>

lemma median_middle:
  assumes "median ss = Some d"
  shows "length ss \<le> 2 * length (filter (\<lambda>x. x \<le> d) ss)"
    and "length ss \<le> 2 * length (filter (\<lambda>x. d \<le> x) ss)"
proof -
  define xs k where "xs = sort ss" and "k = (length ss - 1) div 2"
  have ne: "ss \<noteq> []" and d: "d = xs ! k"
    using assms by (auto simp: median_def xs_def k_def split: if_splits)
  have sorted: "sorted xs" by (simp add: xs_def)
  have len: "length xs = length ss" by (simp add: xs_def)
  have k: "k < length xs" using ne len by (cases ss) (auto simp: k_def)
  have flt: "length (filter P ss) = length (filter P xs)" for P
  proof -
    have "mset (filter P ss) = mset (filter P xs)" by (simp add: xs_def)
    then show ?thesis by (metis size_mset)
  qed
  have "filter (\<lambda>x. x \<le> d) (take (Suc k) xs) = take (Suc k) xs"
    using sorted_nth_mono [OF sorted] k d by (auto simp: filter_id_conv in_set_conv_nth)
  then have "Suc k \<le> length (filter (\<lambda>x. x \<le> d) xs)"
    by (metis append_take_drop_id filter_append k le_add1 length_append length_take less_eq_Suc_le
        min.absorb2)
  then show "length ss \<le> 2 * length (filter (\<lambda>x. x \<le> d) ss)"
    using ne by (simp add: flt k_def) 
  have "filter (\<lambda>x. d \<le> x) (drop k xs) = drop k xs"
    using sorted_nth_mono [OF sorted] k d by (auto simp: filter_id_conv in_set_conv_nth)
  then have "length xs - k \<le> length (filter (\<lambda>x. d \<le> x) xs)"
    by (metis append_take_drop_id filter_append le_add2 length_append length_drop)
  then show "length ss \<le> 2 * length (filter (\<lambda>x. d \<le> x) ss)"
    using len by (simp add: flt k_def)
qed

lemma probe_endpoint [simp]: "pr_endpoint (probe p obs a) = a"
  by (simp add: probe_def split: prod.split)

lemma probe_task_endpoint [simp]: "pr_endpoint (probe_task p obs i a) = a"
  by (simp add: probe_task_def split: option.split)

lemma probe_excluded: "pb_excluded p = Some a \<Longrightarrow> usable_rtt (probe_task p obs i a) = None"
  by (simp add: probe_task_def probe_def usable_rtt_def split: option.split)

lemma length_probe_many_from [simp]: "length (probe_many_from p obs i as) = length as"
  by (induction as arbitrary: i) auto

lemma nth_probe_many_from:
  "k < length as \<Longrightarrow> probe_many_from p obs i as ! k = probe_task p obs (i + k) (as ! k)"
  by (induction as arbitrary: i k) (auto simp: nth_Cons split: nat.splits)

lemma probe_many_props:
  "length (probe_many p obs as) = length as"
  "k < length as \<Longrightarrow> probe_many p obs as ! k = probe_task p obs k (as ! k)"
  by (simp_all add: probe_many_def nth_probe_many_from)

text \<open>The loop keeps, for each server, the first fastest of that server's candidates.\<close>

definition cands_for :: "nat \<Rightarrow> ((nat \<times> u8) \<times> probe_result) list \<Rightarrow> cand list" where
  "cands_for i rs =
     List.map_filter (\<lambda>((j, e), r).
       if j = i then map_option (\<lambda>d. (e, pr_endpoint r, d)) (usable_rtt r) else None) rs"

lemma cands_for_simps [simp]:
  "cands_for i [] = []"
  "cands_for i (((j, e), r) # rs) =
     (if j = i then (case usable_rtt r of None \<Rightarrow> [] | Some d \<Rightarrow> [(e, pr_endpoint r, d)]) else [])
       @ cands_for i rs"
  by (auto simp: cands_for_def List.map_filter_simps split: option.splits)

lemma length_best_loop [simp]: "length (best_loop rs best) = length best"
  by (induction rs best rule: best_loop.induct) (auto split: option.splits)

lemma best_loop_nth:
  "i < length best \<Longrightarrow> best_loop rs best ! i = fold keep_faster (cands_for i rs) (best ! i)"
  by (induction rs best rule: best_loop.induct) (auto split: option.splits simp: nth_list_update)

lemma fold_keep_faster:
  "fold keep_faster cs b = Some c \<Longrightarrow>
     (c \<in> set cs \<or> b = Some c) \<and> (\<forall>c'\<in>set cs. snd (snd c) \<le> snd (snd c')) \<and>
     (\<forall>c'. b = Some c' \<longrightarrow> snd (snd c) \<le> snd (snd c'))"
proof (induction cs arbitrary: b)
  case (Cons d cs)
  have kf: "\<exists>d'. keep_faster d b = Some d' \<and> (d' = d \<or> b = Some d') \<and> snd (snd d') \<le> snd (snd d)
      \<and> (\<forall>c'. b = Some c' \<longrightarrow> snd (snd d') \<le> snd (snd c'))"
    by (cases b; cases d) (auto simp: keep_faster_def split: prod.splits)
  then obtain d' where d': "keep_faster d b = Some d'" "d' = d \<or> b = Some d'"
      "snd (snd d') \<le> snd (snd d)" "\<forall>c'. b = Some c' \<longrightarrow> snd (snd d') \<le> snd (snd c')"
    by blast
  from Cons.IH [of "Some d'"] Cons.prems d' show ?case by (auto intro: order_trans)
qed simp

lemma fold_keep_faster_None: "fold keep_faster cs b = None \<longleftrightarrow> cs = [] \<and> b = None"
proof (induction cs arbitrary: b)
  case (Cons d cs)
  have "keep_faster d b \<noteq> None" by (cases b; cases d) (auto simp: keep_faster_def)
  then show ?case using Cons.IH by auto
qed simp

lemma mem_flatten_from:
  "((i, e), a) \<in> set (flatten_from n ss entries port) \<longleftrightarrow>
     n \<le> i \<and> i < n + length ss \<and> (e, a) \<in> set (wg_endpoints (ss ! (i - n)) entries port)"
proof (induction ss arbitrary: n)
  case (Cons s ss)
  show ?case
  proof (cases "i = n")
    case True
    then show ?thesis using Cons.IH [of "Suc n"] by auto
  next
    case False
    then show ?thesis using Cons.IH [of "Suc n"] by (auto simp: nth_Cons')
  qed
qed simp

definition tasks :: "server list \<Rightarrow> u8 list \<Rightarrow> u16 \<Rightarrow> ((nat \<times> u8) \<times> sockaddr) list" where
  "tasks servers entries port = flatten_from 0 servers entries port"

text \<open>The usable timings of one server: entry, endpoint and rtt of each task of it that gave one.\<close>

definition timings :: "prober \<Rightarrow> net_obs \<Rightarrow> server list \<Rightarrow> u8 list \<Rightarrow> u16 \<Rightarrow> nat \<Rightarrow> cand set" where
  "timings p obs servers entries port i =
     {(e, a, d). \<exists>k. k < length (tasks servers entries port) \<and>
        tasks servers entries port ! k = ((i, e), a) \<and> usable_rtt (probe_task p obs k a) = Some d}"

lemma cands_induct:
  assumes "P []" and "\<And>j e r rs. P rs \<Longrightarrow> P (((j, e), r) # rs)"
  shows "P rs"
proof (induction rs)
  case (Cons x rs)
  then show ?case using assms(2) [of rs "fst (fst x)" "snd (fst x)" "snd x"] by simp
qed (rule assms(1))

definition gives :: "probe_result \<Rightarrow> sockaddr \<Rightarrow> duration \<Rightarrow> bool" where
  "gives r a d \<longleftrightarrow> a = pr_endpoint r \<and> usable_rtt r = Some d"

lemma cands_for_Cons:
  "(e, a, d) \<in> set (cands_for i (((j, e'), r) # rs)) \<longleftrightarrow>
     j = i \<and> e = e' \<and> gives r a d \<or> (e, a, d) \<in> set (cands_for i rs)"
proof (cases "usable_rtt r")
  case None
  then have "\<not> gives r a d" unfolding gives_def by simp
  then show ?thesis unfolding cands_for_simps None option.case by simp
next
  case (Some x)
  have "gives r a d \<longleftrightarrow> a = pr_endpoint r \<and> d = x"
    unfolding gives_def Some option.inject by argo
  moreover have "(e, a, d) \<in> set (if j = i then [(e', pr_endpoint r, x)] else []) \<longleftrightarrow>
      j = i \<and> e = e' \<and> a = pr_endpoint r \<and> d = x"
    by (cases "j = i") simp_all
  ultimately show ?thesis
    unfolding cands_for_simps Some option.case set_append Un_iff by argo
qed

lemma mem_cands_for:
  "(e, a, d) \<in> set (cands_for i rs) \<longleftrightarrow>
     (\<exists>k < length rs. fst (rs ! k) = (i, e) \<and> gives (snd (rs ! k)) a d)"
proof (induction rs rule: cands_induct)
  case (2 j e' r rs)
  then show ?case
    unfolding cands_for_Cons list.size add_0_right plus_nat.add_0 One_nat_def add_Suc_right
      Ex_less_Suc2 nth_Cons_0 nth_Cons_Suc fst_conv snd_conv prod.inject by blast
qed simp

lemma set_cands_sweep:
  "set (cands_for i (zip (map fst (tasks ss es port)) (probe_many p obs (map snd (tasks ss es port)))))
     = timings p obs ss es port i"
proof (rule set_eqI)
  fix c :: cand
  obtain e a d where c: "c = (e, a, d)" by (cases c)
  define fl where "fl = tasks ss es port"
  have nth: "zip (map fst fl) (probe_many p obs (map snd fl)) ! k
      = (fst (fl ! k), probe_task p obs k (snd (fl ! k)))" if "k < length fl" for k
    using that by (simp add: probe_many_props)
  have "c \<in> set (cands_for i (zip (map fst fl) (probe_many p obs (map snd fl)))) \<longleftrightarrow>
      (\<exists>k < length fl. fst (fl ! k) = (i, e) \<and> a = snd (fl ! k) \<and>
        usable_rtt (probe_task p obs k (snd (fl ! k))) = Some d)"
    using nth by (auto simp: c mem_cands_for gives_def probe_many_props)
  also have "\<dots> \<longleftrightarrow> (\<exists>k < length fl. fl ! k = ((i, e), a) \<and>
      usable_rtt (probe_task p obs k a) = Some d)"
    by (metis fst_conv prod.collapse snd_conv)
  finally show "c \<in> set (cands_for i (zip (map fst (tasks ss es port))
      (probe_many p obs (map snd (tasks ss es port))))) \<longleftrightarrow> c \<in> timings p obs ss es port i"
    by (simp add: c fl_def timings_def)
qed

lemma length_sweep [simp]: "length (sweep p obs ss es port) = length ss"
  by (simp add: sweep_def Let_def)

lemma sweep_nth:
  assumes "i < length ss"
  shows "sweep p obs ss es port ! i = to_measured es port (ss ! i)
    (fold keep_faster
      (cands_for i (zip (map fst (tasks ss es port)) (probe_many p obs (map snd (tasks ss es port)))))
      None)"
  using assms by (simp add: sweep_def Let_def tasks_def best_loop_nth)

lemma sweep_server [simp]: "i < length ss \<Longrightarrow> m_server (sweep p obs ss es port ! i) = ss ! i"
  by (auto simp: sweep_nth to_measured_def split: option.splits)

lemma sweep_some:
  assumes "i < length ss" and "m_rtt (sweep p obs ss es port ! i) = Some d"
  shows "(m_entry (sweep p obs ss es port ! i), m_endpoint (sweep p obs ss es port ! i), d)
           \<in> timings p obs ss es port i"
    and "(e, a, d') \<in> timings p obs ss es port i \<Longrightarrow> d \<le> d'"
proof -
  define cs where "cs = cands_for i
    (zip (map fst (tasks ss es port)) (probe_many p obs (map snd (tasks ss es port))))"
  obtain e0 a0 where f: "fold keep_faster cs None = Some (e0, a0, d)"
    using assms by (auto simp: sweep_nth to_measured_def cs_def [symmetric] split: option.splits)
  have m: "sweep p obs ss es port ! i
      = \<lparr>m_server = ss ! i, m_endpoint = a0, m_entry = e0, m_rtt = Some d\<rparr>"
    using assms(1) f by (simp add: sweep_nth cs_def [symmetric] to_measured_def)
  have "set cs = timings p obs ss es port i"
    unfolding cs_def by (rule set_cands_sweep)
  with fold_keep_faster [OF f] m
  show "(m_entry (sweep p obs ss es port ! i), m_endpoint (sweep p obs ss es port ! i), d)
          \<in> timings p obs ss es port i"
    and "(e, a, d') \<in> timings p obs ss es port i \<Longrightarrow> d \<le> d'"
    by auto
qed

lemma sweep_none:
  assumes "i < length ss"
  shows "m_rtt (sweep p obs ss es port ! i) = None \<longleftrightarrow> timings p obs ss es port i = {}"
proof -
  define cs where "cs = cands_for i
    (zip (map fst (tasks ss es port)) (probe_many p obs (map snd (tasks ss es port))))"
  have set: "set cs = timings p obs ss es port i"
    unfolding cs_def by (rule set_cands_sweep)
  have "m_rtt (sweep p obs ss es port ! i) = None \<longleftrightarrow> fold keep_faster cs None = None"
    using assms by (auto simp: sweep_nth cs_def [symmetric] to_measured_def split: option.splits)
  then show ?thesis by (simp add: fold_keep_faster_None flip: set)
qed

text \<open>A timing names one of the server's own entry addresses and never the excluded one.\<close>

lemma timings_endpoint:
  "(e, a, d) \<in> timings p obs ss es port i \<Longrightarrow>
     i < length ss \<and> (e, a) \<in> set (wg_endpoints (ss ! i) es port) \<and> pb_excluded p \<noteq> Some a"
  using mem_flatten_from [of i e a 0 ss es port] probe_excluded [of p a obs]
  by (auto simp: timings_def tasks_def) (metis nth_mem)+

section \<open>Properties\<close>

text \<open>C27: a sweep returns one measurement per server, in order. A server is
reported unreachable exactly when none of its entries gave a usable timing; otherwise its
measurement is one of its own entries' timings and none of them is shorter.\<close>

theorem sweep_times_each_server:
  assumes "i < length ss"
  shows "length (sweep p obs ss es port) = length ss \<and>
    m_server (sweep p obs ss es port ! i) = ss ! i \<and>
    (case m_rtt (sweep p obs ss es port ! i) of
       None \<Rightarrow> timings p obs ss es port i = {}
     | Some d \<Rightarrow>
         (m_entry (sweep p obs ss es port ! i), m_endpoint (sweep p obs ss es port ! i), d)
           \<in> timings p obs ss es port i \<and>
         (\<forall>(e, a, d')\<in>timings p obs ss es port i. d \<le> d'))"
  using assms sweep_none [OF assms] sweep_some [OF assms]
  by (auto split: option.split)

definition sample_handshake :: "duration \<Rightarrow> handshake_obs" where
  "sample_handshake d =
     \<lparr>ho_bind = None, ho_initiation = TWriteToNetwork [1], ho_send = None,
      ho_recv = RecvOk [2, 0, 0, 0] d, ho_decapsulate = TDone\<rparr>"

definition sample_prober :: prober where
  "sample_prober = prober_new sample_client probe_default"

definition sample_net :: net_obs where
  "sample_net = \<lparr>no_handshake = \<lambda>i n. sample_handshake (20 - i + n), no_join = \<lambda>_. None\<rparr>"

theorem sweep_times_each_server_witness:
  "m_server (sweep sample_prober sample_net [sample_server] WG_ENTRIES WG_PORT ! 0) = sample_server"
  using sweep_times_each_server [of 0 "[sample_server]" sample_prober sample_net WG_ENTRIES WG_PORT]
  by simp

text \<open>The endpoint the tunnel is using is never contacted: no
measurement that carries a timing names it, and every timed endpoint is an entry address of
the server it is reported for.\<close>

lemma connected_endpoint_is_not_probed:
  assumes "i < length ss" and "m_rtt (sweep p obs ss es port ! i) = Some d"
  shows "pb_excluded p \<noteq> Some (m_endpoint (sweep p obs ss es port ! i)) \<and>
    (m_entry (sweep p obs ss es port ! i), m_endpoint (sweep p obs ss es port ! i))
      \<in> set (wg_endpoints (ss ! i) es port)"
  using timings_endpoint [OF sweep_some(1) [OF assms]] by simp

lemma sample_sweep_rtt:
  "m_rtt (sweep sample_prober sample_net [sample_server] WG_ENTRIES WG_PORT ! 0) \<noteq> None"
  by code_simp

text \<open>The latency reported for a set of samples is one of them, with at
least half of the samples on either side.\<close>

lemma median_splits_samples:
  assumes "median ss = Some d"
  shows "d \<in> set ss \<and> length ss \<le> 2 * length (filter (\<lambda>x. x \<le> d) ss) \<and>
    length ss \<le> 2 * length (filter (\<lambda>x. d \<le> x) ss)"
  using median_mem [OF assms] median_middle [OF assms] by simp

end
