(* ===== verification/Throughput.thy ===== *)
theory Throughput
  imports Floats
begin

text \<open>
  \<^verbatim>\<open>vpnmgr-probe/src/throughput.rs\<close>: one download, timed after a warm-up. The HTTP library
  and the clock are observations: the chunks of the body in order, each with the clock
  readings its iteration makes.
\<close>

definition DEFAULT_BYTES :: u64 where "DEFAULT_BYTES = 25000000"
definition WARMUP_BYTES :: u64 where "WARMUP_BYTES = 2000000"

record tp_settings =
  ts_url :: string
  ts_bytes :: u64
  ts_timeout :: duration

definition tp_settings_default :: tp_settings where
  "tp_settings_default =
     \<lparr>ts_url = ''https://speed.cloudflare.com/__down?bytes='' @ show_nat (unat DEFAULT_BYTES),
      ts_bytes = DEFAULT_BYTES, ts_timeout = from_secs 30\<rparr>"

record throughput =
  th_mbps :: f64
  th_bytes :: u64
  th_elapsed :: duration
  th_truncated :: bool

definition from_parts :: "u64 \<Rightarrow> duration \<Rightarrow> bool \<Rightarrow> throughput" where
  "from_parts bytes took truncated =
     (let seconds = as_secs_f64 took;
          mbps = (if Fin 0 < seconds
                  then (f64_of_nat (unat bytes) * Fin 8) / seconds / Fin 1000000 else Fin 0)
      in \<lparr>th_mbps = mbps, th_bytes = bytes, th_elapsed = took, th_truncated = truncated\<rparr>)"

datatype tp_error =
    TpClient string
  | TpRequest string
  | TpStatus nat
  | TpTransfer string
  | NothingTransferred duration

text \<open>One item of the body's stream, with the instants read after it.\<close>

datatype chunk_event =
    Chunk nat instant instant \<comment> \<open>length, clock at the warm-up mark, clock at the timeout check\<close>
  | ChunkErr string

record tp_obs =
  to_build :: "string option"
  to_send :: "string option"
  to_status :: nat
  to_started :: instant
  to_events :: "chunk_event list"
  to_ended :: instant

record loop_state =
  ls_total :: u64
  ls_measuring_from :: "instant option"
  ls_measured :: u64
  ls_truncated :: bool

definition loop_init :: loop_state where
  "loop_init = \<lparr>ls_total = 0, ls_measuring_from = None, ls_measured = 0, ls_truncated = True\<rparr>"

text \<open>The bookkeeping of one chunk.\<close>

definition chunk_step :: "nat \<Rightarrow> instant \<Rightarrow> loop_state \<Rightarrow> loop_state" where
  "chunk_step n at_mark st =
     (let total = ls_total st + of_nat n in
      case ls_measuring_from st of
        None \<Rightarrow>
          if WARMUP_BYTES \<le> total
          then st\<lparr>ls_total := total, ls_measuring_from := Some at_mark\<rparr>
          else st\<lparr>ls_total := total\<rparr>
      | Some _ \<Rightarrow> st\<lparr>ls_total := total, ls_measured := ls_measured st + of_nat n\<rparr>)"

fun chunk_loop :: "tp_settings \<Rightarrow> instant \<Rightarrow> chunk_event list \<Rightarrow> loop_state \<Rightarrow> tp_error + loop_state" where
  "chunk_loop s started [] st = Inr st"
| "chunk_loop s started (ChunkErr e # es) st = Inl (TpTransfer e)"
| "chunk_loop s started (Chunk n at_mark at_check # es) st =
     (let st' = chunk_step n at_mark st in
      if ts_timeout s \<le> elapsed at_check started then Inr st'
      else if ts_bytes s \<le> ls_total st' then Inr (st'\<lparr>ls_truncated := False\<rparr>)
      else chunk_loop s started es st')"

text \<open>\<^verbatim>\<open>StatusCode::is_success\<close>.\<close>

definition is_success :: "nat \<Rightarrow> bool" where
  "is_success code \<longleftrightarrow> 200 \<le> code \<and> code < 300"

definition tp_measure :: "tp_settings \<Rightarrow> tp_obs \<Rightarrow> tp_error + throughput" where
  "tp_measure s ob =
     (case to_build ob of Some e \<Rightarrow> Inl (TpClient e) | None \<Rightarrow>
     (case to_send ob of Some e \<Rightarrow> Inl (TpRequest e) | None \<Rightarrow>
     if \<not> is_success (to_status ob) then Inl (TpStatus (to_status ob)) else
     (case chunk_loop s (to_started ob) (to_events ob) loop_init of
        Inl e \<Rightarrow> Inl e
      | Inr st \<Rightarrow>
          (let (bytes, took) =
             (case ls_measuring_from st of
                Some from_at \<Rightarrow> if 0 < ls_measured st then (ls_measured st, elapsed (to_ended ob) from_at)
                            else (ls_total st, elapsed (to_ended ob) (to_started ob))
              | None \<Rightarrow> (ls_total st, elapsed (to_ended ob) (to_started ob)))
           in if bytes = 0 then Inl (NothingTransferred (elapsed (to_ended ob) (to_started ob)))
              else Inr (from_parts bytes took (ls_truncated st))))))"

section \<open>Lemmas\<close>

lemma from_parts_mbps:
  "\<exists>r. th_mbps (from_parts b d t) = Fin r \<and> 0 \<le> r"
proof -
  have "(0::real) \<le> real (unat b) * 8 / (real d / 1000000000) / 1000000"
    by (intro divide_nonneg_nonneg mult_nonneg_nonneg of_nat_0_le_iff) simp_all
  then show ?thesis
    by (auto simp: from_parts_def Let_def as_secs_f64_def f64_of_nat_def)
qed

lemma measure_mbps: "tp_measure s ob = Inr t \<Longrightarrow> \<exists>r. th_mbps t = Fin r \<and> 0 \<le> r"
  using from_parts_mbps
  by (auto simp: tp_measure_def Let_def split: option.splits sum.splits if_splits prod.splits)

lemma measure_bytes: "tp_measure s ob = Inr t \<Longrightarrow> th_bytes t \<noteq> 0"
  by (auto simp: tp_measure_def Let_def from_parts_def split: option.splits sum.splits if_splits prod.splits)

text \<open>
  What the loop counts. \<open>chunks_of\<close> is the part of the stream the loop reads; the sums are
  exact while they fit in 64 bits.
\<close>

definition loop_inv :: "loop_state \<Rightarrow> bool" where
  "loop_inv st \<longleftrightarrow>
     ls_measured st \<le> ls_total st \<and>
     (ls_measuring_from st = None \<longrightarrow> ls_measured st = 0 \<and> ls_total st < WARMUP_BYTES) \<and>
     (ls_measuring_from st \<noteq> None \<longrightarrow> WARMUP_BYTES \<le> ls_total st - ls_measured st)"

fun event_bytes :: "chunk_event \<Rightarrow> nat" where
  "event_bytes (Chunk n _ _) = n"
| "event_bytes (ChunkErr _) = 0"

lemma loop_inv_init: "loop_inv loop_init"
  by (simp add: loop_inv_def loop_init_def WARMUP_BYTES_def)

lemma loop_inv_step:
  assumes inv: "loop_inv st" and small: "unat (ls_total st) + n < 2 ^ 64"
  shows "loop_inv (chunk_step n a st)" and "unat (ls_total (chunk_step n a st)) = unat (ls_total st) + n"
proof -
  have n: "unat (of_nat n :: u64) = n"
    using small by (simp add: unsigned_of_nat take_bit_nat_eq_self)
  have tot: "unat (ls_total st + of_nat n) = unat (ls_total st) + n"
    using small n by (simp add: unat_add_lem [THEN iffD1])
  show t: "unat (ls_total (chunk_step n a st)) = unat (ls_total st) + n"
    using tot by (simp add: chunk_step_def Let_def split: option.split)
  have le: "ls_total st \<le> ls_total st + of_nat n"
    using tot by (simp add: word_le_nat_alt)
  show "loop_inv (chunk_step n a st)"
  proof (cases "ls_measuring_from st")
    case None
    then show ?thesis
      using inv by (auto simp: loop_inv_def chunk_step_def Let_def)
  next
    case (Some b)
    have m: "ls_measured st \<le> ls_total st" using inv by (simp add: loop_inv_def)
    have "unat (ls_measured st) + unat (of_nat n :: u64) < 2 ^ LENGTH(64)"
      using m small n by (simp add: word_le_nat_alt)
    then have "unat (ls_measured st + of_nat n) = unat (ls_measured st) + n"
      using n unat_add_lem by metis
    then have "ls_measured st + of_nat n \<le> ls_total st + of_nat n"
      using m tot by (simp add: word_le_nat_alt)
    then show ?thesis
      using inv Some by (auto simp: loop_inv_def chunk_step_def Let_def)
  qed
qed

lemma chunk_loop_inv:
  assumes "chunk_loop s started es st = Inr st'" and "loop_inv st"
    and "unat (ls_total st) + sum_list (map event_bytes es) < 2 ^ 64"
  shows "loop_inv st' \<and> unat (ls_total st') \<le> unat (ls_total st) + sum_list (map event_bytes es)"
  using assms
proof (induction s started es st rule: chunk_loop.induct)
  case (3 s started n at_mark at_check es st)
  have small: "unat (ls_total st) + n < 2 ^ 64" using "3.prems"(3) by simp
  note step = loop_inv_step [OF "3.prems"(2) small, of at_mark]
  have upd: "loop_inv (x\<lparr>ls_truncated := False\<rparr>) = loop_inv x" for x
    by (simp add: loop_inv_def)
  show ?case
    using "3.prems" "3.IH" [OF refl] step upd
    by (auto simp: Let_def split: if_splits)
qed auto

text \<open>An untruncated result read the whole payload.\<close>

lemma chunk_loop_truncated:
  assumes "chunk_loop s started es st = Inr st'" and "ls_truncated st" and "\<not> ls_truncated st'"
  shows "ts_bytes s \<le> ls_total st'"
  using assms
proof (induction s started es st rule: chunk_loop.induct)
  case (3 s started n at_mark at_check es st)
  have "ls_truncated (chunk_step n at_mark st)"
    using "3.prems"(2) by (simp add: chunk_step_def Let_def split: option.split)
  then show ?case
    using "3.prems" "3.IH" [OF refl] by (auto simp: Let_def split: if_splits)
qed auto

section \<open>Properties\<close>

definition sample_settings :: tp_settings where
  "sample_settings = tp_settings_default\<lparr>ts_bytes := 3000000\<rparr>"

definition sample_download :: tp_obs where
  "sample_download =
     \<lparr>to_build = None, to_send = None, to_status = 200, to_started = 0,
      to_events = [Chunk 2000000 1000000000 1000000000, Chunk 1000000 1500000000 1500000000],
      to_ended = 2000000000\<rparr>"

definition loop_bytes :: "tp_obs \<Rightarrow> nat" where
  "loop_bytes ob = sum_list (map event_bytes (to_events ob))"

lemma measure_loop:
  assumes "tp_measure s ob = Inr t"
  obtains st where "chunk_loop s (to_started ob) (to_events ob) loop_init = Inr st"
    "th_truncated t = ls_truncated st" "th_bytes t = ls_measured st \<or> th_bytes t = ls_total st"
  using assms
  by (auto simp: tp_measure_def Let_def from_parts_def split: option.splits sum.splits if_splits prod.splits)

text \<open>C32: a measurement that succeeds reports a finite rate that is not
negative, over a number of bytes that is not zero and not more than the body held; unless it
is marked truncated, the whole payload asked for was read.\<close>

theorem measured_rate_is_sound:
  assumes "tp_measure s ob = Inr t" and "loop_bytes ob < 2 ^ 64"
  shows "(\<exists>r. th_mbps t = Fin r \<and> 0 \<le> r) \<and> th_bytes t \<noteq> 0 \<and> unat (th_bytes t) \<le> loop_bytes ob \<and>
    (\<not> th_truncated t \<longrightarrow> unat (ts_bytes s) \<le> loop_bytes ob)"
proof -
  obtain st where st: "chunk_loop s (to_started ob) (to_events ob) loop_init = Inr st"
      "th_truncated t = ls_truncated st" "th_bytes t = ls_measured st \<or> th_bytes t = ls_total st"
    using assms(1) by (rule measure_loop)
  have inv: "loop_inv st" "unat (ls_total st) \<le> loop_bytes ob"
    using chunk_loop_inv [OF st(1) loop_inv_init] assms(2) by (simp_all add: loop_init_def loop_bytes_def)
  have "unat (ls_measured st) \<le> unat (ls_total st)"
    using inv(1) by (simp add: loop_inv_def word_le_nat_alt)
  then have "unat (th_bytes t) \<le> loop_bytes ob" using st(3) inv(2) by auto
  moreover have "\<not> th_truncated t \<longrightarrow> unat (ts_bytes s) \<le> loop_bytes ob"
    using chunk_loop_truncated [OF st(1)] st(2) inv(2) by (auto simp: loop_init_def word_le_nat_alt)
  ultimately show ?thesis
    using measure_mbps [OF assms(1)] measure_bytes [OF assms(1)] by simp
qed

lemma sample_download_ok: "\<exists>t. tp_measure sample_settings sample_download = Inr t \<and> \<not> th_truncated t"
  by (simp add: tp_measure_def sample_download_def sample_settings_def tp_settings_default_def
      is_success_def chunk_step_def loop_init_def WARMUP_BYTES_def elapsed_def from_secs_def
      from_parts_def Let_def)

theorem measured_rate_is_sound_witness:
  "\<exists>t. tp_measure sample_settings sample_download = Inr t \<and> unat (th_bytes t) \<le> 3000000"
proof -
  obtain t where t: "tp_measure sample_settings sample_download = Inr t" using sample_download_ok by blast
  have b: "loop_bytes sample_download = 3000000" by (simp add: loop_bytes_def sample_download_def)
  from measured_rate_is_sound [OF t] show ?thesis using t b by simp
qed

end
