(* ===== verification/Ipc.thy ===== *)
theory Ipc
  imports Net Floats
begin

text \<open>
  \<^verbatim>\<open>vpnmgr-ipc/src/lib.rs\<close>: the requests and responses of the wire protocol and the
  records they carry. An error response carries the error value \<open>'e\<close> whose \<^verbatim>\<open>Display\<close> text
  is the message.
\<close>

datatype request =
    ReqStatus
  | ReqConnect "string option" "bool option"
  | ReqDisconnect
  | ReqSwitch string
  | ReqTest "string option"
  | ReqLastRanking "nat option"
  | ReqServers "string option" "nat option" bool
  | ReqReload
  | ReqVersion
  | ReqAutotune
  | ReqApprove
  | ReqDismiss
  | ReqSpeedtest
  | ReqBaseline bool
  | ReqKillswitch "bool option"

record ranked_server =
  rk_name :: string
  rk_country_code :: string
  rk_country_name :: string
  rk_location :: string
  rk_load :: u32
  rk_rtt_ms :: f64
  rk_score :: f64
  rk_entry :: u8
  rk_endpoint :: sockaddr
  rk_mbps :: "f64 option"
  rk_mbps_age_secs :: "nat option"
  rk_headroom_mbps :: u64

record server_summary =
  ss_name :: string
  ss_country_code :: string
  ss_country_name :: string
  ss_location :: string
  ss_load :: u32
  ss_users :: u32
  ss_healthy :: bool
  ss_headroom_mbps :: u64

record sweep_summary =
  sw_probed :: nat
  sw_reachable :: nat
  sw_elapsed_ms :: nat
  sw_age_secs :: nat
  sw_best :: "ranked_server option"
  sw_all_unreachable :: bool

record pending_switch =
  pd_to :: ranked_server
  pd_reason :: string
  pd_age_secs :: nat

record tune_report =
  tr_summary :: string
  tr_switched :: bool
  tr_pending :: "pending_switch option"
  tr_nothing_reachable :: bool

record speed_sample =
  sm_mbps :: f64
  sm_bytes :: u64
  sm_elapsed_ms :: nat
  sm_truncated :: bool

record speed_report =
  sr_tunnelled :: "speed_sample option"
  sr_direct :: "speed_sample option"
  sr_server :: "string option"
  sr_min_mbps :: f64
  sr_meets_target :: bool
  sr_verdict :: string

record killswitch_report =
  kr_engaged :: bool
  kr_configured :: bool
  kr_dropped :: "nat option"

record status_report =
  st_connected :: bool
  st_interface :: string
  st_server :: "string option"
  st_location :: "string option"
  st_country_code :: "string option"
  st_endpoint :: "sockaddr option"
  st_entry :: "u8 option"
  st_last_handshake_secs :: "nat option"
  st_healthy :: bool
  st_tx_bytes :: u64
  st_rx_bytes :: u64
  st_last_sweep :: "sweep_summary option"
  st_pending_switch :: "pending_switch option"
  st_last_tune :: "string option"
  st_next_tune_secs :: "nat option"
  st_config_path :: "string option"
  st_baseline_mbps :: "f64 option"
  st_baseline_age_secs :: "nat option"

datatype 'e response =
    RespStatus status_report
  | RespRanking "ranked_server list"
  | RespServers "server_summary list"
  | RespOk string
  | RespError 'e
  | RespVersion string
  | RespTuned tune_report
  | RespSpeed speed_report
  | RespKillswitch killswitch_report

text \<open>Requests that only read the daemon's state.\<close>

fun read_only :: "request \<Rightarrow> bool" where
  "read_only ReqStatus = True"
| "read_only (ReqLastRanking _) = True"
| "read_only ReqVersion = True"
| "read_only _ = False"

end
