(* ===== verification/Tuner.thy ===== *)
theory Tuner
  imports Config Score Ipc
begin

text \<open>
  \<^verbatim>\<open>vpnmgrd/src/tuner.rs\<close>: the auto-tuner's decision, a pure function of what a pass
  observed and of the settings.
\<close>

section \<open>Definitions\<close>

record current_obs =
  cu_name :: string
  cu_rtt_ms :: "f64 option"
  cu_score :: "f64 option"

record assessment =
  as_current :: "current_obs option"
  as_best :: "ranked_server option"
  as_probed :: nat
  as_declined_from :: "string option"

datatype reason =
    CurrentWentSilent
  | Degraded f64 u32 f64

datatype decision =
    DNotConnected
  | Healthy string f64
  | AlreadyBest string f64
  | NoBetterAvailable string f64 string f64 f64 bool
  | Switch ranked_server reason
  | Propose ranked_server reason
  | Blocked ranked_server reason
  | Suppressed ranked_server reason
  | NothingReachable nat

fun is_actionable :: "decision \<Rightarrow> bool" where
  "is_actionable (Switch _ _) = True"
| "is_actionable _ = False"

fun decision_target :: "decision \<Rightarrow> ranked_server option" where
  "decision_target (Switch s _) = Some s"
| "decision_target (Propose s _) = Some s"
| "decision_target (Blocked s _) = Some s"
| "decision_target (Suppressed s _) = Some s"
| "decision_target _ = None"

fun reason_describe :: "reason \<Rightarrow> string" where
  "reason_describe CurrentWentSilent = ''the current server stopped answering probes''"
| "reason_describe (Degraded rtt_ms threshold_ms improvement) =
     fmt_prec 1 rtt_ms @ ''ms is over the '' @ show_nat (unat threshold_ms) @
     ''ms limit and this is '' @ fmt_prec 0 (improvement * Fin 100) @ ''% better''"

fun describe :: "decision \<Rightarrow> string" where
  "describe DNotConnected = ''not connected; nothing to tune''"
| "describe (Healthy server rtt_ms) = server @ '' is healthy at '' @ fmt_prec 1 rtt_ms @ ''ms''"
| "describe (AlreadyBest server rtt_ms) =
     server @ '' is slow at '' @ fmt_prec 1 rtt_ms @
     ''ms, but it is still the best available; staying put''"
| "describe (NoBetterAvailable server rtt_ms best best_rtt_ms improvement local_link_suspect) =
     (if local_link_suspect
      then server @ '' is slow at '' @ fmt_prec 1 rtt_ms @
        ''ms, but so is every alternative (best '' @ best @ '' at '' @ fmt_prec 1 best_rtt_ms @
        ''ms). That points at this machine's connection rather than the VPN, so nothing was changed.''
      else server @ '' at '' @ fmt_prec 1 rtt_ms @ ''ms; best alternative '' @ best @ '' at '' @
        fmt_prec 1 best_rtt_ms @ ''ms is only '' @ fmt_prec 0 (improvement * Fin 100) @
        ''% better, below the threshold'')"
| "describe (Switch s reason) =
     ''switching to '' @ rk_name s @ '' ('' @ rk_location s @ ''): '' @ reason_describe reason"
| "describe (Propose s reason) =
     rk_name s @ '' ('' @ rk_location s @ '') looks better: '' @ reason_describe reason @
     ''. Run `vpnmgr approve` to move.''"
| "describe (Blocked s reason) =
     rk_name s @ '' would be better ('' @ reason_describe reason @
     ''), but autotune.switch_policy is \"never\"''"
| "describe (Suppressed s reason) =
     rk_name s @ '' still looks better ('' @ reason_describe reason @
     ''), but you dismissed that move recently, so it will not be raised again for now''"
| "describe (NothingReachable probed) =
     ''none of the '' @ show_nat probed @ '' probed servers answered; treating this as a local '' @
     ''connectivity problem rather than a reason to switch''"

definition act :: "switch_policy \<Rightarrow> ranked_server \<Rightarrow> reason \<Rightarrow> bool \<Rightarrow> decision" where
  "act policy dest reason already_declined =
     (case policy of
        Auto \<Rightarrow> Switch dest reason
      | Ask \<Rightarrow> if already_declined then Suppressed dest reason else Propose dest reason
      | Never \<Rightarrow> Blocked dest reason)"

definition limit_ms :: "autotune \<Rightarrow> f64" where
  "limit_ms a = f64_of_nat (unat (max_latency_ms a))"

definition improvement_of :: "f64 \<Rightarrow> f64 option \<Rightarrow> ranked_server \<Rightarrow> f64" where
  "improvement_of rtt_ms score best =
     (case score of
        Some s \<Rightarrow> relative_improvement s (rk_score best)
      | None \<Rightarrow>
          if rtt_ms \<le> f64_epsilon then Fin 0
          else fmax ((rtt_ms - rk_rtt_ms best) / rtt_ms) (Fin 0))"

definition decide :: "assessment \<Rightarrow> autotune \<Rightarrow> decision" where
  "decide a t =
     (case as_current a of
        None \<Rightarrow> DNotConnected
      | Some current \<Rightarrow>
     (case as_best a of
        None \<Rightarrow> NothingReachable (as_probed a)
      | Some best \<Rightarrow>
     (case cu_rtt_ms current of
        None \<Rightarrow> act (at_switch_policy t) best CurrentWentSilent False
      | Some rtt_ms \<Rightarrow>
          if rtt_ms \<le> limit_ms t then Healthy (cu_name current) rtt_ms
          else if rk_name best = cu_name current then AlreadyBest (cu_name current) rtt_ms
          else (let improvement = improvement_of rtt_ms (cu_score current) best in
            if improvement < improvement_threshold t
            then NoBetterAvailable (cu_name current) rtt_ms (rk_name best) (rk_rtt_ms best)
                   improvement (limit_ms t < rk_rtt_ms best)
            else act (at_switch_policy t) best
                   (Degraded rtt_ms (max_latency_ms t) improvement)
                   (as_declined_from a = Some (cu_name current))))))"

section \<open>Lemmas\<close>

lemma act_simps [simp]:
  "act Auto s r d = Switch s r"
  "act Ask s r d = (if d then Suppressed s r else Propose s r)"
  "act Never s r d = Blocked s r"
  by (simp_all add: act_def)

lemma is_actionable_iff: "is_actionable d \<longleftrightarrow> (\<exists>s r. d = Switch s r)"
  by (cases d) auto

lemma is_actionable_target: "is_actionable d \<Longrightarrow> \<exists>s. decision_target d = Some s"
  by (cases d) auto

lemma act_actionable: "is_actionable (act p s r d) \<longleftrightarrow> p = Auto"
  by (cases p) auto

lemma act_target [simp]: "decision_target (act p s r d) = Some s"
  by (cases p) auto

text \<open>When the tuner wants to move at all, and where to.\<close>

definition move_due :: "assessment \<Rightarrow> autotune \<Rightarrow> current_obs \<Rightarrow> ranked_server \<Rightarrow> bool" where
  "move_due a t cur best \<longleftrightarrow>
     as_current a = Some cur \<and> as_best a = Some best \<and>
     (case cu_rtt_ms cur of
        None \<Rightarrow> True
      | Some rtt \<Rightarrow>
          \<not> rtt \<le> limit_ms t \<and> rk_name best \<noteq> cu_name cur \<and>
          \<not> improvement_of rtt (cu_score cur) best < improvement_threshold t)"

lemma decide_target_iff:
  "decision_target (decide a t) = Some s \<longleftrightarrow> (\<exists>cur. move_due a t cur s)"
  by (auto simp: decide_def move_due_def Let_def split: option.splits if_splits)

lemma decide_actionable:
  "is_actionable (decide a t) \<longleftrightarrow>
     at_switch_policy t = Auto \<and> (\<exists>s. decision_target (decide a t) = Some s)"
  by (cases "at_switch_policy t")
    (auto simp: decide_def Let_def act_actionable split: option.splits)

lemma relative_improvement_bounds:
  assumes "unit_f64 a" and "unit_f64 b"
  shows "\<exists>r. relative_improvement a b = Fin r \<and> 0 \<le> r"
  using assms
  by (auto simp: unit_f64_def relative_improvement_def f64_epsilon_def)

lemma relative_improvement_not_NaN:
  assumes "is_fin a" and "is_fin b"
  shows "is_fin (relative_improvement a b)"
  using assms by (auto simp: is_fin_def relative_improvement_def f64_epsilon_def)

section \<open>Properties\<close>

text \<open>C18: the tuner names a server to move to exactly when a move is due, and
then always the best-ranked one: the current server has gone silent, or it is over the latency
limit, is not itself the best, and the best improves on it by at least the threshold. It
carries the move out itself exactly when, besides, the policy is \<^verbatim>\<open>auto\<close>.\<close>

theorem decide_moves_when_due:
  "(decision_target (decide a t) = Some s \<longleftrightarrow> (\<exists>cur. move_due a t cur s)) \<and>
   (is_actionable (decide a t) \<longleftrightarrow> at_switch_policy t = Auto \<and> (\<exists>cur best. move_due a t cur best))"
  by (auto simp: decide_actionable decide_target_iff)

text \<open>A proposal is raised exactly when the policy is \<^verbatim>\<open>ask\<close>, a move is
due, and it is not a move the user has lately turned down; a dismissal does not silence the
proposal to leave a server that no longer answers.\<close>

lemma proposals_respect_dismissal:
  "(\<exists>why. decide a t = Propose s why) \<longleftrightarrow>
     at_switch_policy t = Ask \<and>
     (\<exists>cur. move_due a t cur s \<and>
        \<not> (cu_rtt_ms cur \<noteq> None \<and> as_declined_from a = Some (cu_name cur)))"
  by (cases "at_switch_policy t")
    (auto simp: decide_def move_due_def Let_def act_def split: option.splits if_splits)

definition sample_ranked :: ranked_server where
  "sample_ranked =
     \<lparr>rk_name = ''Alioth'', rk_country_code = ''nl'', rk_country_name = ''Netherlands'',
      rk_location = ''Alblasserdam'', rk_load = 20, rk_rtt_ms = Fin 20, rk_score = Fin (9 / 10),
      rk_entry = 1, rk_endpoint = mk_sockaddr (V4 0xB99CAFAA) 1637, rk_mbps = None,
      rk_mbps_age_secs = None, rk_headroom_mbps = 16000\<rparr>"

text \<open>While the current server answers within the latency limit
the tuner reports it healthy and does nothing else, whatever else was measured and whatever
the policy.\<close>

lemma healthy_connection_is_left_alone:
  assumes "as_current a = Some cur" and "as_best a \<noteq> None" and "cu_rtt_ms cur = Some r"
    and "r \<le> limit_ms t"
  shows "decide a t = Healthy (cu_name cur) r \<and> decision_target (decide a t) = None"
  using assms by (auto simp: decide_def)

text \<open>A NaN improvement is not below the threshold, so it counts as a move that is due.\<close>

lemma nan_improvement_moves:
  assumes "as_current a = Some cur" and "as_best a = Some best" and "cu_rtt_ms cur = Some r"
    and "\<not> r \<le> limit_ms t" and "rk_name best \<noteq> cu_name cur" and "cu_score cur = Some sc"
    and "sc = NaN \<or> rk_score best = NaN" and "\<not> sc \<le> f64_epsilon"
  shows "move_due a t cur best"
proof -
  have "relative_improvement sc (rk_score best) = NaN"
    using assms(7,8) by (cases sc; cases "rk_score best") (auto simp: relative_improvement_def minus_f64_def)
  then show ?thesis using assms by (simp add: move_due_def improvement_of_def)
qed

end
