(* ===== verification/Sys.thy ===== *)
theory Sys
  imports Wgconf
begin

text \<open>
  The operating system as the tunnel backends use it: commands run with \<^verbatim>\<open>ip\<close> and
  \<^verbatim>\<open>nft\<close>, name resolution, and the WireGuard interface library. All are parameters, a
  record \<open>os\<close> of functions over a world \<open>'w\<close>. Every call that can change the machine is
  written to a trace beside the world, so that a theorem can speak of what was done and in
  which order, whatever the system answers.
\<close>

text \<open>Data handed to the WireGuard library.\<close>

record wg_peer =
  wp_public_key :: "u8 list"
  wp_endpoint :: "sockaddr option"
  wp_preshared_key :: "u8 list option"
  wp_keepalive :: "u16 option"
  wp_allowed_ips :: "(ipaddr \<times> u8) list"

record wg_iface =
  wi_name :: string
  wi_prvkey :: "u8 list"
  wi_addresses :: "(ipaddr \<times> u8) list"
  wi_port :: u16
  wi_peers :: "wg_peer list"
  wi_mtu :: "u32 option"
  wi_fwmark :: "u32 option"

record wg_peer_data =
  wd_endpoint :: "sockaddr option"
  wd_last_handshake :: "nat option" \<comment> \<open>nanoseconds since the Unix epoch\<close>
  wd_tx_bytes :: u64
  wd_rx_bytes :: u64

record wg_host =
  wh_peers :: "wg_peer_data list"
  wh_listen_port :: u16
  wh_fwmark :: "u32 option"

datatype wg_call =
    CreateInterface
  | RemoveInterface
  | ConfigureInterface wg_iface
  | ConfigurePeer wg_peer
  | ConfigureRouting "wg_peer list"
  | RemovePeer "u8 list"
  | ConfigureDns "ipaddr list" "string list"

datatype run_result =
    SpawnErr string
  | Exit bool string string \<comment> \<open>success, standard output, standard error\<close>

record 'w os =
  os_ip :: "string list \<Rightarrow> 'w \<Rightarrow> run_result \<times> 'w"
  os_nft :: "string list \<Rightarrow> string option \<Rightarrow> 'w \<Rightarrow> run_result \<times> 'w"
  os_resolve :: "string \<Rightarrow> 'w \<Rightarrow> ipaddr list option \<times> 'w"
  os_wg_open :: "string \<Rightarrow> 'w \<Rightarrow> string option \<times> 'w"
  os_wg :: "string \<Rightarrow> wg_call \<Rightarrow> 'w \<Rightarrow> string option \<times> 'w" \<comment> \<open>the error, if any\<close>
  os_wg_read :: "string \<Rightarrow> 'w \<Rightarrow> (string + wg_host) \<times> 'w"

text \<open>The effects, with whether the call succeeded.\<close>

datatype event =
    EvIp "string list" bool
  | EvNft string bool
  | EvWg string wg_call bool

record 'w sys =
  sys_world :: 'w
  sys_trace :: "event list"

definition emit :: "event \<Rightarrow> 'w \<Rightarrow> 'w sys \<Rightarrow> 'w sys" where
  "emit e w s = s\<lparr>sys_world := w, sys_trace := sys_trace s @ [e]\<rparr>"

definition exit_ok :: "run_result \<Rightarrow> bool" where
  "exit_ok r = (case r of SpawnErr _ \<Rightarrow> False | Exit ok _ _ \<Rightarrow> ok)"

text \<open>A query with \<^verbatim>\<open>ip\<close>: its output when it succeeds (\<^verbatim>\<open>ip_output\<close>).\<close>

definition ip_output :: "'w os \<Rightarrow> string list \<Rightarrow> 'w sys \<Rightarrow> string option \<times> 'w sys" where
  "ip_output os args s =
     (case os_ip os args (sys_world s) of
        (r, w) \<Rightarrow>
          ((case r of Exit ok out _ \<Rightarrow> if ok then Some out else None | SpawnErr _ \<Rightarrow> None),
           s\<lparr>sys_world := w\<rparr>))"

text \<open>A command that changes the routing state (\<^verbatim>\<open>run_ip\<close>).\<close>

definition run_ip :: "'w os \<Rightarrow> bool \<Rightarrow> string list \<Rightarrow> 'w sys \<Rightarrow> bool \<times> 'w sys" where
  "run_ip os v6 args s =
     (let argv = (if v6 then ''-6'' else ''-4'') # args in
      case os_ip os argv (sys_world s) of
        (r, w) \<Rightarrow> (exit_ok r, emit (EvIp argv (exit_ok r)) w s))"

definition wg_do :: "'w os \<Rightarrow> string \<Rightarrow> wg_call \<Rightarrow> 'w sys \<Rightarrow> string option \<times> 'w sys" where
  "wg_do os ifc c s =
     (case os_wg os ifc c (sys_world s) of
        (e, w) \<Rightarrow> (e, emit (EvWg ifc c (e = None)) w s))"

lemma emit_sel [simp]:
  "sys_world (emit e w s) = w"
  "sys_trace (emit e w s) = sys_trace s @ [e]"
  by (simp_all add: emit_def)

lemma ip_output_trace [simp]: "ip_output os args s = (r, s') \<Longrightarrow> sys_trace s' = sys_trace s"
  by (auto simp: ip_output_def split: prod.splits)

lemma run_ip_trace:
  "run_ip os v6 args s = (ok, s') \<Longrightarrow>
     sys_trace s' = sys_trace s @ [EvIp ((if v6 then ''-6'' else ''-4'') # args) ok]"
  by (auto simp: run_ip_def Let_def split: prod.splits)

lemma wg_do_trace:
  "wg_do os ifc c s = (e, s') \<Longrightarrow> sys_trace s' = sys_trace s @ [EvWg ifc c (e = None)]"
  by (auto simp: wg_do_def split: prod.splits)

end
