(* ===== verification/Tunnel.thy ===== *)
theory Tunnel
  imports Sys
begin

text \<open>
  \<^verbatim>\<open>vpnmgr-tunnel/src/lib.rs\<close>: the errors, the specification of a tunnel and the live
  status every backend reports.
\<close>

definition DEFAULT_FWMARK :: u32 where "DEFAULT_FWMARK = 51820"

definition DEFAULT_INTERFACE :: string where "DEFAULT_INTERFACE = ''vpnmgr0''"

datatype tunnel_error =
    Wireguard string string string
  | PermissionDenied string string
  | NotUp
  | BadInterfaceName string string
  | KillswitchErr string string

record tunnel_spec =
  tn_interface :: string
  tn_client :: client_config
  tn_endpoint :: sockaddr
  tn_fwmark :: u32

definition spec_new :: "client_config \<Rightarrow> sockaddr \<Rightarrow> tunnel_spec" where
  "spec_new c ep =
     \<lparr>tn_interface = DEFAULT_INTERFACE, tn_client = c, tn_endpoint = ep, tn_fwmark = DEFAULT_FWMARK\<rparr>"

definition spec_with_interface :: "string \<Rightarrow> tunnel_spec \<Rightarrow> tunnel_spec" where
  "spec_with_interface i s = s\<lparr>tn_interface := i\<rparr>"

definition spec_with_fwmark :: "u32 \<Rightarrow> tunnel_spec \<Rightarrow> tunnel_spec" where
  "spec_with_fwmark m s = s\<lparr>tn_fwmark := m\<rparr>"

definition is_ascii_alphanumeric :: "char \<Rightarrow> bool" where
  "is_ascii_alphanumeric c =
     (let n = of_char c :: nat in
      48 \<le> n \<and> n \<le> 57 \<or> 65 \<le> n \<and> n \<le> 90 \<or> 97 \<le> n \<and> n \<le> 122)"

definition spec_validate :: "tunnel_spec \<Rightarrow> tunnel_error + unit" where
  "spec_validate s =
     (let name = tn_interface s in
      if name = [] then Inl (BadInterfaceName name ''it is empty'')
      else if 16 \<le> length name
        then Inl (BadInterfaceName name ''Linux limits interface names to 15 characters'')
      else if \<not> list_all (\<lambda>c. is_ascii_alphanumeric c \<or> c = CHR ''-'' \<or> c = CHR ''_'') name
        then Inl (BadInterfaceName name ''only letters, digits, '-' and '_' are allowed'')
      else Inr ())"

record tunnel_status =
  tst_interface :: string
  tst_up :: bool
  tst_endpoint :: "sockaddr option"
  tst_last_handshake :: "nat option"
  tst_tx_bytes :: u64
  tst_rx_bytes :: u64
  tst_listen_port :: u16
  tst_fwmark :: "u32 option"

text \<open>\<^verbatim>\<open>SystemTime::duration_since\<close> fails when the other time is later.\<close>

definition duration_since :: "nat \<Rightarrow> nat \<Rightarrow> duration option" where
  "duration_since now at_time = (if at_time \<le> now then Some (now - at_time) else None)"

definition status_is_healthy :: "tunnel_status \<Rightarrow> nat \<Rightarrow> duration \<Rightarrow> bool" where
  "status_is_healthy s now max_age =
     (case tst_last_handshake s of
        None \<Rightarrow> False
      | Some h \<Rightarrow> (case duration_since now h of Some age \<Rightarrow> age \<le> max_age | None \<Rightarrow> True))"

lemma spec_default_valid:
  "spec_validate (spec_with_fwmark m (spec_with_interface DEFAULT_INTERFACE (spec_new c ep))) = Inr ()"
  by (simp add: spec_validate_def spec_with_fwmark_def spec_with_interface_def spec_new_def
      DEFAULT_INTERFACE_def is_ascii_alphanumeric_def Let_def)

lemma status_healthy_iff:
  "status_is_healthy s now m \<longleftrightarrow> (\<exists>h. tst_last_handshake s = Some h \<and> now \<le> h + m)"
  by (auto simp: status_is_healthy_def duration_since_def split: option.splits)

section \<open>Properties\<close>

text \<open>A live tunnel counts as healthy exactly when a handshake was seen
and it is not older than the limit; one the clock says lies in the future counts as recent.\<close>

lemma health_is_recent_handshake:
  "status_is_healthy s now m \<longleftrightarrow> (\<exists>h. tst_last_handshake s = Some h \<and> now \<le> h + m)"
  by (rule status_healthy_iff)

end
