(* ===== verification/Bypass.thy ===== *)
theory Bypass
  imports Sys
begin

text \<open>
  \<^verbatim>\<open>vpnmgr-tunnel/src/bypass.rs\<close> (the Linux commands): which destinations are routed
  around the tunnel, and installing and withdrawing those routes.
\<close>

section \<open>Routes\<close>

definition VPN_INTERFACES :: "string list" where
  "VPN_INTERFACES = [''tailscale'', ''tun'', ''tap'', ''wg'', ''ppp'', ''zt'']"

definition NEVER_MIRROR :: "string list" where
  "NEVER_MIRROR = [''fe80:'', ''ff00:'', ''169.254.'', ''224.0.0.'']"

definition PRIVATE_V4 :: "string list" where
  "PRIVATE_V4 = [''10.0.0.0/8'', ''172.16.0.0/12'', ''192.168.0.0/16'']"

definition PRIVATE_V6 :: "string list" where
  "PRIVATE_V6 = [''fc00::/7'']"

datatype via =
    Device string
  | Gateway string string

record route =
  rt_destination :: string
  rt_via :: via

definition has_char :: "char \<Rightarrow> string \<Rightarrow> bool" where
  "has_char c s \<longleftrightarrow> c \<in> set s"

definition route_is_v6 :: "route \<Rightarrow> bool" where
  "route_is_v6 r \<longleftrightarrow> has_char (CHR '':'') (rt_destination r)"

definition route_prefix :: "route \<Rightarrow> string" where
  "route_prefix r =
     (if has_char (CHR ''/'') (rt_destination r) then rt_destination r
      else if route_is_v6 r then rt_destination r @ ''/128''
      else rt_destination r @ ''/32'')"

definition add_args :: "route \<Rightarrow> string list" where
  "add_args r =
     [''route'', ''add'', rt_destination r] @
     (case rt_via r of
        Device dev \<Rightarrow> [''dev'', dev]
      | Gateway gateway device \<Rightarrow> [''via'', gateway, ''dev'', device])"

definition del_args :: "route \<Rightarrow> string list" where
  "del_args r = [''route'', ''del'', rt_destination r]"

record bypass_request =
  rq_cidrs :: "string list"
  rq_hosts :: "string list"
  rq_other_vpns :: bool
  rq_lan :: bool
  rq_tunnel_addresses :: "ipaddr list"
  rq_our_interface :: string

section \<open>Private ranges\<close>

definition mask32 :: "nat \<Rightarrow> 32 word" where
  "mask32 p = (if p = 0 then 0 else push_bit (32 - p) (- 1))"

definition mask128 :: "nat \<Rightarrow> 128 word" where
  "mask128 p = (if p = 0 then 0 else push_bit (128 - p) (- 1))"

definition cidr_contains :: "string \<Rightarrow> ipaddr \<Rightarrow> bool" where
  "cidr_contains cidr addr =
     (case split_once (\<lambda>c. c = CHR ''/'') cidr of
        None \<Rightarrow> False
      | Some (network, plen) \<Rightarrow>
     (case parse_unsigned (2 ^ 32) plen of
        None \<Rightarrow> False
      | Some p \<Rightarrow>
     (case (parse_ip network, addr) of
        (Some (V4 net), V4 a) \<Rightarrow> p \<le> 32 \<and> and net (mask32 p) = and a (mask32 p)
      | (Some (V6 net), V6 a) \<Rightarrow> p \<le> 128 \<and> and net (mask128 p) = and a (mask128 p)
      | _ \<Rightarrow> False)))"

definition lan_ranges :: "ipaddr list \<Rightarrow> string list" where
  "lan_ranges tunnel_addresses =
     filter (\<lambda>range. find (cidr_contains range) tunnel_addresses = None) (PRIVATE_V4 @ PRIVATE_V6)"

section \<open>Reading the routing table\<close>

fun scan_via_dev :: "string list \<Rightarrow> string option \<Rightarrow> string option \<Rightarrow> string option \<times> string option"
where
  "scan_via_dev [] g d = (g, d)"
| "scan_via_dev (t # ts) g d =
     (if t = ''via'' then (case ts of [] \<Rightarrow> (None, d) | x # r \<Rightarrow> scan_via_dev r (Some x) d)
      else if t = ''dev'' then (case ts of [] \<Rightarrow> (g, None) | x # r \<Rightarrow> scan_via_dev r g (Some x))
      else scan_via_dev ts g d)"

fun scan_dev :: "string list \<Rightarrow> string option \<Rightarrow> string option" where
  "scan_dev [] d = d"
| "scan_dev (t # ts) d =
     (if t = ''dev'' then (case ts of [] \<Rightarrow> None | x # r \<Rightarrow> scan_dev r (Some x))
      else scan_dev ts d)"

text \<open>The first line with both a gateway and a device.\<close>

fun first_gateway :: "string list \<Rightarrow> bool \<Rightarrow> (string \<times> string \<times> bool) list" where
  "first_gateway [] v6 = []"
| "first_gateway (l # ls) v6 =
     (case scan_via_dev (split_whitespace l) None None of
        (Some g, Some d) \<Rightarrow> [(g, d, v6)]
      | _ \<Rightarrow> first_gateway ls v6)"

definition default_gateways :: "'w os \<Rightarrow> 'w sys \<Rightarrow> (string \<times> string \<times> bool) list \<times> 'w sys" where
  "default_gateways os s0 =
     (case ip_output os [''-4'', ''route'', ''show'', ''default''] s0 of
        (t4, s1) \<Rightarrow>
     (case ip_output os [''-6'', ''route'', ''show'', ''default''] s1 of
        (t6, s2) \<Rightarrow>
          ((case t4 of None \<Rightarrow> [] | Some t \<Rightarrow> first_gateway (str_lines t) False) @
           (case t6 of None \<Rightarrow> [] | Some t \<Rightarrow> first_gateway (str_lines t) True), s2)))"

definition via_gateway :: "string \<Rightarrow> (string \<times> string \<times> bool) list \<Rightarrow> route option" where
  "via_gateway destination gateways =
     (let want_v6 = has_char (CHR '':'') destination in
      map_option (\<lambda>(g, d, _). \<lparr>rt_destination = destination, rt_via = Gateway g d\<rparr>)
        (find (\<lambda>(_, _, v6). v6 = want_v6) gateways))"

definition is_vpn_interface :: "string \<Rightarrow> bool" where
  "is_vpn_interface name = list_ex (starts_with name) VPN_INTERFACES"

text \<open>Words that are not a destination to mirror.\<close>

definition skip_destination :: "string \<Rightarrow> bool" where
  "skip_destination d \<longleftrightarrow>
     d \<in> set [''default'', ''multicast'', ''local'', ''broadcast'', ''unreachable'', ''prohibit'']
     \<or> list_ex (starts_with d) NEVER_MIRROR"

text \<open>One line of \<^verbatim>\<open>ip route show table all\<close>, with the destinations seen so far.\<close>

definition vpn_line :: "string \<Rightarrow> string \<Rightarrow> string set \<times> route list \<Rightarrow> string set \<times> route list" where
  "vpn_line our_interface line acc =
     (case acc of (seen, out) \<Rightarrow>
      (case split_whitespace line of
         [] \<Rightarrow> acc
       | destination # _ \<Rightarrow>
           if skip_destination destination then acc
           else (case scan_dev (split_whitespace line) None of
             None \<Rightarrow> acc
           | Some device \<Rightarrow>
               if device = our_interface \<or> \<not> is_vpn_interface device then acc
               else if destination \<in> seen then acc
               else (insert destination seen,
                     out @ [\<lparr>rt_destination = destination, rt_via = Device device\<rparr>]))))"

definition vpn_lines :: "string \<Rightarrow> string option \<Rightarrow> string set \<times> route list \<Rightarrow> string set \<times> route list"
where
  "vpn_lines our_interface txt acc =
     (case txt of None \<Rightarrow> acc | Some t \<Rightarrow> fold (vpn_line our_interface) (str_lines t) acc)"

definition other_vpn_routes :: "'w os \<Rightarrow> string \<Rightarrow> 'w sys \<Rightarrow> route list \<times> 'w sys" where
  "other_vpn_routes os our_interface s0 =
     (case ip_output os [''-4'', ''route'', ''show'', ''table'', ''all''] s0 of
        (t4, s1) \<Rightarrow>
     (case ip_output os [''-6'', ''route'', ''show'', ''table'', ''all''] s1 of
        (t6, s2) \<Rightarrow>
          (snd (vpn_lines our_interface t6 (vpn_lines our_interface t4 ({}, []))), s2)))"

definition resolve :: "'w os \<Rightarrow> string \<Rightarrow> 'w sys \<Rightarrow> ipaddr list \<times> 'w sys" where
  "resolve os host s =
     (case os_resolve os host (sys_world s) of
        (r, w) \<Rightarrow> ((case r of Some as \<Rightarrow> as | None \<Rightarrow> []), s\<lparr>sys_world := w\<rparr>))"

section \<open>The plan\<close>

text \<open>
  Planning, installing and withdrawing are one code for all platforms, over the functions
  that ask the system and change it; those are the arguments here.
\<close>

fun hosts_with :: "(string \<Rightarrow> 's \<Rightarrow> ipaddr list \<times> 's) \<Rightarrow> (string \<times> string \<times> bool) list \<Rightarrow> string list
    \<Rightarrow> 's \<Rightarrow> route list \<times> 's" where
  "hosts_with res gws [] s = ([], s)"
| "hosts_with res gws (h # hs) s =
     (case res h s of (as, s1) \<Rightarrow>
     (case hosts_with res gws hs s1 of (rs, s2) \<Rightarrow>
        (List.map_filter (\<lambda>a. via_gateway (show_ip a) gws) as @ rs, s2)))"

fun dedup :: "'a list \<Rightarrow> 'a list" where
  "dedup (a # b # xs) = (if a = b then dedup (a # xs) else a # dedup (b # xs))"
| "dedup xs = xs"

definition cmp_route :: "route \<Rightarrow> route \<Rightarrow> ordering" where
  "cmp_route a b = cmp_str (rt_destination a) (rt_destination b)"

definition plan_with :: "(string \<Rightarrow> 's \<Rightarrow> route list \<times> 's) \<Rightarrow> ('s \<Rightarrow> (string \<times> string \<times> bool) list \<times> 's)
    \<Rightarrow> (string \<Rightarrow> 's \<Rightarrow> ipaddr list \<times> 's) \<Rightarrow> bypass_request \<Rightarrow> 's \<Rightarrow> route list \<times> 's" where
  "plan_with other_vpns gateways res rq s0 =
     (case (if rq_other_vpns rq then other_vpns (rq_our_interface rq) s0 else ([], s0)) of
        (vpn, s1) \<Rightarrow>
     (case gateways s1 of
        (gws, s2) \<Rightarrow>
     (case hosts_with res gws (rq_hosts rq) s2 of
        (hosts, s3) \<Rightarrow>
          (dedup (sort_by cmp_route
             (vpn @
              (if rq_lan rq
               then List.map_filter (\<lambda>r. via_gateway r gws) (lan_ranges (rq_tunnel_addresses rq))
               else []) @
              List.map_filter (\<lambda>c. via_gateway c gws) (rq_cidrs rq) @ hosts)), s3))))"

definition plan :: "'w os \<Rightarrow> bypass_request \<Rightarrow> 'w sys \<Rightarrow> route list \<times> 'w sys" where
  "plan os = plan_with (other_vpn_routes os) (default_gateways os) (resolve os)"

section \<open>Installing and withdrawing\<close>

definition route_exists :: "'w os \<Rightarrow> route \<Rightarrow> 'w sys \<Rightarrow> bool \<times> 'w sys" where
  "route_exists os r s =
     (case ip_output os [(if route_is_v6 r then ''-6'' else ''-4''), ''route'', ''show'',
                         rt_destination r, ''table'', ''main''] s of
        (t, s1) \<Rightarrow> ((case t of None \<Rightarrow> False | Some txt \<Rightarrow> trim txt \<noteq> []), s1))"

definition sys_add :: "'w os \<Rightarrow> route \<Rightarrow> 'w sys \<Rightarrow> bool \<times> 'w sys" where
  "sys_add os r s = run_ip os (route_is_v6 r) (add_args r) s"

definition sys_del :: "'w os \<Rightarrow> route \<Rightarrow> 'w sys \<Rightarrow> bool \<times> 'w sys" where
  "sys_del os r s = run_ip os (route_is_v6 r) (del_args r) s"

text \<open>The state of \<^verbatim>\<open>Bypass\<close> is the routes it installed.\<close>

fun install_with :: "(route \<Rightarrow> 's \<Rightarrow> bool \<times> 's) \<Rightarrow> (route \<Rightarrow> 's \<Rightarrow> bool \<times> 's) \<Rightarrow> route list
    \<Rightarrow> route list \<Rightarrow> 's \<Rightarrow> route list \<times> 's" where
  "install_with present add [] installed s = (installed, s)"
| "install_with present add (r # rs) installed s =
     (case present r s of
        (True, s1) \<Rightarrow> install_with present add rs installed s1
      | (False, s1) \<Rightarrow>
          (case add r s1 of
             (ok, s2) \<Rightarrow> install_with present add rs (if ok then installed @ [r] else installed) s2))"

fun remove_with :: "(route \<Rightarrow> 's \<Rightarrow> bool \<times> 's) \<Rightarrow> route list \<Rightarrow> 's \<Rightarrow> route list \<times> 's" where
  "remove_with del [] s = ([], s)"
| "remove_with del (r # rs) s = (case del r s of (_, s1) \<Rightarrow> remove_with del rs s1)"

definition install :: "'w os \<Rightarrow> route list \<Rightarrow> route list \<Rightarrow> 'w sys \<Rightarrow> route list \<times> 'w sys" where
  "install os = install_with (route_exists os) (sys_add os)"

definition remove :: "'w os \<Rightarrow> route list \<Rightarrow> 'w sys \<Rightarrow> route list \<times> 'w sys" where
  "remove os = remove_with (sys_del os)"

lemma install_simps [simp]:
  "install os [] installed s = (installed, s)"
  "install os (r # rs) installed s =
     (case route_exists os r s of
        (True, s1) \<Rightarrow> install os rs installed s1
      | (False, s1) \<Rightarrow>
          (case sys_add os r s1 of
             (ok, s2) \<Rightarrow> install os rs (if ok then installed @ [r] else installed) s2))"
  by (simp_all add: install_def split: prod.split bool.split)

lemma remove_simps [simp]:
  "remove os [] s = ([], s)"
  "remove os (r # rs) s = (case sys_del os r s of (_, s1) \<Rightarrow> remove os rs s1)"
  by (simp_all add: remove_def split: prod.split)

text \<open>The removals are recorded by \<^verbatim>\<open>drain\<close>: whatever the answers are, nothing is left.\<close>

lemma remove_with_Nil: "fst (remove_with del rs s) = []"
  by (induction rs arbitrary: s) (auto split: prod.split)

definition destinations :: "route list \<Rightarrow> string list" where
  "destinations installed = map rt_destination installed"

section \<open>Lemmas\<close>

subsection \<open>Containment in a prefix\<close>

text \<open>The mask comparison is agreement on the bits above the prefix length.\<close>

lemma mask_agree:
  fixes a b :: "('a::len) word"
  shows "and a (push_bit n (- 1)) = and b (push_bit n (- 1)) \<longleftrightarrow> drop_bit n a = drop_bit n b"
proof -
  define M :: "'a word" where "M = push_bit n (- 1)"
  have bit: "bit M i \<longleftrightarrow> n \<le> i \<and> i < LENGTH('a)" for i
    unfolding M_def by (auto simp: bit_not_iff bit_mask_iff)
  have "(bit (and a M) i \<longleftrightarrow> bit (and b M) i) \<longleftrightarrow> (n \<le> i \<longrightarrow> (bit a i \<longleftrightarrow> bit b i))" for i
    by (auto simp: bit_and_iff bit dest: bit_imp_le_length)
  then have "and a M = and b M \<longleftrightarrow> (\<forall>i\<ge>n. bit a i \<longleftrightarrow> bit b i)"
    by (metis bit_eqI)
  also have "\<dots> \<longleftrightarrow> (\<forall>i. bit (drop_bit n a) i \<longleftrightarrow> bit (drop_bit n b) i)"
    by (simp add: bit_drop_bit_eq) (metis le_add1 le_iff_add)
  also have "\<dots> \<longleftrightarrow> drop_bit n a = drop_bit n b"
    by (metis bit_eqI)
  finally show ?thesis by (simp only: M_def)
qed

lemma drop_bit_all: "drop_bit LENGTH('a) (a :: ('a::len) word) = 0"
  by (rule bit_eqI) (auto simp: bit_drop_bit_eq dest: bit_imp_le_length)

lemma mask32_agree:
  "p \<le> 32 \<Longrightarrow> and a (mask32 p) = and b (mask32 p) \<longleftrightarrow> drop_bit (32 - p) a = drop_bit (32 - p) b"
  using mask_agree [of a "32 - p" b] drop_bit_all [of a] drop_bit_all [of b]
  by (auto simp: mask32_def)

lemma mask128_agree:
  "p \<le> 128 \<Longrightarrow>
     and a (mask128 p) = and b (mask128 p) \<longleftrightarrow> drop_bit (128 - p) a = drop_bit (128 - p) b"
  using mask_agree [of a "128 - p" b] drop_bit_all [of a] drop_bit_all [of b]
  by (auto simp: mask128_def)

text \<open>The prefix as a set of addresses.\<close>

fun in_prefix :: "ipaddr \<Rightarrow> nat \<Rightarrow> ipaddr \<Rightarrow> bool" where
  "in_prefix (V4 net) p (V4 a) \<longleftrightarrow> p \<le> 32 \<and> drop_bit (32 - p) net = drop_bit (32 - p) a"
| "in_prefix (V6 net) p (V6 a) \<longleftrightarrow> p \<le> 128 \<and> drop_bit (128 - p) net = drop_bit (128 - p) a"
| "in_prefix _ _ _ \<longleftrightarrow> False"

lemma no_slash: "CHR ''/'' \<notin> set (show_ip a)"
proof -
  have n: "CHR ''/'' \<notin> set (show_nat n)" for n
    using set_show_nat by (fastforce simp: is_digit_char_def)
  have h: "CHR ''/'' \<notin> set (show_hex n)" for n
  proof (induction n rule: show_hex.induct)
    case (1 n)
    have "hex_val (CHR ''/'') = None" by (simp add: hex_val_def)
    then have "CHR ''/'' \<noteq> hex_char k" if "k < 16" for k
      using hex_val_hex_char [OF that] by (metis option.distinct(1))
    then show ?case using 1 by (cases "n < 16") (auto simp: show_hex.simps [of n])
  qed
  have j: "CHR ''/'' \<notin> set (str_join '':'' xs)" if "\<forall>x\<in>set xs. CHR ''/'' \<notin> set x" for xs
    using that by (induction "'':''" xs rule: str_join.induct) auto
  have "CHR ''/'' \<notin> set (show_v4 v)" for v
    using n by (auto simp: show_v4_def octets_def)
  moreover have "CHR ''/'' \<notin> set (show_groups gs)" for gs
    unfolding show_groups_def by (rule j) (auto simp: h)
  ultimately show ?thesis
    by (cases a) (auto simp: show_v6_def Let_def split: prod.splits)
qed

lemma cidr_contains_show:
  assumes "p < 2 ^ 32"
  shows "cidr_contains (show_ip net @ ''/'' @ show_nat p) a \<longleftrightarrow> in_prefix net p a"
proof -
  have "split_once (\<lambda>c. c = CHR ''/'') (show_ip net @ CHR ''/'' # show_nat p)
      = Some (show_ip net, show_nat p)"
    using no_slash [of net] by (intro split_once_first) auto
  then have "cidr_contains (show_ip net @ ''/'' @ show_nat p) a =
      (case (Some net, a) of
        (Some (V4 net), V4 a) \<Rightarrow> p \<le> 32 \<and> and net (mask32 p) = and a (mask32 p)
      | (Some (V6 net), V6 a) \<Rightarrow> p \<le> 128 \<and> and net (mask128 p) = and a (mask128 p)
      | _ \<Rightarrow> False)"
    unfolding cidr_contains_def append_Cons append_Nil
    by (simp only: option.case prod.case parse_ip_show_ip parse_unsigned_show_nat [OF assms])
  then show ?thesis
    by (cases net; cases a) (auto simp only: prod.case option.case ipaddr.case in_prefix.simps
        mask32_agree mask128_agree)
qed

lemma lan_ranges_safe:
  "r \<in> set (lan_ranges as) \<longleftrightarrow>
     r \<in> set (PRIVATE_V4 @ PRIVATE_V6) \<and> (\<forall>a\<in>set as. \<not> cidr_contains r a)"
  by (auto simp: lan_ranges_def find_None_iff)

subsection \<open>The plan\<close>

definition vpn_ok :: "string \<Rightarrow> route \<Rightarrow> bool" where
  "vpn_ok ours r \<longleftrightarrow> \<not> skip_destination (rt_destination r) \<and>
     (\<exists>d. rt_via r = Device d \<and> d \<noteq> ours \<and> is_vpn_interface d)"

lemma vpn_line_inv: "list_all (vpn_ok ours) (snd acc) \<Longrightarrow> list_all (vpn_ok ours) (snd (vpn_line ours l acc))"
  by (auto simp: vpn_line_def vpn_ok_def split: prod.splits list.splits option.splits if_splits)

lemma vpn_lines_inv:
  "list_all (vpn_ok ours) (snd acc) \<Longrightarrow> list_all (vpn_ok ours) (snd (vpn_lines ours t acc))"
proof -
  have "list_all (vpn_ok ours) (snd acc) \<Longrightarrow>
      list_all (vpn_ok ours) (snd (fold (vpn_line ours) ls acc))" for ls
    by (induction ls arbitrary: acc) (simp_all add: vpn_line_inv)
  then show "list_all (vpn_ok ours) (snd acc) \<Longrightarrow> list_all (vpn_ok ours) (snd (vpn_lines ours t acc))"
    by (simp add: vpn_lines_def split: option.split)
qed

lemma other_vpn_routes_ok:
  "other_vpn_routes os ours s = (rs, s') \<Longrightarrow> r \<in> set rs \<Longrightarrow> vpn_ok ours r"
proof -
  have "list_all (vpn_ok ours) (snd (vpn_lines ours t6 (vpn_lines ours t4 ({}, []))))" for t4 t6
    by (simp add: vpn_lines_inv)
  then show "other_vpn_routes os ours s = (rs, s') \<Longrightarrow> r \<in> set rs \<Longrightarrow> vpn_ok ours r"
    by (auto simp: other_vpn_routes_def list_all_iff split: prod.splits)
qed

lemma set_dedup [simp]: "set (dedup xs) = set xs"
  by (induction xs rule: dedup.induct) auto

lemma dedup_hd: "xs \<noteq> [] \<Longrightarrow> dedup xs \<noteq> [] \<and> hd (dedup xs) = hd xs"
  by (induction xs rule: dedup.induct) auto

lemma dedup_adj: "Suc i < length (dedup xs) \<Longrightarrow> dedup xs ! i \<noteq> dedup xs ! Suc i"
proof (induction xs arbitrary: i rule: dedup.induct)
  case (1 a b xs)
  show ?case
  proof (cases "a = b")
    case True
    then show ?thesis using 1 by simp
  next
    case False
    have "dedup (b # xs) \<noteq> []" "hd (dedup (b # xs)) = b" using dedup_hd [of "b # xs"] by auto
    then have "dedup (b # xs) ! 0 = b" by (simp add: hd_conv_nth)
    then show ?thesis using False 1 by (cases i) auto
  qed
qed auto

lemma sorted_wrt_dedup: "sorted_wrt P xs \<Longrightarrow> sorted_wrt P (dedup xs)"
  by (induction xs rule: dedup.induct) auto

interpretation route_order: sort_order cmp_route
  by unfold_locales (unfold cmp_route_def [abs_def], intro total_cmps)

lemma plan_sorted: "plan os rq s = (rs, s') \<Longrightarrow> sorted_by cmp_route rs"
proof -
  have "sorted_by cmp_route (dedup (sort_by cmp_route xs))" for xs
    using route_order.sorted [of xs] sorted_wrt_dedup by (auto simp: sorted_by_def)
  then show "plan os rq s = (rs, s') \<Longrightarrow> sorted_by cmp_route rs"
    by (auto simp: plan_def plan_with_def split: prod.splits)
qed

subsection \<open>Installing and withdrawing\<close>

text \<open>The \<^verbatim>\<open>ip route del\<close> commands in a trace name only routes that were added by it.\<close>

definition route_ev :: "(route \<Rightarrow> string list) \<Rightarrow> route \<Rightarrow> bool \<Rightarrow> event" where
  "route_ev args r ok = EvIp ((if route_is_v6 r then ''-6'' else ''-4'') # args r) ok"

lemma sys_add_trace: "sys_add os r s = (ok, s') \<Longrightarrow> sys_trace s' = sys_trace s @ [route_ev add_args r ok]"
  unfolding sys_add_def route_ev_def by (rule run_ip_trace)

lemma sys_del_trace: "sys_del os r s = (ok, s') \<Longrightarrow> sys_trace s' = sys_trace s @ [route_ev del_args r ok]"
  unfolding sys_del_def route_ev_def by (rule run_ip_trace)

lemma route_exists_trace [simp]: "route_exists os r s = (b, s') \<Longrightarrow> sys_trace s' = sys_trace s"
  by (auto simp: route_exists_def split: prod.splits)

definition installed_by :: "route list \<Rightarrow> event list \<Rightarrow> bool" where
  "installed_by added es \<longleftrightarrow> (\<forall>r\<in>set added. route_ev add_args r True \<in> set es)"

text \<open>Withdrawing asks for every installed route once, in order, whatever each answer is.\<close>

lemma remove_spec:
  "remove os rs s = (rs', s') \<Longrightarrow>
     rs' = [] \<and> (\<exists>oks. length oks = length rs \<and>
       sys_trace s' = sys_trace s @ map (\<lambda>(r, ok). route_ev del_args r ok) (zip rs oks))"
proof (induction rs arbitrary: s)
  case (Cons r rs)
  obtain ok s1 where d: "sys_del os r s = (ok, s1)" by fastforce
  have "remove os rs s1 = (rs', s')" using Cons.prems d by simp
  from Cons.IH [OF this] obtain oks where "rs' = []" "length oks = length rs"
      "sys_trace s' = sys_trace s1 @ map (\<lambda>(r, ok). route_ev del_args r ok) (zip rs oks)"
    by auto
  then show ?case
    using sys_del_trace [OF d] by (intro conjI exI [of _ "ok # oks"]) simp_all
qed simp

section \<open>Properties\<close>

text \<open>C34: a range written as an address and a prefix length contains an
address exactly when both are of one family, the length fits it, and their leading bits agree.\<close>

theorem contains_is_prefix_match:
  assumes "p < 2 ^ 32"
  shows "cidr_contains (show_ip net @ ''/'' @ show_nat p) a \<longleftrightarrow> in_prefix net p a"
  by (rule cidr_contains_show [OF assms])

theorem contains_is_prefix_match_witness:
  "cidr_contains (show_ip (V4 0x0A000000) @ ''/'' @ show_nat 8) (V4 0x0A123456)"
  using contains_is_prefix_match [of 8 "V4 0x0A000000" "V4 0x0A123456"]
  by (simp add: drop_bit_eq_div word_of_nat_eq_iff)

text \<open>The private ranges routed around the tunnel are those of the
fixed list that hold none of the tunnel's own addresses and nameservers, so no such address
is ever routed outside the tunnel by them.\<close>

lemma lan_ranges_spare_the_tunnel:
  "r \<in> set (lan_ranges addresses) \<longleftrightarrow>
     r \<in> {''10.0.0.0/8'', ''172.16.0.0/12'', ''192.168.0.0/16'', ''fc00::/7''} \<and>
     \<not> (\<exists>a\<in>set addresses. cidr_contains r a)"
  using lan_ranges_safe [of r addresses] by (auto simp: PRIVATE_V4_def PRIVATE_V6_def)

text \<open>Where the routes of a plan come from.\<close>

definition plan_source :: "bypass_request \<Rightarrow> string \<Rightarrow> bool" where
  "plan_source rq d \<longleftrightarrow>
     d \<in> set (rq_cidrs rq) \<or> (rq_lan rq \<and> d \<in> set (lan_ranges (rq_tunnel_addresses rq)))"

lemma mem_map_filter: "r \<in> set (List.map_filter f xs) \<longleftrightarrow> (\<exists>x\<in>set xs. f x = Some r)"
  by (induction xs) (auto simp: List.map_filter_simps split: option.splits)

lemma via_gateway_dest: "via_gateway d gws = Some r \<Longrightarrow> rt_destination r = d \<and> (\<exists>g i. rt_via r = Gateway g i)"
  by (auto simp: via_gateway_def Let_def)

lemma hosts_with_via: "hosts_with res gws hs s = (rs, s') \<Longrightarrow> r \<in> set rs \<Longrightarrow>
    (\<exists>a. rt_destination r = show_ip a) \<and> (\<exists>g i. rt_via r = Gateway g i)"
proof (induction hs arbitrary: s s' rs)
  case (Cons h hs)
  then show ?case
    by (auto simp: mem_map_filter split: prod.splits) (use via_gateway_dest in blast)+
qed simp

definition mirrored :: "string \<Rightarrow> route \<Rightarrow> bool" where
  "mirrored ours r \<longleftrightarrow> vpn_ok ours r"

lemma plan_parts:
  assumes "plan os rq s = (rs, s')" and "r \<in> set rs"
  shows "rq_other_vpns rq \<and> mirrored (rq_our_interface rq) r \<or>
    (plan_source rq (rt_destination r) \<or> (\<exists>a. rt_destination r = show_ip a)) \<and>
    (\<exists>g i. rt_via r = Gateway g i)"
proof -
  obtain vpn s1 where v: "(if rq_other_vpns rq then other_vpn_routes os (rq_our_interface rq) s else ([], s)) = (vpn, s1)"
    by fastforce
  obtain gws s2 where g: "default_gateways os s1 = (gws, s2)" by fastforce
  obtain hosts s3 where h: "hosts_with (resolve os) gws (rq_hosts rq) s2 = (hosts, s3)" by fastforce
  have "r \<in> set vpn \<or> rq_lan rq \<and> (\<exists>d\<in>set (lan_ranges (rq_tunnel_addresses rq)). via_gateway d gws = Some r) \<or>
      (\<exists>d\<in>set (rq_cidrs rq). via_gateway d gws = Some r) \<or> r \<in> set hosts"
    using assms v g h by (auto simp: plan_def plan_with_def mem_map_filter split: if_splits)
  then show ?thesis
    using v other_vpn_routes_ok [of os "rq_our_interface rq" s vpn s1 r] hosts_with_via [OF h]
    by (auto simp: plan_source_def mirrored_def split: if_splits dest: via_gateway_dest)
qed


definition sample_os :: "unit os" where
  "sample_os =
     \<lparr>os_ip = \<lambda>args w.
        (if args = [''-4'', ''route'', ''show'', ''default'']
         then Exit True ''default via 192.168.1.1 dev eth0'' [] else Exit True [] [], w),
      os_nft = \<lambda>args script w. (Exit True [] [], w),
      os_resolve = \<lambda>host w. (None, w),
      os_wg_open = \<lambda>ifc w. (None, w),
      os_wg = \<lambda>ifc c w. (None, w),
      os_wg_read = \<lambda>ifc w. (Inl ''no such interface'', w)\<rparr>"

definition sample_sys :: "unit sys" where
  "sample_sys = \<lparr>sys_world = (), sys_trace = []\<rparr>"

definition sample_request :: bypass_request where
  "sample_request =
     \<lparr>rq_cidrs = [''203.0.113.0/24''], rq_hosts = [], rq_other_vpns = True, rq_lan = True,
      rq_tunnel_addresses = [V4 0x0A000002], rq_our_interface = ''vpnmgr0''\<rparr>"


text \<open>Withdrawing the installed routes asks for the removal of each of
them once, in order, whatever each answer is, and leaves none on record.\<close>

lemma withdrawal_is_complete:
  assumes "remove os rs s = (rs', s')"
  shows "rs' = [] \<and> (\<exists>oks. length oks = length rs \<and>
    sys_trace s' = sys_trace s @ map (\<lambda>(r, ok). route_ev del_args r ok) (zip rs oks))"
  by (rule remove_spec [OF assms])

end
