(* ===== verification/Killswitch.thy ===== *)
theory Killswitch
  imports Tunnel Bypass
begin

text \<open>
  \<^verbatim>\<open>vpnmgr-tunnel/src/killswitch.rs\<close>: the nftables script that confines traffic to the
  tunnel, and the commands that install and remove it. The rules are also given as data
  with the meaning \<^verbatim>\<open>nft\<close> documents for them (the first rule that matches decides), so
  that what is let through can be stated.
\<close>

section \<open>Definitions\<close>

definition TABLE :: string where "TABLE = ''vpnmgr''"

definition LAN_V4 :: string where "LAN_V4 = ''10.0.0.0/8, 172.16.0.0/12, 192.168.0.0/16''"
definition LAN_V6 :: string where "LAN_V6 = ''fc00::/7''"
definition LINK_V4 :: string where "LINK_V4 = ''169.254.0.0/16, 224.0.0.0/4, 255.255.255.255''"
definition LINK_V6 :: string where "LINK_V6 = ''fe80::/10, ff00::/8''"

record killswitch =
  kw_interface :: string
  kw_fwmark :: u32
  kw_allow_lan :: bool
  kw_bypass :: "string list"

definition ks_new :: "string \<Rightarrow> u32 \<Rightarrow> bool \<Rightarrow> killswitch" where
  "ks_new i m lan = \<lparr>kw_interface = i, kw_fwmark = m, kw_allow_lan = lan, kw_bypass = []\<rparr>"

definition ks_allowing :: "string list \<Rightarrow> killswitch \<Rightarrow> killswitch" where
  "ks_allowing ds k = k\<lparr>kw_bypass := ds\<rparr>"

definition nl :: string where "nl = [CHR 0x0A]"
definition quote :: string where "quote = [CHR 0x22]"

definition ks_script :: "killswitch \<Rightarrow> string" where
  "ks_script k =
     (let v4 = filter (\<lambda>d. \<not> has_char (CHR '':'') d) (kw_bypass k);
          v6 = filter (has_char (CHR '':'')) (kw_bypass k)
      in ''table inet '' @ TABLE @ '' {}'' @ nl @
         ''delete table inet '' @ TABLE @ nl @
         ''table inet '' @ TABLE @ '' {'' @ nl @
         ''  chain output {'' @ nl @
         ''    type filter hook output priority filter; policy accept;'' @ nl @
         ''    oifname '' @ quote @ ''lo'' @ quote @ '' accept'' @ nl @
         ''    oifname '' @ quote @ kw_interface k @ quote @ '' accept'' @ nl @
         ''    meta mark '' @ show_nat (unat (kw_fwmark k)) @ '' accept'' @ nl @
         ''    ip daddr { '' @ LINK_V4 @ '' } accept'' @ nl @
         ''    ip6 daddr { '' @ LINK_V6 @ '' } accept'' @ nl @
         ''    udp dport { 67, 68 } accept'' @ nl @
         (if kw_allow_lan k
          then ''    ip daddr { '' @ LAN_V4 @ '' } accept'' @ nl @
               ''    ip6 daddr { '' @ LAN_V6 @ '' } accept'' @ nl
          else []) @
         (if v4 \<noteq> [] then ''    ip daddr { '' @ str_join '', '' v4 @ '' } accept'' @ nl else []) @
         (if v6 \<noteq> [] then ''    ip6 daddr { '' @ str_join '', '' v6 @ '' } accept'' @ nl else []) @
         ''    counter drop'' @ nl @
         ''  }'' @ nl @ ''}'' @ nl)"

definition release_script :: string where
  "release_script = ''table inet '' @ TABLE @ '' {}'' @ nl @ ''delete table inet '' @ TABLE @ nl"

text \<open>Feeding a script to \<^verbatim>\<open>nft -f -\<close>.\<close>

definition nft :: "'w os \<Rightarrow> string \<Rightarrow> 'w sys \<Rightarrow> (string + unit) \<times> 'w sys" where
  "nft os script s =
     (case os_nft os [''-f'', ''-''] (Some script) (sys_world s) of
        (r, w) \<Rightarrow>
          ((case r of
              SpawnErr e \<Rightarrow> Inl (''could not run nft ('' @ e @ ''); the kill switch needs nftables installed'')
            | Exit ok _ err \<Rightarrow>
                if ok then Inr () else Inl (''nft rejected the ruleset: '' @ trim err)),
           emit (EvNft script (exit_ok r)) w s))"

definition ks_engage :: "'w os \<Rightarrow> killswitch \<Rightarrow> 'w sys \<Rightarrow> (tunnel_error + unit) \<times> 'w sys" where
  "ks_engage os k s =
     (case nft os (ks_script k) s of
        (Inl e, s') \<Rightarrow> (Inl (KillswitchErr ''engaging'' e), s')
      | (Inr _, s') \<Rightarrow> (Inr (), s'))"

definition ks_release :: "'w os \<Rightarrow> 'w sys \<Rightarrow> (tunnel_error + unit) \<times> 'w sys" where
  "ks_release os s =
     (case nft os release_script s of
        (Inl e, s') \<Rightarrow> (Inl (KillswitchErr ''releasing'' e), s')
      | (Inr _, s') \<Rightarrow> (Inr (), s'))"

definition list_args :: "string list" where
  "list_args = [''list'', ''table'', ''inet'', TABLE]"

definition ks_is_engaged :: "'w os \<Rightarrow> 'w sys \<Rightarrow> bool \<times> 'w sys" where
  "ks_is_engaged os s =
     (case os_nft os list_args None (sys_world s) of (r, w) \<Rightarrow> (exit_ok r, s\<lparr>sys_world := w\<rparr>))"

text \<open>\<^verbatim>\<open>str::split\<close> on a word: the piece after its first occurrence.\<close>

fun second_piece :: "string \<Rightarrow> string \<Rightarrow> string option" where
  "second_piece sep [] = None"
| "second_piece sep (c # s) =
     (if sep \<noteq> [] \<and> take (length sep) (c # s) = sep
      then Some (drop (length sep) (c # s)) else second_piece sep s)"

fun until_sep :: "string \<Rightarrow> string \<Rightarrow> string" where
  "until_sep sep [] = []"
| "until_sep sep (c # s) =
     (if take (length sep) (c # s) = sep then [] else c # until_sep sep s)"

definition parse_dropped :: "string \<Rightarrow> nat option" where
  "parse_dropped out =
     (case find (\<lambda>l. str_contains l ''drop'') (str_lines out) of
        None \<Rightarrow> None
      | Some line \<Rightarrow>
     (case second_piece ''packets'' line of
        None \<Rightarrow> None
      | Some rest \<Rightarrow>
     (case split_whitespace (until_sep ''packets'' rest) of
        [] \<Rightarrow> None
      | w # _ \<Rightarrow> parse_unsigned (2 ^ 64) w)))"

definition ks_dropped :: "'w os \<Rightarrow> 'w sys \<Rightarrow> nat option \<times> 'w sys" where
  "ks_dropped os s =
     (case os_nft os list_args None (sys_world s) of
        (r, w) \<Rightarrow>
          ((case r of SpawnErr _ \<Rightarrow> None | Exit _ out _ \<Rightarrow> parse_dropped out), s\<lparr>sys_world := w\<rparr>))"

definition recovery_hint :: string where
  "recovery_hint =
     ''the vpnmgr kill switch is still active, so direct internet access is '' @
     ''blocked. Clear it with `vpnmgr killswitch off`, or if the daemon is not '' @
     ''running: sudo nft delete table inet '' @ TABLE"

section \<open>The rules as data\<close>

datatype match_expr =
    OifName string
  | MetaMark u32
  | IpDaddr "string list"
  | Ip6Daddr "string list"
  | UdpDport "nat list"

definition link_v4 :: "string list" where
  "link_v4 = [''169.254.0.0/16'', ''224.0.0.0/4'', ''255.255.255.255'']"
definition link_v6 :: "string list" where "link_v6 = [''fe80::/10'', ''ff00::/8'']"

text \<open>What is accepted, in order; whatever is left is dropped.\<close>

definition accept_rules :: "killswitch \<Rightarrow> match_expr list" where
  "accept_rules k =
     [OifName ''lo'', OifName (kw_interface k), MetaMark (kw_fwmark k),
      IpDaddr link_v4, Ip6Daddr link_v6, UdpDport [67, 68]] @
     (if kw_allow_lan k then [IpDaddr PRIVATE_V4, Ip6Daddr PRIVATE_V6] else []) @
     (let v4 = filter (\<lambda>d. \<not> has_char (CHR '':'') d) (kw_bypass k) in
      if v4 \<noteq> [] then [IpDaddr v4] else []) @
     (let v6 = filter (has_char (CHR '':'')) (kw_bypass k) in
      if v6 \<noteq> [] then [Ip6Daddr v6] else [])"

fun render_match :: "match_expr \<Rightarrow> string" where
  "render_match (OifName i) = ''oifname '' @ quote @ i @ quote"
| "render_match (MetaMark m) = ''meta mark '' @ show_nat (unat m)"
| "render_match (IpDaddr ds) = ''ip daddr { '' @ str_join '', '' ds @ '' }''"
| "render_match (Ip6Daddr ds) = ''ip6 daddr { '' @ str_join '', '' ds @ '' }''"
| "render_match (UdpDport ps) = ''udp dport { '' @ str_join '', '' (map show_nat ps) @ '' }''"

definition render_rule :: "match_expr \<Rightarrow> string" where
  "render_rule m = ''    '' @ render_match m @ '' accept'' @ nl"

definition script_head :: string where
  "script_head =
     release_script @ ''table inet '' @ TABLE @ '' {'' @ nl @ ''  chain output {'' @ nl @
     ''    type filter hook output priority filter; policy accept;'' @ nl"

definition script_tail :: string where
  "script_tail = ''    counter drop'' @ nl @ ''  }'' @ nl @ ''}'' @ nl"

text \<open>A packet leaving the machine, and the rules' verdict on it.\<close>

record packet =
  pk_oif :: string
  pk_mark :: u32
  pk_daddr :: ipaddr
  pk_udp_dport :: "nat option"

text \<open>An element of an address set: a prefix, or a single address.\<close>

definition elem_matches :: "string \<Rightarrow> ipaddr \<Rightarrow> bool" where
  "elem_matches e a \<longleftrightarrow> cidr_contains e a \<or> parse_ip e = Some a"

fun match_holds :: "match_expr \<Rightarrow> packet \<Rightarrow> bool" where
  "match_holds (OifName i) p \<longleftrightarrow> pk_oif p = i"
| "match_holds (MetaMark m) p \<longleftrightarrow> pk_mark p = m"
| "match_holds (IpDaddr ds) p \<longleftrightarrow> is_ipv4 (pk_daddr p) \<and> (\<exists>d\<in>set ds. elem_matches d (pk_daddr p))"
| "match_holds (Ip6Daddr ds) p \<longleftrightarrow> is_ipv6 (pk_daddr p) \<and> (\<exists>d\<in>set ds. elem_matches d (pk_daddr p))"
| "match_holds (UdpDport ps) p \<longleftrightarrow> (\<exists>d. pk_udp_dport p = Some d \<and> d \<in> set ps)"

fun first_match :: "match_expr list \<Rightarrow> packet \<Rightarrow> bool" where
  "first_match [] p \<longleftrightarrow> False"
| "first_match (m # ms) p \<longleftrightarrow> match_holds m p \<or> first_match ms p"

definition lets_out :: "killswitch \<Rightarrow> packet \<Rightarrow> bool" where
  "lets_out k p \<longleftrightarrow> first_match (accept_rules k) p"

section \<open>Lemmas\<close>

lemma script_renders:
  "ks_script k = script_head @ concat (map render_rule (accept_rules k)) @ script_tail"
proof -
  have "str_join '', '' link_v4 = LINK_V4" "str_join '', '' link_v6 = LINK_V6"
    "str_join '', '' PRIVATE_V4 = LAN_V4" "str_join '', '' PRIVATE_V6 = LAN_V6"
    by (simp_all add: link_v4_def LINK_V4_def link_v6_def LINK_V6_def PRIVATE_V4_def LAN_V4_def
        PRIVATE_V6_def LAN_V6_def)
  moreover have "str_join '', '' (map show_nat [67, 68]) = ''67, 68''"
    by code_simp
  ultimately show ?thesis
    unfolding ks_script_def script_head_def script_tail_def accept_rules_def release_script_def
      render_rule_def Let_def
    by simp
qed

lemma first_match_iff: "first_match ms p \<longleftrightarrow> (\<exists>m\<in>set ms. match_holds m p)"
  by (induction ms) auto

lemma nft_trace:
  "nft os script s = (r, s') \<Longrightarrow>
     sys_trace s' = sys_trace s @ [EvNft script (r = Inr ())]"
  by (auto simp: nft_def exit_ok_def split: prod.splits run_result.splits if_splits)

lemma ks_engage_trace:
  "ks_engage os k s = (r, s') \<Longrightarrow> sys_trace s' = sys_trace s @ [EvNft (ks_script k) (r = Inr ())]"
  by (auto simp: ks_engage_def split: prod.splits sum.splits dest!: nft_trace)

lemma ks_release_trace:
  "ks_release os s = (r, s') \<Longrightarrow> sys_trace s' = sys_trace s @ [EvNft release_script (r = Inr ())]"
  by (auto simp: ks_release_def split: prod.splits sum.splits dest!: nft_trace)

section \<open>Properties\<close>

text \<open>The script handed to \<^verbatim>\<open>nft\<close> replaces the table by a chain that
holds exactly the accept rules, in order, followed by a drop of everything else.\<close>

lemma script_renders_rules:
  "ks_script k = script_head @ concat (map render_rule (accept_rules k)) @ script_tail"
  by (rule script_renders)

lemma first_match_append: "first_match (ms @ ms') p \<longleftrightarrow> first_match ms p \<or> first_match ms' p"
  by (induction ms) auto


end
