(* ===== verification/Daemon_State.thy ===== *)
theory Daemon_State
  imports Server_Filter Probe Throughput Tuner Killswitch
begin

text \<open>
  \<^verbatim>\<open>vpnmgrd/src/state.rs\<close>, first part: the daemon's state, what it asks of the outside,
  and the operations that measure and report. Everything outside the repository or behind
  the tunnel interface is a field of the environment, a function on a world \<open>'w\<close> that the
  state carries. An operation takes the state and returns a result or an error together
  with the new state.
\<close>

section \<open>The environment\<close>

text \<open>
  The tunnel crate as the daemon sees it: the trait \<^verbatim>\<open>TunnelBackend\<close> on handles \<open>'t\<close>, the
  bypass planner and the kill switch.
\<close>

record ('t, 'w) backend =
  tb_new :: "string \<Rightarrow> 'w \<Rightarrow> (tunnel_error + 't) \<times> 'w"
  tb_with_bypass :: "route list \<Rightarrow> 't \<Rightarrow> 't"
  tb_with_killswitch :: "killswitch \<Rightarrow> 't \<Rightarrow> 't"
  tb_up :: "'t \<Rightarrow> tunnel_spec \<Rightarrow> 'w \<Rightarrow> (tunnel_error + unit) \<times> 't \<times> 'w"
  tb_switch_endpoint :: "'t \<Rightarrow> tunnel_spec \<Rightarrow> 'w \<Rightarrow> (tunnel_error + unit) \<times> 't \<times> 'w"
  tb_down :: "'t \<Rightarrow> 'w \<Rightarrow> (tunnel_error + unit) \<times> 't \<times> 'w"
  tb_status :: "'t \<Rightarrow> 'w \<Rightarrow> (tunnel_error + tunnel_status) \<times> 'w"
  tb_drop :: "'t \<Rightarrow> 'w \<Rightarrow> 'w"
  tb_plan :: "bypass_request \<Rightarrow> 'w \<Rightarrow> route list \<times> 'w"
  tb_ks_engage :: "killswitch \<Rightarrow> 'w \<Rightarrow> (tunnel_error + unit) \<times> 'w"
  tb_ks_release :: "'w \<Rightarrow> (tunnel_error + unit) \<times> 'w"
  tb_ks_is_engaged :: "'w \<Rightarrow> bool \<times> 'w"
  tb_ks_dropped :: "'w \<Rightarrow> nat option \<times> 'w"

record ('t, 'w) env =
  ev_now :: "'w \<Rightarrow> instant"
  ev_wall :: "'w \<Rightarrow> nat" \<comment> \<open>\<^verbatim>\<open>SystemTime::now\<close>, nanoseconds since the Unix epoch\<close>
  ev_sleep :: "duration \<Rightarrow> 'w \<Rightarrow> 'w"
  ev_http_client :: "'w \<Rightarrow> string option" \<comment> \<open>the error of building an HTTP client\<close>
  ev_http_get :: "string \<Rightarrow> 'w \<Rightarrow> (string + string) \<times> 'w"
  ev_json :: "string \<Rightarrow> string + server_list"
  ev_read :: "'w \<Rightarrow> path \<Rightarrow> string + string"
  ev_toml :: "string \<Rightarrow> string + config"
  ev_b64 :: base64
  ev_net :: "prober \<Rightarrow> sockaddr list \<Rightarrow> 'w \<Rightarrow> net_obs \<times> 'w"
  ev_download :: "tp_settings \<Rightarrow> 'w \<Rightarrow> tp_obs \<times> 'w"
  ev_backend :: "('t, 'w) backend"

section \<open>Constants and data\<close>

definition SERVER_CACHE_TTL :: duration where "SERVER_CACHE_TTL = from_secs 300"
definition MAX_HANDSHAKE_AGE :: duration where "MAX_HANDSHAKE_AGE = from_secs 360"
definition DISMISSAL_COOLDOWN :: duration where "DISMISSAL_COOLDOWN = from_secs (4 * 60 * 60)"
definition CANDIDATE_READY_TIMEOUT :: duration where "CANDIDATE_READY_TIMEOUT = from_secs 30"

record connection =
  cn_server :: string
  cn_location :: string
  cn_country_code :: string
  cn_endpoint :: sockaddr
  cn_entry :: u8

definition connection_from :: "ranked_server \<Rightarrow> connection" where
  "connection_from s =
     \<lparr>cn_server = rk_name s, cn_location = rk_location s, cn_country_code = rk_country_code s,
      cn_endpoint = rk_endpoint s, cn_entry = rk_entry s\<rparr>"

datatype daemon_error =
    CoreErr core_error
  | TunnelErr tunnel_error
  | NotConnected
  | AlreadyConnected string
  | UnknownServer string
  | ServerUnreachable string
  | AllUnreachable nat
  | NoCandidatesMatch string
  | NoPendingSwitch
  | ThroughputErr tp_error
  | ConsentRequired

record ('t, 'w) dstate =
  ds_config :: config
  ds_config_path :: path
  ds_client :: client_config
  ds_servers :: "(server_list \<times> instant) option"
  ds_tunnel :: "'t option"
  ds_current :: "connection option"
  ds_last_sweep :: "(sweep_summary \<times> instant) option"
  ds_last_ranking :: "ranked_server list"
  ds_pending :: "(ranked_server \<times> string \<times> instant) option"
  ds_dismissed :: "(string \<times> instant) option"
  ds_throughput_seen :: "string \<Rightarrow> (f64 \<times> instant) option"
  ds_direct_mbps :: "(f64 \<times> instant) option"
  ds_last_tune :: "string option"
  ds_last_tune_at :: "instant option"
  ds_world :: 'w

definition now :: "('t, 'w) env \<Rightarrow> ('t, 'w) dstate \<Rightarrow> instant" where
  "now env st = ev_now env (ds_world st)"

text \<open>Seconds since an instant.\<close>

definition age_secs :: "('t, 'w) env \<Rightarrow> ('t, 'w) dstate \<Rightarrow> instant \<Rightarrow> nat" where
  "age_secs env st t = as_secs (elapsed (now env st) t)"

section \<open>Loading the configuration\<close>

definition load_all :: "('t, 'w) env \<Rightarrow> path \<Rightarrow> 'w \<Rightarrow> daemon_error + config \<times> client_config" where
  "load_all env path w =
     (case config_load (ev_read env w) (ev_toml env) path of
        Inl e \<Rightarrow> Inl (CoreErr e)
      | Inr config \<Rightarrow>
          (case load_client_config (ev_b64 env) (ev_read env w) config of
             Inl e \<Rightarrow> Inl (CoreErr e)
           | Inr client \<Rightarrow> Inr (config, client)))"

definition load :: "('t, 'w) env \<Rightarrow> path \<Rightarrow> 'w \<Rightarrow> daemon_error + ('t, 'w) dstate" where
  "load env path w =
     (case load_all env path w of
        Inl e \<Rightarrow> Inl e
      | Inr (config, client) \<Rightarrow>
          Inr \<lparr>ds_config = config, ds_config_path = path, ds_client = client,
               ds_servers = None, ds_tunnel = None, ds_current = None, ds_last_sweep = None,
               ds_last_ranking = [], ds_pending = None, ds_dismissed = None,
               ds_throughput_seen = Map.empty, ds_direct_mbps = None, ds_last_tune = None,
               ds_last_tune_at = None, ds_world = w\<rparr>)"

definition ranked_accepted :: "filters \<Rightarrow> ranked_server \<Rightarrow> bool" where
  "ranked_accepted f s \<longleftrightarrow> accepts (ruleset_new f) (rk_name s) (rk_country_code s) (rk_load s)"

definition apply_filters_to_cached_results :: "('t, 'w) dstate \<Rightarrow> ('t, 'w) dstate" where
  "apply_filters_to_cached_results st =
     (let f = cf_filters (ds_config st) in
      st\<lparr>ds_last_ranking := filter (ranked_accepted f) (ds_last_ranking st),
         ds_pending :=
           (case ds_pending st of
              Some (p, why, raised) \<Rightarrow>
                if \<not> ranked_accepted f p then None else Some (p, why, raised)
            | None \<Rightarrow> None)\<rparr>)"

definition reload :: "('t, 'w) env \<Rightarrow> ('t, 'w) dstate \<Rightarrow> (daemon_error + unit) \<times> ('t, 'w) dstate" where
  "reload env st =
     (case load_all env (ds_config_path st) (ds_world st) of
        Inl e \<Rightarrow> (Inl e, st)
      | Inr (config, client) \<Rightarrow>
          (Inr (), apply_filters_to_cached_results
             (st\<lparr>ds_config := config, ds_client := client, ds_servers := None\<rparr>)))"

section \<open>The server list\<close>

definition list_is_stale :: "('t, 'w) env \<Rightarrow> ('t, 'w) dstate \<Rightarrow> bool" where
  "list_is_stale env st =
     (case ds_servers st of
        None \<Rightarrow> True
      | Some (_, t) \<Rightarrow> SERVER_CACHE_TTL < elapsed (now env st) t)"

definition server_list :: "('t, 'w) env \<Rightarrow> ('t, 'w) dstate
    \<Rightarrow> (daemon_error + server_list) \<times> ('t, 'w) dstate" where
  "server_list env st =
     (if list_is_stale env st
      then (case client_new (ev_http_client env (ds_world st)) of
        Inl e \<Rightarrow> (Inl (CoreErr e), st)
      | Inr client \<Rightarrow>
     (case ev_http_get env (cl_url client) (ds_world st) of
        (answer, w) \<Rightarrow>
          (let st1 = st\<lparr>ds_world := w\<rparr> in
           case client_fetch (\<lambda>_. answer) (ev_json env) client of
             Inr l \<Rightarrow> (Inr l, st1\<lparr>ds_servers := Some (l, now env st1)\<rparr>)
           | Inl e \<Rightarrow>
               (case ds_servers st of
                  Some (l, _) \<Rightarrow> (Inr l, st1)
                | None \<Rightarrow> (Inl (CoreErr e), st1)))))
      else (Inr (fst (the (ds_servers st))), st))"

section \<open>Scoring and probing\<close>

definition direct_mbps :: "('t, 'w) dstate \<Rightarrow> f64 option" where
  "direct_mbps st = map_option fst (ds_direct_mbps st)"

definition record_direct :: "('t, 'w) env \<Rightarrow> f64 \<Rightarrow> ('t, 'w) dstate \<Rightarrow> ('t, 'w) dstate" where
  "record_direct env mbps st = st\<lparr>ds_direct_mbps := Some (mbps, now env st)\<rparr>"

definition scoring_of :: "('t, 'w) dstate \<Rightarrow> scoring" where
  "scoring_of st =
     (let a = cf_autotune (ds_config st) in
      scoring_new (at_weights a) (headroom_target_mbps a (direct_mbps st)))"

definition prober_of :: "('t, 'w) dstate \<Rightarrow> prober" where
  "prober_of st =
     (let p = prober_new (ds_client st) (cf_probe (ds_config st)) in
      case ds_current st of
        None \<Rightarrow> p
      | Some c \<Rightarrow> prober_excluding (cn_endpoint c) (prober_with_fwmark DEFAULT_FWMARK p))"

text \<open>The probing part of a sweep: the endpoints contacted and the timings.\<close>

definition run_sweep :: "('t, 'w) env \<Rightarrow> prober \<Rightarrow> server list \<Rightarrow> u16 \<Rightarrow> ('t, 'w) dstate
    \<Rightarrow> measured list \<times> ('t, 'w) dstate" where
  "run_sweep env p servers port st =
     (case ev_net env p (map snd (tasks servers WG_ENTRIES port)) (ds_world st) of
        (obs, w) \<Rightarrow> (Probe.sweep p obs servers WG_ENTRIES port, st\<lparr>ds_world := w\<rparr>))"

definition rtt_millis :: "duration \<Rightarrow> f64" where
  "rtt_millis d = as_secs_f64 d * Fin 1000"

definition to_ranked :: "('t, 'w) env \<Rightarrow> ('t, 'w) dstate \<Rightarrow> scored \<Rightarrow> ranked_server" where
  "to_ranked env st s =
     (let srv = sd_server s; seen = ds_throughput_seen st (srv_name srv) in
      \<lparr>rk_name = srv_name srv, rk_country_code = country_code srv,
       rk_country_name = country_name srv, rk_location = srv_location srv, rk_load = srv_load srv,
       rk_rtt_ms = rtt_millis (sd_rtt s), rk_score = sd_score s, rk_entry = sd_entry s,
       rk_endpoint = sd_endpoint s,
       rk_mbps = map_option fst seen,
       rk_mbps_age_secs = map_option (\<lambda>(_, t). age_secs env st t) seen,
       rk_headroom_mbps = headroom_mbps srv\<rparr>)"

definition sweep_filters :: "filters \<Rightarrow> string option \<Rightarrow> filters" where
  "sweep_filters f country =
     (case country of None \<Rightarrow> f | Some c \<Rightarrow> f\<lparr>country_whitelist := [c]\<rparr>)"

definition summary_text :: "selection \<Rightarrow> string" where
  "summary_text sel =
     str_join '', '' (map (\<lambda>(reason, n). show_nat n @ '' '' @ reason) (rejection_summary sel))"

definition sweep :: "('t, 'w) env \<Rightarrow> string option \<Rightarrow> ('t, 'w) dstate
    \<Rightarrow> (daemon_error + ranked_server list) \<times> ('t, 'w) dstate" where
  "sweep env country st =
     (let scoring = scoring_of st;
          filters = sweep_filters (cf_filters (ds_config st)) country;
          port = ap_port (cf_airvpn (ds_config st));
          prober = prober_of st
      in case server_list env st of
        (Inl e, st1) \<Rightarrow> (Inl e, st1)
      | (Inr l, st1) \<Rightarrow>
     (let selection = filter_apply l filters in
      if sel_is_empty selection then (Inl (NoCandidatesMatch (summary_text selection)), st1)
      else
     (let started = now env st1 in
      case run_sweep env prober (sel_accepted selection) port st1 of
        (measured, st2) \<Rightarrow>
     (let took = elapsed (now env st2) started;
          probed = length measured;
          reachable = length (filter (\<lambda>m. m_rtt m \<noteq> None) measured);
          ranked = rank measured scoring;
          best = (case ranked of [] \<Rightarrow> None | s # _ \<Rightarrow> Some (to_ranked env st2 s));
          st3 = st2\<lparr>ds_last_sweep := Some
            (\<lparr>sw_probed = probed, sw_reachable = reachable, sw_elapsed_ms = as_millis took,
              sw_age_secs = 0, sw_best = best, sw_all_unreachable = (reachable = 0)\<rparr>,
             now env st2)\<rparr>
      in if reachable = 0 then (Inl (AllUnreachable probed), st3)
         else (let ranking = map (to_ranked env st2) ranked in
               (Inr ranking, st3\<lparr>ds_last_ranking := ranking\<rparr>))))))"

text \<open>One named server; a timing keeps its throughput only if one was recorded.\<close>

definition probe_named :: "('t, 'w) env \<Rightarrow> string \<Rightarrow> ('t, 'w) dstate
    \<Rightarrow> (daemon_error + ranked_server) \<times> ('t, 'w) dstate" where
  "probe_named env name st =
     (let port = ap_port (cf_airvpn (ds_config st));
          scoring = scoring_of st;
          prober = prober_of st
      in case server_list env st of
        (Inl e, st1) \<Rightarrow> (Inl e, st1)
      | (Inr l, st1) \<Rightarrow>
     (case get_server l name of
        None \<Rightarrow> (Inl (UnknownServer name), st1)
      | Some server \<Rightarrow>
     (case run_sweep env prober [server] port st1 of
        (measured, st2) \<Rightarrow>
          (case rank measured scoring of
             [] \<Rightarrow> (Inl (ServerUnreachable name), st2)
           | s # _ \<Rightarrow> (Inr (to_ranked env st2 s), st2)))))"

section \<open>Throughput figures\<close>

definition set_mbps :: "f64 \<Rightarrow> nat \<Rightarrow> ranked_server \<Rightarrow> ranked_server" where
  "set_mbps mbps age r = r\<lparr>rk_mbps := Some mbps, rk_mbps_age_secs := Some age\<rparr>"

definition record_throughput :: "('t, 'w) env \<Rightarrow> string \<Rightarrow> f64 \<Rightarrow> ('t, 'w) dstate \<Rightarrow> ('t, 'w) dstate"
where
  "record_throughput env server mbps st =
     st\<lparr>ds_throughput_seen := (ds_throughput_seen st)(server \<mapsto> (mbps, now env st)),
        ds_last_ranking :=
          map (\<lambda>r. if rk_name r = server then set_mbps mbps 0 r else r) (ds_last_ranking st)\<rparr>"

definition truncate :: "nat option \<Rightarrow> 'a list \<Rightarrow> 'a list" where
  "truncate limit xs = (case limit of Some n \<Rightarrow> take n xs | None \<Rightarrow> xs)"

definition last_ranking :: "('t, 'w) env \<Rightarrow> nat option \<Rightarrow> ('t, 'w) dstate \<Rightarrow> ranked_server list" where
  "last_ranking env limit st =
     truncate limit
       (map (\<lambda>r. case ds_throughput_seen st (rk_name r) of
                   Some (mbps, t) \<Rightarrow> set_mbps mbps (age_secs env st t) r
                 | None \<Rightarrow> r)
          (ds_last_ranking st))"

text \<open>One download, converted for the wire.\<close>

definition measure_speed :: "('t, 'w) env \<Rightarrow> tp_settings \<Rightarrow> ('t, 'w) dstate
    \<Rightarrow> (daemon_error + speed_sample) \<times> ('t, 'w) dstate" where
  "measure_speed env settings st =
     (case ev_download env settings (ds_world st) of
        (obs, w) \<Rightarrow>
          ((case tp_measure settings obs of
              Inl e \<Rightarrow> Inl (ThroughputErr e)
            | Inr t \<Rightarrow> Inr \<lparr>sm_mbps = th_mbps t, sm_bytes = th_bytes t,
                            sm_elapsed_ms = as_millis (th_elapsed t),
                            sm_truncated = th_truncated t\<rparr>),
           st\<lparr>ds_world := w\<rparr>))"

definition throughput_settings :: "('t, 'w) dstate \<Rightarrow> tp_settings" where
  "throughput_settings st =
     (let t = cf_throughput (ds_config st) in
      \<lparr>ts_url = request_url t, ts_bytes = tp_bytes t,
       ts_timeout = from_secs (unat (tp_timeout_secs t))\<rparr>)"

definition select_settings :: "('t, 'w) dstate \<Rightarrow> tp_settings" where
  "select_settings st =
     (let t = cf_throughput (ds_config st) in
      \<lparr>ts_url = request_url_for t (tp_select_bytes t), ts_bytes = tp_select_bytes t,
       ts_timeout = from_secs (unat (tp_timeout_secs t))\<rparr>)"

section \<open>Listing servers\<close>

definition summary_of :: "server \<Rightarrow> server_summary" where
  "summary_of s =
     \<lparr>ss_name = srv_name s, ss_country_code = country_code s, ss_country_name = country_name s,
      ss_location = srv_location s, ss_load = srv_load s, ss_users = srv_users s,
      ss_healthy = is_healthy s, ss_headroom_mbps = headroom_mbps s\<rparr>"

definition cmp_by_load :: "server_summary \<Rightarrow> server_summary \<Rightarrow> ordering" where
  "cmp_by_load a b =
     then_with (cmp_nat (unat (ss_load a)) (unat (ss_load b))) (cmp_str (ss_name a) (ss_name b))"

interpretation load_order: sort_order cmp_by_load
  by unfold_locales (unfold cmp_by_load_def [abs_def], intro total_cmps)

definition lists_server :: "filters \<Rightarrow> string option \<Rightarrow> bool \<Rightarrow> server \<Rightarrow> bool" where
  "lists_server f wanted all s =
     (if all
      then (case wanted of None \<Rightarrow> True | Some c \<Rightarrow> eq_ignore_ascii_case (country_code s) c)
      else is_healthy s \<and>
        accepts (ruleset_new (sweep_filters f wanted)) (srv_name s) (country_code s) (srv_load s))"

definition servers :: "('t, 'w) env \<Rightarrow> string option \<Rightarrow> nat option \<Rightarrow> bool \<Rightarrow> ('t, 'w) dstate
    \<Rightarrow> (daemon_error + server_summary list) \<times> ('t, 'w) dstate" where
  "servers env country limit all st =
     (let wanted = map_option (\<lambda>c. to_ascii_lowercase (trim c)) country in
      case server_list env st of
        (Inl e, st1) \<Rightarrow> (Inl e, st1)
      | (Inr l, st1) \<Rightarrow>
          (Inr (truncate limit
             (sort_by cmp_by_load
               (map summary_of
                 (filter (lists_server (cf_filters (ds_config st)) wanted all) (sl_servers l))))),
           st1))"

section \<open>Status\<close>

definition time_until_next_tune :: "('t, 'w) env \<Rightarrow> ('t, 'w) dstate \<Rightarrow> duration" where
  "time_until_next_tune env st =
     (let i = interval (cf_autotune (ds_config st)) in
      case ds_last_tune_at st of
        None \<Rightarrow> min i (from_secs 60)
      | Some t \<Rightarrow> i - elapsed (now env st) t)"

definition pending_switch_of :: "('t, 'w) env \<Rightarrow> ('t, 'w) dstate \<Rightarrow> pending_switch option" where
  "pending_switch_of env st =
     map_option (\<lambda>(s, reason, t). \<lparr>pd_to = s, pd_reason = reason, pd_age_secs = age_secs env st t\<rparr>)
       (ds_pending st)"

definition status_base :: "('t, 'w) env \<Rightarrow> ('t, 'w) dstate \<Rightarrow> status_report" where
  "status_base env st =
     \<lparr>st_connected = False, st_interface = DEFAULT_INTERFACE, st_server = None,
      st_location = None, st_country_code = None, st_endpoint = None, st_entry = None,
      st_last_handshake_secs = None, st_healthy = False, st_tx_bytes = 0, st_rx_bytes = 0,
      st_last_sweep =
        map_option (\<lambda>(s, t). s\<lparr>sw_age_secs := age_secs env st t\<rparr>) (ds_last_sweep st),
      st_pending_switch = pending_switch_of env st,
      st_last_tune = ds_last_tune st,
      st_next_tune_secs = Some (as_secs (time_until_next_tune env st)),
      st_config_path = Some (ds_config_path st),
      st_baseline_mbps = direct_mbps st,
      st_baseline_age_secs = map_option (\<lambda>(_, t). age_secs env st t) (ds_direct_mbps st)\<rparr>"

definition status :: "('t, 'w) env \<Rightarrow> ('t, 'w) dstate \<Rightarrow> status_report \<times> ('t, 'w) dstate" where
  "status env st =
     (case ds_current st of
        None \<Rightarrow> (status_base env st, st)
      | Some c \<Rightarrow>
     (case (case ds_tunnel st of
              None \<Rightarrow> (None, ds_world st)
            | Some t \<Rightarrow>
                (case tb_status (ev_backend env) t (ds_world st) of
                   (Inr s, w) \<Rightarrow> (Some s, w)
                 | (Inl _, w) \<Rightarrow> (None, w))) of
        (live, w) \<Rightarrow>
     (let st1 = st\<lparr>ds_world := w\<rparr>; wall = ev_wall env w in
      ((status_base env st1)
         \<lparr>st_connected := True, st_server := Some (cn_server c),
          st_location := Some (cn_location c), st_country_code := Some (cn_country_code c),
          st_endpoint := (case Option.bind live tst_endpoint of
                            Some a \<Rightarrow> Some a | None \<Rightarrow> Some (cn_endpoint c)),
          st_entry := Some (cn_entry c),
          st_last_handshake_secs :=
            map_option as_secs (Option.bind (Option.bind live tst_last_handshake) (duration_since wall)),
          st_healthy := (case live of None \<Rightarrow> False
                         | Some s \<Rightarrow> status_is_healthy s wall MAX_HANDSHAKE_AGE),
          st_tx_bytes := (case live of Some s \<Rightarrow> tst_tx_bytes s | None \<Rightarrow> 0),
          st_rx_bytes := (case live of Some s \<Rightarrow> tst_rx_bytes s | None \<Rightarrow> 0)\<rparr>, st1))))"

definition is_connected :: "('t, 'w) dstate \<Rightarrow> bool" where
  "is_connected st \<longleftrightarrow> ds_current st \<noteq> None"

end
