(* ===== verification/Daemon_Connect.thy ===== *)
theory Daemon_Connect
  imports Daemon_State
begin

text \<open>
  \<^verbatim>\<open>vpnmgrd/src/state.rs\<close>, second part: the operations that move the tunnel, and the
  measurements that drop and restore it.
\<close>

section \<open>Building and moving the tunnel\<close>

definition spec_for :: "('t, 'w) dstate \<Rightarrow> ranked_server \<Rightarrow> tunnel_spec" where
  "spec_for st chosen =
     spec_with_fwmark DEFAULT_FWMARK
       (spec_with_interface DEFAULT_INTERFACE (spec_new (ds_client st) (rk_endpoint chosen)))"

definition bypass_request_of :: "('t, 'w) dstate \<Rightarrow> bypass_request" where
  "bypass_request_of st =
     (let b = cf_bypass (ds_config st); c = ds_client st in
      \<lparr>rq_cidrs = by_cidrs b, rq_hosts = by_hosts b, rq_other_vpns = by_other_vpns b,
       rq_lan = by_lan b, rq_tunnel_addresses = cc_dns c @ map c_addr (cc_addresses c),
       rq_our_interface = DEFAULT_INTERFACE\<rparr>)"

definition configured_killswitch :: "('t, 'w) dstate \<Rightarrow> killswitch" where
  "configured_killswitch st =
     ks_new DEFAULT_INTERFACE DEFAULT_FWMARK (ks_allow_lan (cf_killswitch (ds_config st)))"

definition new_tunnel :: "('t, 'w) env \<Rightarrow> ('t, 'w) dstate \<Rightarrow> (daemon_error + 't) \<times> ('t, 'w) dstate"
where
  "new_tunnel env st =
     (let b = ev_backend env in
      case tb_new b DEFAULT_INTERFACE (ds_world st) of
        (Inl e, w) \<Rightarrow> (Inl (TunnelErr e), st\<lparr>ds_world := w\<rparr>)
      | (Inr t, w) \<Rightarrow>
     (case tb_plan b (bypass_request_of st) w of
        (routes, w1) \<Rightarrow>
     (let t1 = (if routes \<noteq> [] then tb_with_bypass b routes t else t);
          t2 = (if ks_enabled (cf_killswitch (ds_config st))
                then tb_with_killswitch b (configured_killswitch st) t1 else t1)
      in (Inr t2, st\<lparr>ds_world := w1\<rparr>))))"

text \<open>A handle that failed to come up is dropped; so is one that is replaced.\<close>

definition establish :: "('t, 'w) env \<Rightarrow> ranked_server \<Rightarrow> ('t, 'w) dstate
    \<Rightarrow> (daemon_error + unit) \<times> ('t, 'w) dstate" where
  "establish env chosen st =
     (let b = ev_backend env; spec = spec_for st chosen in
      case new_tunnel env st of
        (Inl e, st1) \<Rightarrow> (Inl e, st1)
      | (Inr t, st1) \<Rightarrow>
     (case tb_up b t spec (ds_world st1) of
        (Inl e, t1, w) \<Rightarrow> (Inl (TunnelErr e), st1\<lparr>ds_world := tb_drop b t1 w\<rparr>)
      | (Inr _, t1, w) \<Rightarrow>
          (let w1 = (case ds_tunnel st1 of Some old \<Rightarrow> tb_drop b old w | None \<Rightarrow> w) in
           (Inr (), st1\<lparr>ds_tunnel := Some t1, ds_current := Some (connection_from chosen),
                        ds_world := w1\<rparr>))))"

definition move_to :: "('t, 'w) env \<Rightarrow> ranked_server \<Rightarrow> ('t, 'w) dstate
    \<Rightarrow> (daemon_error + unit) \<times> ('t, 'w) dstate" where
  "move_to env chosen st =
     (case ds_tunnel st of
        None \<Rightarrow> (Inl NotConnected, st)
      | Some t \<Rightarrow>
     (case tb_switch_endpoint (ev_backend env) t (spec_for st chosen) (ds_world st) of
        (Inl e, t1, w) \<Rightarrow> (Inl (TunnelErr e), st\<lparr>ds_tunnel := Some t1, ds_world := w\<rparr>)
      | (Inr _, t1, w) \<Rightarrow>
          (Inr (), st\<lparr>ds_tunnel := Some t1, ds_current := Some (connection_from chosen),
                      ds_world := w\<rparr>)))"

text \<open>
  The wait for a handshake newer than \<open>since\<close>. Each round sleeps half a second, so the 61
  rounds of fuel cover the thirty seconds of the timeout; \<open>wait_loop_enough\<close> says so for a
  clock that a sleep advances.
\<close>

definition handshake_since :: "('t, 'w) env \<Rightarrow> nat \<Rightarrow> ('t, 'w) dstate \<Rightarrow> bool \<times> ('t, 'w) dstate" where
  "handshake_since env since st =
     (case ds_tunnel st of
        None \<Rightarrow> (False, st)
      | Some t \<Rightarrow>
          (case tb_status (ev_backend env) t (ds_world st) of
             (r, w) \<Rightarrow>
               ((case r of
                   Inr s \<Rightarrow> (case tst_last_handshake s of Some h \<Rightarrow> since < h | None \<Rightarrow> False)
                 | Inl _ \<Rightarrow> False), st\<lparr>ds_world := w\<rparr>)))"

fun wait_loop :: "nat \<Rightarrow> ('t, 'w) env \<Rightarrow> nat \<Rightarrow> instant \<Rightarrow> ('t, 'w) dstate
    \<Rightarrow> bool \<times> ('t, 'w) dstate" where
  "wait_loop 0 env since deadline st = (False, st)"
| "wait_loop (Suc fuel) env since deadline st =
     (if now env st < deadline
      then (case handshake_since env since st of
              (True, st1) \<Rightarrow> (True, st1)
            | (False, st1) \<Rightarrow>
                wait_loop fuel env since deadline
                  (st1\<lparr>ds_world := ev_sleep env (from_millis 500) (ds_world st1)\<rparr>))
      else (False, st))"

definition WAIT_FUEL :: nat where "WAIT_FUEL = 61"

definition wait_until_carrying :: "('t, 'w) env \<Rightarrow> nat \<Rightarrow> ('t, 'w) dstate \<Rightarrow> bool \<times> ('t, 'w) dstate"
where
  "wait_until_carrying env since st =
     wait_loop WAIT_FUEL env since (now env st + CANDIDATE_READY_TIMEOUT) st"

section \<open>Choosing by measuring\<close>

text \<open>
  One candidate of the shortlist. \<open>Skip\<close> goes on without a figure (no handshake, or a
  measurement that failed), \<open>Accept\<close> ends the search, \<open>Measured\<close> is below the bar.
\<close>

datatype candidate_result = Skip | Accept ranked_server | Below f64

definition try_candidate :: "('t, 'w) env \<Rightarrow> tp_settings \<Rightarrow> f64 \<Rightarrow> bool \<Rightarrow> ranked_server
    \<Rightarrow> ('t, 'w) dstate \<Rightarrow> (daemon_error + candidate_result) \<times> ('t, 'w) dstate" where
  "try_candidate env settings target is_first candidate st =
     (let since = ev_wall env (ds_world st) in
      case (if is_first then establish env candidate st else move_to env candidate st) of
        (Inl e, st1) \<Rightarrow> (Inl e, st1)
      | (Inr _, st1) \<Rightarrow>
     (case wait_until_carrying env since st1 of
        (False, st2) \<Rightarrow> (Inr Skip, st2)
      | (True, st2) \<Rightarrow>
     (case measure_speed env settings st2 of
        (Inl _, st3) \<Rightarrow> (Inr Skip, st3)
      | (Inr sample, st3) \<Rightarrow>
          (let st4 = record_throughput env (rk_name candidate) (sm_mbps sample) st3 in
           if target \<le> sm_mbps sample
           then (Inr (Accept (set_mbps (sm_mbps sample) 0 candidate)), st4)
           else (Inr (Below (sm_mbps sample)), st4)))))"

text \<open>The better of the candidates measured so far; ties keep the earlier one.\<close>

definition keep_best :: "ranked_server \<Rightarrow> f64 \<Rightarrow> (ranked_server \<times> f64) option
    \<Rightarrow> (ranked_server \<times> f64) option" where
  "keep_best c mbps best =
     (case best of
        None \<Rightarrow> Some (c, mbps)
      | Some (_, m) \<Rightarrow> if m < mbps then Some (c, mbps) else best)"

fun try_candidates :: "('t, 'w) env \<Rightarrow> tp_settings \<Rightarrow> f64 \<Rightarrow> bool \<Rightarrow> ranked_server list
    \<Rightarrow> (ranked_server \<times> f64) option \<Rightarrow> ('t, 'w) dstate
    \<Rightarrow> (daemon_error + ranked_server + (ranked_server \<times> f64) option) \<times> ('t, 'w) dstate" where
  "try_candidates env settings target is_first [] best st = (Inr (Inr best), st)"
| "try_candidates env settings target is_first (c # cs) best st =
     (case try_candidate env settings target is_first c st of
        (Inl e, st1) \<Rightarrow> (Inl e, st1)
      | (Inr Skip, st1) \<Rightarrow> try_candidates env settings target False cs best st1
      | (Inr (Accept chosen), st1) \<Rightarrow> (Inr (Inl chosen), st1)
      | (Inr (Below mbps), st1) \<Rightarrow>
          try_candidates env settings target False cs (keep_best c mbps best) st1)"

text \<open>What follows when no candidate met the bar.\<close>

definition settle :: "('t, 'w) env \<Rightarrow> ranked_server list \<Rightarrow> (ranked_server \<times> f64) option
    \<Rightarrow> ('t, 'w) dstate \<Rightarrow> (daemon_error + ranked_server) \<times> ('t, 'w) dstate" where
  "settle env shortlist best st =
     (case best of
        Some (server, mbps) \<Rightarrow>
          (case (if (case ds_current st of None \<Rightarrow> True | Some c \<Rightarrow> cn_server c \<noteq> rk_name server)
                 then move_to env server st else (Inr (), st)) of
             (Inl e, st1) \<Rightarrow> (Inl e, st1)
           | (Inr _, st1) \<Rightarrow> (Inr (set_mbps mbps 0 server), st1))
      | None \<Rightarrow>
          (let fallback = hd shortlist in
           case ds_current st of
             None \<Rightarrow> (case establish env fallback st of
                        (Inl e, st1) \<Rightarrow> (Inl e, st1)
                      | (Inr _, st1) \<Rightarrow> (Inr fallback, st1))
           | Some _ \<Rightarrow> (Inr fallback, st)))"

definition measure_direct :: "('t, 'w) env \<Rightarrow> ('t, 'w) dstate \<Rightarrow> (daemon_error + f64) \<times> ('t, 'w) dstate"
where
  "measure_direct env st =
     (case measure_speed env (select_settings st) st of
        (Inl e, st1) \<Rightarrow> (Inl e, st1)
      | (Inr s, st1) \<Rightarrow> (Inr (sm_mbps s), st1))"

definition calibrate :: "('t, 'w) env \<Rightarrow> bool \<Rightarrow> ('t, 'w) dstate \<Rightarrow> ('t, 'w) dstate" where
  "calibrate env should_measure st =
     (if should_measure
      then (case measure_direct env st of
              (Inr mbps, st1) \<Rightarrow> record_direct env mbps st1
            | (Inl _, st1) \<Rightarrow> st1)
      else st)"

definition connect_best :: "('t, 'w) env \<Rightarrow> bool option \<Rightarrow> ('t, 'w) dstate
    \<Rightarrow> (daemon_error + ranked_server) \<times> ('t, 'w) dstate" where
  "connect_best env measure_first st =
     (let a = cf_autotune (ds_config st);
          should_measure = (case measure_first of Some b \<Rightarrow> b | None \<Rightarrow> measure_before_connect a)
      in case sweep env None (calibrate env should_measure st) of
        (Inl e, st1) \<Rightarrow> (Inl e, st1)
      | (Inr ranked, st1) \<Rightarrow>
     (let target = acceptance_mbps a (direct_mbps st1);
          attempts = (if should_measure then min (verify_candidates a) (length ranked) else 0)
      in case ranked of
        [] \<Rightarrow> (Inl (AllUnreachable 0), st1)
      | fst_c # _ \<Rightarrow>
          if attempts = 0
          then (case establish env fst_c st1 of
                  (Inl e, st2) \<Rightarrow> (Inl e, st2)
                | (Inr _, st2) \<Rightarrow> (Inr fst_c, st2))
          else (let shortlist = take attempts ranked in
                case try_candidates env (select_settings st1) target True shortlist None st1 of
                  (Inl e, st2) \<Rightarrow> (Inl e, st2)
                | (Inr (Inl chosen), st2) \<Rightarrow> (Inr chosen, st2)
                | (Inr (Inr best), st2) \<Rightarrow> settle env shortlist best st2)))"

section \<open>Connecting, switching, disconnecting\<close>

definition connect :: "('t, 'w) env \<Rightarrow> string option \<Rightarrow> bool option \<Rightarrow> ('t, 'w) dstate
    \<Rightarrow> (daemon_error + ranked_server) \<times> ('t, 'w) dstate" where
  "connect env server measure_first st =
     (case ds_current st of
        Some c \<Rightarrow> (Inl (AlreadyConnected (cn_server c)), st)
      | None \<Rightarrow>
     (case server of
        None \<Rightarrow> connect_best env measure_first st
      | Some name \<Rightarrow>
     (case probe_named env name st of
        (Inl e, st1) \<Rightarrow> (Inl e, st1)
      | (Inr chosen, st1) \<Rightarrow>
          (case establish env chosen st1 of
             (Inl e, st2) \<Rightarrow> (Inl e, st2)
           | (Inr _, st2) \<Rightarrow> (Inr chosen, st2)))))"

definition switch :: "('t, 'w) env \<Rightarrow> string \<Rightarrow> ('t, 'w) dstate
    \<Rightarrow> (daemon_error + ranked_server) \<times> ('t, 'w) dstate" where
  "switch env name st =
     (case ds_current st of
        None \<Rightarrow> (Inl NotConnected, st)
      | Some _ \<Rightarrow>
     (case probe_named env name st of
        (Inl e, st1) \<Rightarrow> (Inl e, st1)
      | (Inr chosen, st1) \<Rightarrow>
     (case ds_tunnel st1 of
        None \<Rightarrow> (Inl NotConnected, st1)
      | Some t \<Rightarrow>
     (case tb_switch_endpoint (ev_backend env) t (spec_for st1 chosen) (ds_world st1) of
        (Inl e, t1, w) \<Rightarrow> (Inl (TunnelErr e), st1\<lparr>ds_tunnel := Some t1, ds_world := w\<rparr>)
      | (Inr _, t1, w) \<Rightarrow>
          (Inr chosen, st1\<lparr>ds_tunnel := Some t1, ds_dismissed := None,
                           ds_current := Some (connection_from chosen), ds_world := w\<rparr>)))))"

definition disconnect :: "('t, 'w) env \<Rightarrow> ('t, 'w) dstate \<Rightarrow> (daemon_error + unit) \<times> ('t, 'w) dstate"
where
  "disconnect env st =
     (case ds_tunnel st of
        None \<Rightarrow> (Inl NotConnected, st)
      | Some t \<Rightarrow>
     (case tb_down (ev_backend env) t (ds_world st) of
        (r, t1, w) \<Rightarrow>
          (map_sum TunnelErr id r,
           st\<lparr>ds_tunnel := None, ds_current := None,
              ds_world := tb_drop (ev_backend env) t1 w\<rparr>)))"

section \<open>Measuring on request\<close>

definition speed_verdict :: "string option \<Rightarrow> f64 \<Rightarrow> f64 \<Rightarrow> string" where
  "speed_verdict through mbps bar =
     (case through of
        Some server \<Rightarrow>
          fmt_prec 1 mbps @ '' Mbps through '' @ server @ '' ('' @
          (if bar \<le> mbps then ''meets'' else ''below'') @ '' the '' @ fmt_prec 0 bar @
          '' Mbps target)''
      | None \<Rightarrow>
          fmt_prec 1 mbps @ '' Mbps with no tunnel up; this is your direct connection'')"

definition speedtest :: "('t, 'w) env \<Rightarrow> ('t, 'w) dstate \<Rightarrow> (daemon_error + speed_report) \<times> ('t, 'w) dstate"
where
  "speedtest env st =
     (let bar = min_mbps (cf_autotune (ds_config st));
          through = map_option cn_server (ds_current st)
      in case measure_speed env (throughput_settings st) st of
        (Inl e, st1) \<Rightarrow> (Inl e, st1)
      | (Inr sample, st1) \<Rightarrow>
          (Inr \<lparr>sr_tunnelled = (if through \<noteq> None then Some sample else None),
                sr_direct = (if through = None then Some sample else None),
                sr_server = through, sr_min_mbps = bar,
                sr_meets_target = (bar \<le> sm_mbps sample),
                sr_verdict = speed_verdict through (sm_mbps sample) bar\<rparr>,
           (case through of
              Some server \<Rightarrow> record_throughput env server (sm_mbps sample) st1
            | None \<Rightarrow> record_direct env (sm_mbps sample) st1)))"

definition em_dash :: string where "em_dash = [CHR 0xE2, CHR 0x80, CHR 0x94]"

definition baseline_verdict :: "string \<Rightarrow> f64 \<Rightarrow> f64 \<Rightarrow> f64 \<Rightarrow> string" where
  "baseline_verdict server tunnelled direct bar =
     (let retained = (if Fin 0 < direct then tunnelled / direct else Fin 0) in
      fmt_prec 1 tunnelled @ '' Mbps through '' @ server @ '' vs '' @ fmt_prec 1 direct @
      '' Mbps direct '' @ em_dash @ '' the tunnel keeps '' @ fmt_prec 0 (retained * Fin 100) @
      ''% of your connection. '' @
      (if Fin (7 / 10) \<le> retained
       then ''That is normal overhead; a slow link here is your connection, not the VPN.''
       else if direct < bar
       then ''Your connection itself is below the target, so no server can fix it.''
       else ''The VPN is costing you a lot; a different server may do better.''))"

definition baseline :: "('t, 'w) env \<Rightarrow> ('t, 'w) dstate \<Rightarrow> (daemon_error + speed_report) \<times> ('t, 'w) dstate"
where
  "baseline env st =
     (let settings = throughput_settings st; bar = min_mbps (cf_autotune (ds_config st)) in
      case ds_current st of
        None \<Rightarrow> speedtest env st
      | Some c \<Rightarrow>
     (case measure_speed env settings st of
        (Inl e, st1) \<Rightarrow> (Inl e, st1)
      | (Inr tunnelled, st1) \<Rightarrow>
     (case disconnect env (record_throughput env (cn_server c) (sm_mbps tunnelled) st1) of
        (Inl e, st2) \<Rightarrow> (Inl e, st2)
      | (Inr _, st2) \<Rightarrow>
     (case measure_speed env settings st2 of
        (direct, st3) \<Rightarrow>
     (case connect env (Some (cn_server c)) (Some False) st3 of
        (restored, st4) \<Rightarrow>
     (case direct of
        Inl e \<Rightarrow> (Inl e, st4)
      | Inr d \<Rightarrow>
     (case restored of
        Inl e \<Rightarrow> (Inl e, st4)
      | Inr _ \<Rightarrow>
          (Inr \<lparr>sr_tunnelled = Some tunnelled, sr_direct = Some d,
                sr_server = Some (cn_server c), sr_min_mbps = bar,
                sr_meets_target = (bar \<le> sm_mbps tunnelled),
                sr_verdict = baseline_verdict (cn_server c) (sm_mbps tunnelled) (sm_mbps d) bar\<rparr>,
           record_direct env (sm_mbps d) st4))))))))"

section \<open>The kill switch at runtime\<close>

definition set_killswitch :: "bool \<Rightarrow> ('t, 'w) dstate \<Rightarrow> ('t, 'w) dstate" where
  "set_killswitch on st =
     (let c = ds_config st in
      st\<lparr>ds_config := c\<lparr>cf_killswitch := (cf_killswitch c)\<lparr>ks_enabled := on\<rparr>\<rparr>\<rparr>)"

definition killswitch_toggle :: "('t, 'w) env \<Rightarrow> bool option \<Rightarrow> ('t, 'w) dstate
    \<Rightarrow> (daemon_error + unit) \<times> ('t, 'w) dstate" where
  "killswitch_toggle env enable st =
     (case enable of
        Some True \<Rightarrow>
          (case tb_ks_engage (ev_backend env) (configured_killswitch st) (ds_world st) of
             (Inl e, w) \<Rightarrow> (Inl (TunnelErr e), st\<lparr>ds_world := w\<rparr>)
           | (Inr _, w) \<Rightarrow> (Inr (), set_killswitch True (st\<lparr>ds_world := w\<rparr>)))
      | Some False \<Rightarrow>
          (case tb_ks_release (ev_backend env) (ds_world st) of
             (Inl e, w) \<Rightarrow> (Inl (TunnelErr e), st\<lparr>ds_world := w\<rparr>)
           | (Inr _, w) \<Rightarrow> (Inr (), set_killswitch False (st\<lparr>ds_world := w\<rparr>)))
      | None \<Rightarrow> (Inr (), st))"

definition killswitch_op :: "('t, 'w) env \<Rightarrow> bool option \<Rightarrow> ('t, 'w) dstate
    \<Rightarrow> (daemon_error + killswitch_report) \<times> ('t, 'w) dstate" where
  "killswitch_op env enable st =
     (case killswitch_toggle env enable st of
        (Inl e, st1) \<Rightarrow> (Inl e, st1)
      | (Inr _, st1) \<Rightarrow>
     (case tb_ks_is_engaged (ev_backend env) (ds_world st1) of
        (engaged, w) \<Rightarrow>
     (case tb_ks_dropped (ev_backend env) w of
        (dropped, w1) \<Rightarrow>
          (Inr \<lparr>kr_engaged = engaged,
                kr_configured = ks_enabled (cf_killswitch (ds_config st1)),
                kr_dropped = dropped\<rparr>, st1\<lparr>ds_world := w1\<rparr>))))"

end
