(* ===== verification/Daemon_Main.thy ===== *)
theory Daemon_Main
  imports Daemon_Connect
begin

text \<open>
  \<^verbatim>\<open>vpnmgrd/src/state.rs\<close>, last part, and the request handling and scheduling of
  \<^verbatim>\<open>vpnmgrd/src/main.rs\<close>: the tuning pass and what it leaves in the state, approval and
  dismissal, the handler of every request, and the daemon as a transition system.
\<close>

section \<open>Tuning\<close>

definition probe_current :: "('t, 'w) env \<Rightarrow> string \<Rightarrow> ('t, 'w) dstate \<Rightarrow> f64 option \<times> ('t, 'w) dstate"
where
  "probe_current env server_name st =
     (let port = ap_port (cf_airvpn (ds_config st));
          prober = prober_with_fwmark DEFAULT_FWMARK
                     (prober_new (ds_client st) (cf_probe (ds_config st)))
      in case server_list env st of
        (Inl _, st1) \<Rightarrow> (None, st1)
      | (Inr l, st1) \<Rightarrow>
     (case get_server l server_name of
        None \<Rightarrow> (None, st1)
      | Some server \<Rightarrow>
     (case run_sweep env prober [server] port st1 of
        (ms, st2) \<Rightarrow>
          ((case ms of [] \<Rightarrow> None | m # _ \<Rightarrow> map_option rtt_millis (m_rtt m)), st2))))"

text \<open>\<^verbatim>\<open>record\<close>: fold a decision into the state.\<close>

definition record_decision :: "('t, 'w) env \<Rightarrow> decision \<Rightarrow> ('t, 'w) dstate
    \<Rightarrow> tune_report \<times> ('t, 'w) dstate" where
  "record_decision env d st =
     (let st1 = st\<lparr>ds_pending :=
            (case d of
               Propose s reason \<Rightarrow> Some (s, reason_describe reason, now env st)
             | _ \<Rightarrow> None),
          ds_last_tune := Some (describe d)\<rparr>
      in (\<lparr>tr_summary = describe d, tr_switched = is_actionable d,
           tr_pending = pending_switch_of env st1,
           tr_nothing_reachable = (case d of NothingReachable _ \<Rightarrow> True | _ \<Rightarrow> False)\<rparr>, st1))"

definition active_dismissal :: "('t, 'w) env \<Rightarrow> ('t, 'w) dstate \<Rightarrow> string option" where
  "active_dismissal env st =
     (case ds_dismissed st of
        None \<Rightarrow> None
      | Some (name, t) \<Rightarrow>
          if elapsed (now env st) t < DISMISSAL_COOLDOWN then Some name else None)"

definition recorded :: "('t, 'w) env \<Rightarrow> decision \<Rightarrow> ('t, 'w) dstate
    \<Rightarrow> (daemon_error + tune_report) \<times> ('t, 'w) dstate" where
  "recorded env d st = (case record_decision env d st of (r, st1) \<Rightarrow> (Inr r, st1))"

definition assess :: "('t, 'w) env \<Rightarrow> connection \<Rightarrow> f64 option \<Rightarrow> ranked_server list
    \<Rightarrow> ('t, 'w) dstate \<Rightarrow> assessment" where
  "assess env c rtt ranked st =
     \<lparr>as_current = Some
        \<lparr>cu_name = cn_server c, cu_rtt_ms = rtt,
         cu_score = map_option rk_score (find (\<lambda>r. rk_name r = cn_server c) ranked)\<rparr>,
      as_best = (case ranked of [] \<Rightarrow> None | r # _ \<Rightarrow> Some r),
      as_probed = (case ds_last_sweep st of Some (s, _) \<Rightarrow> sw_probed s | None \<Rightarrow> length ranked),
      as_declined_from = active_dismissal env st\<rparr>"

text \<open>What a pass does once it has decided.\<close>

definition carry_out :: "('t, 'w) env \<Rightarrow> decision \<Rightarrow> ('t, 'w) dstate
    \<Rightarrow> (daemon_error + tune_report) \<times> ('t, 'w) dstate" where
  "carry_out env d st =
     (case (if is_actionable d then decision_target d else None) of
        Some s \<Rightarrow>
          (case switch env (rk_name s) st of
             (Inl e, st1) \<Rightarrow> (Inl e, st1)
           | (Inr _, st1) \<Rightarrow> recorded env d st1)
      | None \<Rightarrow> recorded env d st)"

definition autotune_pass :: "('t, 'w) env \<Rightarrow> ('t, 'w) dstate
    \<Rightarrow> (daemon_error + tune_report) \<times> ('t, 'w) dstate" where
  "autotune_pass env st0 =
     (let st = st0\<lparr>ds_last_tune_at := Some (now env st0)\<rparr> in
      case ds_current st of
        None \<Rightarrow> recorded env DNotConnected st
      | Some c \<Rightarrow>
     (case probe_current env (cn_server c) st of
        (rtt, st1) \<Rightarrow>
     (case (case rtt of
              Some r \<Rightarrow> if r \<le> limit_ms (cf_autotune (ds_config st1)) then Some r else None
            | None \<Rightarrow> None) of
        Some r \<Rightarrow> recorded env (Healthy (cn_server c) r) st1
      | None \<Rightarrow>
     (case sweep env None st1 of
        (Inl (AllUnreachable probed), st2) \<Rightarrow> recorded env (NothingReachable probed) st2
      | (Inl e, st2) \<Rightarrow> (Inl e, st2)
      | (Inr ranked, st2) \<Rightarrow>
          carry_out env (decide (assess env c rtt ranked st2) (cf_autotune (ds_config st2))) st2))))"

section \<open>Approving and dismissing\<close>

definition approve :: "('t, 'w) env \<Rightarrow> ('t, 'w) dstate \<Rightarrow> (daemon_error + ranked_server) \<times> ('t, 'w) dstate"
where
  "approve env st =
     (case ds_pending st of
        None \<Rightarrow> (Inl NoPendingSwitch, st)
      | Some (target, _, _) \<Rightarrow>
     (case switch env (rk_name target) (st\<lparr>ds_pending := None\<rparr>) of
        (Inl e, st1) \<Rightarrow> (Inl e, st1)
      | (Inr moved, st1) \<Rightarrow>
          (Inr moved,
           st1\<lparr>ds_last_tune := Some (''switched to '' @ rk_name moved @ '' on approval'')\<rparr>)))"

definition dismiss :: "('t, 'w) env \<Rightarrow> ('t, 'w) dstate \<Rightarrow> (daemon_error + string) \<times> ('t, 'w) dstate"
where
  "dismiss env st =
     (case ds_pending st of
        None \<Rightarrow> (Inl NoPendingSwitch, st)
      | Some (target, _, _) \<Rightarrow>
          (Inr (rk_name target),
           st\<lparr>ds_pending := None,
              ds_dismissed :=
                (case ds_current st of
                   Some c \<Rightarrow> Some (cn_server c, now env st)
                 | None \<Rightarrow> ds_dismissed st),
              ds_last_tune :=
                Some (''dismissed the proposal to move to '' @ rk_name target)\<rparr>))"

section \<open>Handling requests\<close>

definition VERSION :: string where "VERSION = ''0.1.2''"

definition reply :: "('a \<Rightarrow> daemon_error response) \<Rightarrow> (daemon_error + 'a) \<times> ('t, 'w) dstate
    \<Rightarrow> daemon_error response \<times> ('t, 'w) dstate" where
  "reply ok r = (case r of (Inl e, st) \<Rightarrow> (RespError e, st) | (Inr x, st) \<Rightarrow> (ok x, st))"

definition connected_text :: "ranked_server \<Rightarrow> string" where
  "connected_text c =
     ''connected to '' @ rk_name c @ '' ('' @ rk_location c @ '', '' @ rk_country_name c @
     '') via entry '' @ show_nat (unat (rk_entry c)) @ '' at '' @ fmt_prec 1 (rk_rtt_ms c) @ ''ms'' @
     (case rk_mbps c of Some m \<Rightarrow> '', measured '' @ fmt_prec 0 m @ '' Mbps'' | None \<Rightarrow> [])"

definition switched_text :: "ranked_server \<Rightarrow> string" where
  "switched_text c =
     ''switched to '' @ rk_name c @ '' ('' @ rk_location c @ '') via entry '' @
     show_nat (unat (rk_entry c)) @ '' at '' @ fmt_prec 1 (rk_rtt_ms c) @ ''ms''"

fun handle :: "('t, 'w) env \<Rightarrow> request \<Rightarrow> ('t, 'w) dstate
    \<Rightarrow> daemon_error response \<times> ('t, 'w) dstate" where
  "handle env ReqVersion st = (RespVersion VERSION, st)"
| "handle env ReqStatus st = (case status env st of (r, st1) \<Rightarrow> (RespStatus r, st1))"
| "handle env (ReqConnect server m) st =
     reply (\<lambda>c. RespOk (connected_text c)) (connect env server m st)"
| "handle env ReqDisconnect st = reply (\<lambda>_. RespOk ''disconnected'') (disconnect env st)"
| "handle env (ReqSwitch server) st = reply (\<lambda>c. RespOk (switched_text c)) (switch env server st)"
| "handle env (ReqTest country) st = reply RespRanking (sweep env country st)"
| "handle env (ReqLastRanking limit) st = (RespRanking (last_ranking env limit st), st)"
| "handle env (ReqServers country limit all) st = reply RespServers (servers env country limit all st)"
| "handle env ReqReload st = reply (\<lambda>_. RespOk ''configuration reloaded'') (reload env st)"
| "handle env ReqAutotune st = reply RespTuned (autotune_pass env st)"
| "handle env ReqApprove st = reply (\<lambda>c. RespOk (switched_text c)) (approve env st)"
| "handle env ReqSpeedtest st = reply RespSpeed (speedtest env st)"
| "handle env (ReqBaseline confirm) st =
     (if confirm then reply RespSpeed (baseline env st) else (RespError ConsentRequired, st))"
| "handle env (ReqKillswitch enable) st = reply RespKillswitch (killswitch_op env enable st)"
| "handle env ReqDismiss st =
     reply (\<lambda>name. RespOk (''dismissed the proposal to move to '' @ name)) (dismiss env st)"

section \<open>Scheduling and announcing\<close>

datatype urgency = Normal | Critical

definition announce :: "tune_report \<Rightarrow> (string \<times> string \<times> urgency) option" where
  "announce r =
     (if tr_switched r then Some (''VPN server switched'', tr_summary r, Normal)
      else if tr_pending r \<noteq> None
        then Some (''A faster VPN server is available'', tr_summary r, Normal)
      else if tr_nothing_reachable r
        then Some (''VPN is not reaching any server'', tr_summary r, Critical)
      else None)"

text \<open>
  One round of the scheduler: the wait it computes, and after it, unless a manual pass ran
  meanwhile, a pass and its announcement.
\<close>

definition scheduler_wait :: "('t, 'w) env \<Rightarrow> ('t, 'w) dstate \<Rightarrow> duration" where
  "scheduler_wait env st = time_until_next_tune env st"

definition scheduler_wake :: "('t, 'w) env \<Rightarrow> ('t, 'w) dstate
    \<Rightarrow> (string \<times> string \<times> urgency) option \<times> ('t, 'w) dstate" where
  "scheduler_wake env st =
     (if time_until_next_tune env st \<noteq> 0 then (None, st)
      else (case autotune_pass env st of
              (Inl _, st1) \<Rightarrow> (None, st1)
            | (Inr r, st1) \<Rightarrow> (announce r, st1)))"

definition shutdown :: "('t, 'w) env \<Rightarrow> ('t, 'w) dstate \<Rightarrow> ('t, 'w) dstate" where
  "shutdown env st = (if is_connected st then snd (disconnect env st) else st)"

section \<open>The daemon as a transition system\<close>

text \<open>
  The state sits behind one lock, held for the whole of a request and of a scheduled pass,
  so an execution is a sequence of these steps; the world may change between them.
\<close>

inductive daemon_step :: "('t, 'w) env \<Rightarrow> ('t, 'w) dstate \<Rightarrow> ('t, 'w) dstate \<Rightarrow> bool" for env where
  request: "daemon_step env st (snd (handle env rq st))"
| wake: "daemon_step env st (snd (scheduler_wake env st))"
| world: "daemon_step env st (st\<lparr>ds_world := w\<rparr>)"

inductive daemon_reach :: "('t, 'w) env \<Rightarrow> path \<Rightarrow> ('t, 'w) dstate \<Rightarrow> bool" for env path where
  start: "load env path w = Inr st \<Longrightarrow> daemon_reach env path st"
| step: "daemon_reach env path st \<Longrightarrow> daemon_step env st st' \<Longrightarrow> daemon_reach env path st'"

inductive_cases daemon_stepE: "daemon_step env st st'"

end
