(* ===== verification/Samples.thy ===== *)
theory Samples
  imports Daemon_Main
begin

text \<open>
  A small concrete environment for the daemon: a world that is only a clock, a backend
  whose calls succeed, one server that answers probes, and a configuration as \<^verbatim>\<open>import\<close>
  writes it. The theorems about the daemon that have hypotheses are applied to it.
\<close>

section \<open>The environment\<close>

definition sample_config :: config where
  "sample_config = from_imported sample_client ''private'' ''preshared''"

definition sample_list :: server_list where
  "sample_list = \<lparr>sl_servers = [sample_server], sl_result = Some ''ok''\<rparr>"

definition sample_status :: "nat \<Rightarrow> tunnel_status" where
  "sample_status w =
     \<lparr>tst_interface = DEFAULT_INTERFACE, tst_up = True, tst_endpoint = None,
      tst_last_handshake = Some (w + 1), tst_tx_bytes = 0, tst_rx_bytes = 0, tst_listen_port = 0,
      tst_fwmark = None\<rparr>"

text \<open>The handle is the endpoint it was last pointed at.\<close>

definition sample_backend :: "(sockaddr option, nat) backend" where
  "sample_backend =
     \<lparr>tb_new = \<lambda>i w. (Inr None, w), tb_with_bypass = \<lambda>rs t. t, tb_with_killswitch = \<lambda>k t. t,
      tb_up = \<lambda>t spec w. (Inr (), Some (tn_endpoint spec), w),
      tb_switch_endpoint = \<lambda>t spec w. (Inr (), Some (tn_endpoint spec), w),
      tb_down = \<lambda>t w. (Inr (), None, w), tb_status = \<lambda>t w. (Inr (sample_status w), w),
      tb_drop = \<lambda>t w. w, tb_plan = \<lambda>rq w. ([], w), tb_ks_engage = \<lambda>k w. (Inr (), w),
      tb_ks_release = \<lambda>w. (Inr (), w), tb_ks_is_engaged = \<lambda>w. (False, w),
      tb_ks_dropped = \<lambda>w. (None, w)\<rparr>"

definition sample_env :: "(sockaddr option, nat) env" where
  "sample_env =
     \<lparr>ev_now = \<lambda>w. w, ev_wall = \<lambda>w. w, ev_sleep = \<lambda>d w. w + d, ev_http_client = \<lambda>w. None,
      ev_http_get = \<lambda>url w. (Inr ''{}'', w), ev_json = \<lambda>body. Inr sample_list,
      ev_read = \<lambda>w p. if p = ''config.toml'' then Inr ''[airvpn]'' else sample_files p,
      ev_toml = \<lambda>txt. Inr sample_config, ev_b64 = sample_engine,
      ev_net = \<lambda>p as w. (sample_net, w), ev_download = \<lambda>s w. (sample_download, w),
      ev_backend = sample_backend\<rparr>"

definition sample_start :: "(sockaddr option, nat) dstate" where
  "sample_start =
     \<lparr>ds_config = sample_config, ds_config_path = ''config.toml'', ds_client = sample_client,
      ds_servers = None, ds_tunnel = None, ds_current = None, ds_last_sweep = None,
      ds_last_ranking = [], ds_pending = None, ds_dismissed = None, ds_throughput_seen = Map.empty,
      ds_direct_mbps = None, ds_last_tune = None, ds_last_tune_at = None, ds_world = 0\<rparr>"

text \<open>The same daemon, connected to the sample server.\<close>

definition sample_connection :: connection where
  "sample_connection =
     \<lparr>cn_server = ''Achernar'', cn_location = ''Alblasserdam'', cn_country_code = ''nl'',
      cn_endpoint = mk_sockaddr (V4 0x01020304) 1637, cn_entry = 1\<rparr>"

definition sample_up :: "(sockaddr option, nat) dstate" where
  "sample_up = sample_start
     \<lparr>ds_tunnel := Some (Some (cn_endpoint sample_connection)), ds_current := Some sample_connection\<rparr>"

section \<open>What it evaluates to\<close>

lemma sample_keys:
  assumes "rd ''private'' = sample_files ''private''" and "rd ''preshared'' = sample_files ''preshared''"
  shows "load_client_config sample_engine rd sample_config = Inr sample_client"
proof -
  have k: "read_key sample_engine rd ''private'' = Inr (SecretKey (replicate 32 1))"
      "read_key sample_engine rd ''preshared'' = Inr (SecretKey (replicate 32 3))"
    by (rule read_key_holds [OF sample_engine_ok];
        simp add: holds_key_def assms sample_files_def sample_engine_def KEY_LEN_def)+
  then show ?thesis
    by (simp add: load_client_config_def sample_config_def from_imported_def sample_client_def Let_def)
qed

lemma sample_config_ok: "config_ok sample_config"
  unfolding sample_config_def by (rule from_imported_ok) (simp add: sample_client_def)

lemma sample_load: "load sample_env ''config.toml'' 0 = Inr sample_start"
proof -
  have "config_load (ev_read sample_env 0) (ev_toml sample_env) ''config.toml'' = Inr sample_config"
    using sample_config_ok
    by (simp add: config_load_def config_parse_def validate_iff [symmetric] sample_env_def)
  moreover have "ev_b64 sample_env = sample_engine" by (simp add: sample_env_def)
  moreover have "load_client_config sample_engine (ev_read sample_env 0) sample_config = Inr sample_client"
    by (rule sample_keys) (simp_all add: sample_env_def)
  ultimately show ?thesis
    by (simp add: load_def load_all_def sample_start_def)
qed

lemma sample_reach: "daemon_reach sample_env ''config.toml'' sample_start"
  by (rule daemon_reach.start [OF sample_load])

lemma sample_server_list:
  "server_list sample_env sample_start = (Inr sample_list, sample_start\<lparr>ds_servers := Some (sample_list, 0)\<rparr>)"
  "server_list sample_env sample_up = (Inr sample_list, sample_up\<lparr>ds_servers := Some (sample_list, 0)\<rparr>)"
  by (simp_all add: server_list_def list_is_stale_def client_new_def client_fetch_def from_json_def
      sample_env_def sample_start_def sample_up_def sample_list_def now_def Let_def)

lemma sample_accepted:
  "sel_accepted (filter_apply sample_list (cf_filters sample_config)) = [sample_server]"
  by (simp add: filter_apply_accepted sample_list_def server_ok_def sample_server_def is_healthy_def
      eligible_def names_def restricts_def sample_config_def from_imported_def filters_default_def)

definition sample_prober_up :: prober where
  "sample_prober_up =
     prober_excluding (cn_endpoint sample_connection) (prober_with_fwmark DEFAULT_FWMARK sample_prober)"

lemma sample_timed:
  "map m_rtt (Probe.sweep sample_prober sample_net [sample_server] WG_ENTRIES WG_PORT) = [Some 20]"
  "map m_rtt (Probe.sweep sample_prober_up sample_net [sample_server] WG_ENTRIES WG_PORT) = [Some 20]"
  by code_simp+

lemma sample_probers: "prober_of sample_start = sample_prober" "prober_of sample_up = sample_prober_up"
  by (simp_all add: prober_of_def sample_start_def sample_up_def sample_prober_def sample_prober_up_def
      sample_config_def from_imported_def Let_def)

lemma sample_sel [simp]:
  "ds_config sample_start = sample_config" "ds_config sample_up = sample_config"
  "ds_tunnel sample_start = None" "ds_current sample_start = None"
  "ds_tunnel sample_up = Some (Some (cn_endpoint sample_connection))" "ds_current sample_up = Some sample_connection"
  "ap_port (cf_airvpn sample_config) = WG_PORT"
  by (simp_all add: sample_start_def sample_up_def sample_config_def from_imported_def)

lemma sweep_one:
  assumes l: "server_list env st = (Inr l, st1)"
    and acc: "sel_accepted (filter_apply l (sweep_filters (cf_filters (ds_config st)) country)) = [s]"
    and net: "ev_net env = (\<lambda>p as w. (obs, w))"
    and rtt: "map m_rtt (Probe.sweep (prober_of st) obs [s] WG_ENTRIES (ap_port (cf_airvpn (ds_config st)))) = [Some d]"
  shows "\<exists>rk st'. Daemon_State.sweep env country st = (Inr rk, st')"
proof -
  obtain m where m: "Probe.sweep (prober_of st) obs [s] WG_ENTRIES (ap_port (cf_airvpn (ds_config st))) = [m]"
      "m_rtt m = Some d"
    using rtt by (auto simp: map_eq_Cons_conv)
  have "run_sweep env (prober_of st) [s] (ap_port (cf_airvpn (ds_config st))) st1 =
      ([m], st1\<lparr>ds_world := ds_world st1\<rparr>)"
    using net m by (simp add: run_sweep_def)
  then show ?thesis
    using l acc m
    by (auto simp: Daemon_State.sweep_def Let_def sel_is_empty_def)
qed

lemma named_one:
  assumes l: "server_list env st = (Inr l, st1)" and g: "get_server l name = Some s"
    and net: "ev_net env = (\<lambda>p as w. (obs, w))"
    and rtt: "map m_rtt (Probe.sweep (prober_of st) obs [s] WG_ENTRIES (ap_port (cf_airvpn (ds_config st)))) = [Some d]"
  shows "\<exists>r. probe_named env name st = (Inr r, st1\<lparr>ds_world := ds_world st1\<rparr>)"
proof -
  obtain m where m: "Probe.sweep (prober_of st) obs [s] WG_ENTRIES (ap_port (cf_airvpn (ds_config st))) = [m]"
      "m_rtt m = Some d"
    using rtt by (auto simp: map_eq_Cons_conv)
  have ne: "rank [m] sc \<noteq> []" for sc
    using arg_cong [OF set_rank [of "[m]" sc], of "\<lambda>X. X = {}"] m by auto
  have "run_sweep env (prober_of st) [s] (ap_port (cf_airvpn (ds_config st))) st1 =
      ([m], st1\<lparr>ds_world := ds_world st1\<rparr>)"
    using net m by (simp add: run_sweep_def)
  then show ?thesis
    using l g ne by (auto simp: probe_named_def Let_def split: list.split)
qed

lemma sample_get: "get_server sample_list ''Achernar'' = Some sample_server"
  by (simp add: get_server_def sample_list_def sample_server_def eq_ignore_ascii_case_def)

lemma sample_sweep:
  "\<exists>rk st'. Daemon_State.sweep sample_env None sample_start = (Inr rk, st')"
  "\<exists>rk st'. Daemon_State.sweep sample_env None sample_up = (Inr rk, st')"
  using sweep_one [OF sample_server_list(1), where country = None and obs = sample_net and s = sample_server]
    sweep_one [OF sample_server_list(2), where country = None and obs = sample_net and s = sample_server]
    sample_timed
  by (simp_all add: sweep_filters_def sample_accepted sample_probers sample_env_def)

lemma sample_wait:
  assumes "ds_tunnel st \<noteq> None" and "since \<le> ds_world st"
  shows "wait_until_carrying sample_env since st = (True, st)"
proof -
  have f: "WAIT_FUEL = Suc 60" by (simp add: WAIT_FUEL_def)
  have h: "handshake_since sample_env since st = (True, st)"
    using assms
    by (auto simp: handshake_since_def sample_env_def sample_backend_def sample_status_def)
  show ?thesis
    unfolding wait_until_carrying_def f wait_loop.simps(2)
    by (simp add: h CANDIDATE_READY_TIMEOUT_def from_secs_def)
qed

lemma sample_measure:
  "\<exists>x. measure_speed sample_env (select_settings sample_start) st = (Inr x, st\<lparr>ds_world := ds_world st\<rparr>)"
proof -
  have "\<exists>t. tp_measure (select_settings sample_start) sample_download = Inr t"
    by (simp add: tp_measure_def sample_download_def select_settings_def is_success_def chunk_step_def
        loop_init_def WARMUP_BYTES_def elapsed_def from_secs_def sample_config_def from_imported_def
        throughput_default_def from_parts_def Let_def)
  then show ?thesis by (auto simp: measure_speed_def sample_env_def)
qed

end
