(* ===== verification/Daemon_Inv.thy ===== *)
theory Daemon_Inv
  imports Samples
begin

text \<open>
  Lemmas on the daemon: what each operation leaves alone, the invariant that ties the
  tunnel handle to the connection record, and its preservation by every request and every
  scheduled pass.
\<close>

section \<open>Frames\<close>

text \<open>
  Measuring and probing leave the connection, the configuration and the proposals alone.
\<close>

definition same_conn :: "('t, 'w) dstate \<Rightarrow> ('t, 'w) dstate \<Rightarrow> bool" where
  "same_conn st st' \<longleftrightarrow>
     ds_tunnel st' = ds_tunnel st \<and> ds_current st' = ds_current st \<and>
     ds_config st' = ds_config st \<and> ds_config_path st' = ds_config_path st \<and>
     ds_client st' = ds_client st \<and> ds_pending st' = ds_pending st \<and>
     ds_dismissed st' = ds_dismissed st \<and> ds_last_tune_at st' = ds_last_tune_at st"

lemma same_conn_refl [simp]: "same_conn st st"
  by (simp add: same_conn_def)

lemma same_conn_trans: "same_conn st st' \<Longrightarrow> same_conn st' st'' \<Longrightarrow> same_conn st st''"
  by (simp add: same_conn_def)

lemma same_conn_world [simp]: "same_conn st (st\<lparr>ds_world := w\<rparr>)"
  by (simp add: same_conn_def)

lemma same_conn_records [simp]:
  "same_conn st (record_direct env m st)" "same_conn st (record_throughput env s m st)"
  by (simp_all add: same_conn_def record_direct_def record_throughput_def)

lemma server_list_frame:
  assumes "server_list env st = (r, st')"
  shows "same_conn st st'" and "ds_throughput_seen st' = ds_throughput_seen st"
    and "ds_last_ranking st' = ds_last_ranking st" and "ds_direct_mbps st' = ds_direct_mbps st"
    and "ds_last_sweep st' = ds_last_sweep st" and "ds_last_tune st' = ds_last_tune st"
  using assms unfolding server_list_def same_conn_def Let_def
  by (auto split: if_splits sum.splits prod.splits option.splits)

text \<open>The list an operation works on is one the cache now holds.\<close>

lemma server_list_cached:
  "server_list env st = (Inr l, st') \<Longrightarrow> \<exists>t. ds_servers st' = Some (l, t)"
  unfolding server_list_def list_is_stale_def Let_def
  by (auto split: if_splits sum.splits prod.splits option.splits)

lemma run_sweep_cases:
  "run_sweep env p ss port st = (ms, st') \<Longrightarrow>
     \<exists>obs w. ms = Probe.sweep p obs ss WG_ENTRIES port \<and> st' = st\<lparr>ds_world := w\<rparr>"
  by (auto simp: run_sweep_def split: prod.splits)

lemma sweep_frame:
  assumes "sweep env country st = (r, st')"
  shows "same_conn st st'" and "ds_throughput_seen st' = ds_throughput_seen st"
proof -
  obtain r1 st1 where l: "server_list env st = (r1, st1)" by fastforce
  note f = server_list_frame [OF l]
  have "same_conn st1 st' \<and> ds_throughput_seen st' = ds_throughput_seen st1"
    using assms l unfolding sweep_def Let_def
    by (auto simp: same_conn_def split: sum.splits if_splits prod.splits dest!: run_sweep_cases)
  with f show "same_conn st st'" "ds_throughput_seen st' = ds_throughput_seen st"
    using same_conn_trans by auto
qed

lemma probe_named_frame:
  assumes "probe_named env name st = (r, st')"
  shows "same_conn st st'"
proof -
  obtain r1 st1 where l: "server_list env st = (r1, st1)" by fastforce
  have "same_conn st1 st'"
    using assms l unfolding probe_named_def Let_def
    by (auto split: sum.splits option.splits prod.splits list.splits dest!: run_sweep_cases)
  then show ?thesis using server_list_frame(1) [OF l] same_conn_trans by blast
qed

lemma measure_speed_frame:
  "measure_speed env s st = (r, st') \<Longrightarrow> \<exists>w. st' = st\<lparr>ds_world := w\<rparr>"
  by (auto simp: measure_speed_def split: prod.splits)

lemma probe_current_frame:
  assumes "probe_current env name st = (r, st')"
  shows "same_conn st st'"
proof -
  obtain r1 st1 where l: "server_list env st = (r1, st1)" by fastforce
  have "same_conn st1 st'"
    using assms l unfolding probe_current_def Let_def
    by (auto split: sum.splits option.splits prod.splits list.splits dest!: run_sweep_cases)
  then show ?thesis using server_list_frame(1) [OF l] same_conn_trans by blast
qed

lemma handshake_since_frame: "handshake_since env since st = (b, st') \<Longrightarrow> \<exists>w. st' = st\<lparr>ds_world := w\<rparr>"
proof -
  have "\<exists>w. st = st\<lparr>ds_world := w\<rparr>" by (intro exI [of _ "ds_world st"]) simp
  then show "handshake_since env since st = (b, st') \<Longrightarrow> \<exists>w. st' = st\<lparr>ds_world := w\<rparr>"
    by (auto simp: handshake_since_def split: option.splits prod.splits)
qed

lemma wait_loop_frame: "wait_loop n env since dl st = (b, st') \<Longrightarrow> \<exists>w. st' = st\<lparr>ds_world := w\<rparr>"
proof (induction n arbitrary: st)
  case 0
  then have "st' = st\<lparr>ds_world := ds_world st\<rparr>" by simp
  then show ?case ..
next
  case (Suc n)
  obtain b1 st1 where h: "handshake_since env since st = (b1, st1)" by fastforce
  then obtain w where st1: "st1 = st\<lparr>ds_world := w\<rparr>" using handshake_since_frame by blast
  show ?case
  proof (cases "now env st < dl \<and> \<not> b1")
    case True
    then show ?thesis using Suc h st1 by fastforce
  next
    case False
    have "st' = st \<or> st' = st1" using Suc.prems h False by (auto split: if_splits bool.splits)
    moreover have "st = st\<lparr>ds_world := ds_world st\<rparr>" by simp
    ultimately show ?thesis using st1 by metis
  qed
qed

lemma wait_frame: "wait_until_carrying env since st = (b, st') \<Longrightarrow> \<exists>w. st' = st\<lparr>ds_world := w\<rparr>"
  unfolding wait_until_carrying_def by (rule wait_loop_frame)

section \<open>The tunnel and the connection record\<close>

definition linked :: "('t, 'w) dstate \<Rightarrow> bool" where
  "linked st \<longleftrightarrow> (ds_tunnel st = None \<longleftrightarrow> ds_current st = None)"

lemma linked_same_conn: "same_conn st st' \<Longrightarrow> linked st' = linked st"
  by (simp add: linked_def same_conn_def)

lemma linked_upd [simp]:
  "linked (st\<lparr>ds_world := w\<rparr>) = linked st"
  "linked (record_direct env m st) = linked st"
  "linked (record_throughput env s m st) = linked st"
  by (simp_all add: linked_def record_direct_def record_throughput_def)

lemma new_tunnel_frame: "new_tunnel env st = (r, st') \<Longrightarrow> \<exists>w. st' = st\<lparr>ds_world := w\<rparr>"
  by (auto simp: new_tunnel_def Let_def split: prod.splits sum.splits)

lemma establish_cases:
  assumes "establish env c st = (r, st')"
  obtains e w where "r = Inl e" "st' = st\<lparr>ds_world := w\<rparr>"
  | t w where "r = Inr ()"
      "st' = st\<lparr>ds_tunnel := Some t, ds_current := Some (connection_from c), ds_world := w\<rparr>"
proof -
  obtain r1 st1 where n: "new_tunnel env st = (r1, st1)" by fastforce
  obtain w1 where st1: "st1 = st\<lparr>ds_world := w1\<rparr>" using new_tunnel_frame [OF n] by blast
  show ?thesis
  proof (cases r1)
    case (Inl e)
    have "establish env c st = (Inl e, st1)" using n Inl by (simp add: establish_def)
    then show ?thesis using assms that(1) [of e w1] unfolding st1 by simp
  next
    case (Inr t)
    obtain r2 t2 w2 where u: "tb_up (ev_backend env) t (spec_for st c) (ds_world st1) = (r2, t2, w2)"
      by (metis prod_cases3)
    show ?thesis
    proof (cases r2)
      case (Inl e)
      have "establish env c st =
          (Inl (TunnelErr e), st\<lparr>ds_world := tb_drop (ev_backend env) t2 w2\<rparr>)"
        using n u \<open>r1 = Inr t\<close> st1 Inl by (simp add: establish_def Let_def)
      then show ?thesis using assms that(1) by (metis Pair_inject)
    next
      case (Inr v)
      define w3 where
        "w3 = (case ds_tunnel st of Some old \<Rightarrow> tb_drop (ev_backend env) old w2 | None \<Rightarrow> w2)"
      have "establish env c st = (Inr (),
          st\<lparr>ds_tunnel := Some t2, ds_current := Some (connection_from c), ds_world := w3\<rparr>)"
        using n u \<open>r1 = Inr t\<close> st1 Inr by (simp add: establish_def Let_def w3_def)
      then show ?thesis using assms that(2) by (metis Pair_inject)
    qed
  qed
qed

lemma establish_linked: "establish env c st = (r, st') \<Longrightarrow> linked st \<Longrightarrow> linked st'"
  by (erule establish_cases) (auto simp: linked_def)

lemma move_to_cases:
  assumes "move_to env c st = (r, st')"
  obtains "r = Inl NotConnected" "st' = st" "ds_tunnel st = None"
  | t1 w e where "r = Inl e" "st' = st\<lparr>ds_tunnel := Some t1, ds_world := w\<rparr>" "ds_tunnel st \<noteq> None"
  | t1 w where "r = Inr ()" "ds_tunnel st \<noteq> None"
      "st' = st\<lparr>ds_tunnel := Some t1, ds_current := Some (connection_from c), ds_world := w\<rparr>"
  using assms by (cases "ds_tunnel st")
    (auto simp: move_to_def split: prod.splits sum.splits)

lemma move_to_linked: "move_to env c st = (r, st') \<Longrightarrow> linked st \<Longrightarrow> linked st'"
  by (erule move_to_cases) (auto simp: linked_def)

lemma try_candidate_linked:
  assumes "try_candidate env s target f c st = (r, st')" and "linked st"
  shows "linked st'"
proof -
  obtain r1 st1 where 1: "(if f then establish env c st else move_to env c st) = (r1, st1)" by fastforce
  have l1: "linked st1"
    using 1 assms(2) establish_linked move_to_linked by (cases f) (simp, blast)+
  obtain b st2 where 2: "wait_until_carrying env (ev_wall env (ds_world st)) st1 = (b, st2)" by fastforce
  have l2: "linked st2" using wait_frame [OF 2] l1 by auto
  obtain r3 st3 where 3: "measure_speed env s st2 = (r3, st3)" by fastforce
  have l3: "linked st3" using measure_speed_frame [OF 3] l2 by auto
  show ?thesis
    using assms(1) 1 2 3 l1 l2 l3
    by (auto simp: try_candidate_def Let_def split: sum.splits bool.splits if_splits)
qed

lemma try_candidates_linked:
  "try_candidates env s target f cs best st = (r, st') \<Longrightarrow> linked st \<Longrightarrow> linked st'"
proof (induction cs arbitrary: f best st)
  case (Cons c cs)
  obtain r1 st1 where 1: "try_candidate env s target f c st = (r1, st1)" by fastforce
  then have "linked st1" using try_candidate_linked Cons.prems(2) by blast
  then show ?case
    using Cons.prems(1) 1 Cons.IH
    by (auto split: sum.splits candidate_result.splits)
qed simp

lemma settle_linked: "settle env sl best st = (r, st') \<Longrightarrow> linked st \<Longrightarrow> linked st'"
  unfolding settle_def Let_def
  by (auto split: option.splits prod.splits sum.splits if_splits
      dest: establish_linked move_to_linked)

lemma calibrate_frame: "same_conn st (calibrate env b st)"
proof -
  obtain r st1 where m: "measure_speed env (select_settings st) st = (r, st1)" by fastforce
  then obtain w where st1: "st1 = st\<lparr>ds_world := w\<rparr>" using measure_speed_frame by blast
  show ?thesis
    using m unfolding calibrate_def measure_direct_def
    by (cases r) (simp_all add: st1 same_conn_def record_direct_def)
qed

lemma connect_best_linked:
  assumes "connect_best env m st = (r, st')" and "linked st"
  shows "linked st'"
proof -
  define should where
    "should = (case m of Some b \<Rightarrow> b | None \<Rightarrow> measure_before_connect (cf_autotune (ds_config st)))"
  obtain r1 st1 where 1: "sweep env None (calibrate env should st) = (r1, st1)" by fastforce
  have l1: "linked st1"
    using linked_same_conn [OF sweep_frame(1) [OF 1]] linked_same_conn [OF calibrate_frame] assms(2)
    by metis
  show ?thesis
    using assms(1) 1 l1 unfolding connect_best_def Let_def should_def [symmetric]
    by (auto split: sum.splits list.splits if_splits prod.splits
        dest: establish_linked try_candidates_linked settle_linked)
qed

lemma connect_linked:
  assumes "connect env s m st = (r, st')" and "linked st"
  shows "linked st'"
proof (cases "ds_current st")
  case (Some c)
  then show ?thesis using assms by (simp add: connect_def)
next
  case None
  show ?thesis
  proof (cases s)
    case None
    then show ?thesis using assms \<open>ds_current st = None\<close> connect_best_linked by (auto simp: connect_def)
  next
    case (Some name)
    obtain r1 st1 where 1: "probe_named env name st = (r1, st1)" by fastforce
    have "linked st1" using linked_same_conn [OF probe_named_frame [OF 1]] assms(2) by simp
    then show ?thesis
      using assms(1) \<open>ds_current st = None\<close> Some 1
      by (auto simp: connect_def split: sum.splits prod.splits dest: establish_linked)
  qed
qed

lemma switch_linked:
  assumes "switch env name st = (r, st')" and "linked st"
  shows "linked st'"
proof -
  obtain r1 st1 where 1: "probe_named env name st = (r1, st1)" by fastforce
  have "same_conn st st1" by (rule probe_named_frame [OF 1])
  then show ?thesis
    using assms 1 unfolding switch_def
    by (auto simp: linked_def same_conn_def split: option.splits sum.splits prod.splits)
qed

lemma disconnect_cases:
  assumes "disconnect env st = (r, st')"
  obtains "ds_tunnel st = None" "r = Inl NotConnected" "st' = st"
  | w where "ds_tunnel st \<noteq> None" "st' = st\<lparr>ds_tunnel := None, ds_current := None, ds_world := w\<rparr>"
  using assms by (cases "ds_tunnel st") (auto simp: disconnect_def split: prod.splits)

lemma disconnect_linked: "disconnect env st = (r, st') \<Longrightarrow> linked st \<Longrightarrow> linked st'"
  by (erule disconnect_cases) (auto simp: linked_def)

lemma speedtest_frame: "speedtest env st = (r, st') \<Longrightarrow> same_conn st st'"
proof -
  assume a: "speedtest env st = (r, st')"
  obtain r1 st1 where 1: "measure_speed env (throughput_settings st) st = (r1, st1)" by fastforce
  then obtain w where "st1 = st\<lparr>ds_world := w\<rparr>" using measure_speed_frame by blast
  then show ?thesis
    using a 1 by (auto simp: speedtest_def Let_def same_conn_def record_direct_def
        record_throughput_def split: sum.splits option.splits)
qed

lemma baseline_linked:
  assumes "baseline env st = (r, st')" and "linked st"
  shows "linked st'"
proof (cases "ds_current st")
  case None
  then show ?thesis
    using assms speedtest_frame [of env st r st'] linked_same_conn by (auto simp: baseline_def Let_def)
next
  case (Some c)
  obtain r1 st1 where 1: "measure_speed env (throughput_settings st) st = (r1, st1)" by fastforce
  have l1: "linked st1" using measure_speed_frame [OF 1] assms(2) by auto
  show ?thesis
  proof (cases r1)
    case (Inl e)
    then show ?thesis using assms(1) Some 1 l1 by (auto simp: baseline_def Let_def)
  next
    case (Inr tn)
    obtain r2 st2 where 2: "disconnect env (record_throughput env (cn_server c) (sm_mbps tn) st1) = (r2, st2)"
      by fastforce
    have l2: "linked st2" using disconnect_linked [OF 2] l1 by simp
    obtain d st3 where 3: "measure_speed env (throughput_settings st) st2 = (d, st3)" by fastforce
    have l3: "linked st3" using measure_speed_frame [OF 3] l2 by auto
    obtain r4 st4 where 4: "connect env (Some (cn_server c)) (Some False) st3 = (r4, st4)" by fastforce
    have l4: "linked st4" by (rule connect_linked [OF 4 l3])
    show ?thesis
      using assms(1) Some 1 Inr 2 3 4 l2 l4
      by (auto simp: baseline_def Let_def split: sum.splits)
  qed
qed

lemma killswitch_op_linked: "killswitch_op env b st = (r, st') \<Longrightarrow> linked st \<Longrightarrow> linked st'"
  unfolding killswitch_op_def killswitch_toggle_def set_killswitch_def Let_def linked_def
  by (auto split: option.splits bool.splits prod.splits sum.splits)

lemma reload_linked: "reload env st = (r, st') \<Longrightarrow> linked st \<Longrightarrow> linked st'"
  unfolding reload_def apply_filters_to_cached_results_def Let_def linked_def
  by (auto split: sum.splits prod.splits)

lemma recorded_frame:
  "recorded env d st = (r, st') \<Longrightarrow> ds_tunnel st' = ds_tunnel st \<and> ds_current st' = ds_current st"
  by (auto simp: recorded_def record_decision_def Let_def)

lemma carry_out_linked: "carry_out env d st = (r, st') \<Longrightarrow> linked st \<Longrightarrow> linked st'"
  unfolding carry_out_def
  by (auto split: option.splits prod.splits sum.splits dest!: recorded_frame dest: switch_linked)
    (auto simp: linked_def dest!: switch_linked split: if_splits)

lemma autotune_linked:
  assumes "autotune_pass env st0 = (r, st')" and "linked st0"
  shows "linked st'"
proof -
  define st where "st = st0\<lparr>ds_last_tune_at := Some (now env st0)\<rparr>"
  have l: "linked st" using assms(2) by (simp add: st_def linked_def)
  have rec: "linked st'' " if "recorded env d s = (r'', st'')" "linked s" for d s r'' st''
    using recorded_frame [OF that(1)] that(2) by (simp add: linked_def)
  show ?thesis
  proof (cases "ds_current st")
    case None
    then show ?thesis using assms(1) rec l unfolding autotune_pass_def Let_def st_def [symmetric] by auto
  next
    case (Some c)
    obtain rtt st1 where 1: "probe_current env (cn_server c) st = (rtt, st1)" by fastforce
    have l1: "linked st1" using linked_same_conn [OF probe_current_frame [OF 1]] l by simp
    obtain r2 st2 where 2: "sweep env None st1 = (r2, st2)" by fastforce
    have l2: "linked st2" using linked_same_conn [OF sweep_frame(1) [OF 2]] l1 by simp
    show ?thesis
      using assms(1) Some 1 2 l1 l2 rec carry_out_linked
      unfolding autotune_pass_def Let_def st_def [symmetric]
      by (auto split: option.splits sum.splits daemon_error.splits if_splits)
  qed
qed

lemma approve_linked:
  assumes "approve env st = (r, st')" and "linked st"
  shows "linked st'"
proof (cases "ds_pending st")
  case None
  then show ?thesis using assms by (simp add: approve_def)
next
  case (Some p)
  obtain target why t where p: "p = (target, why, t)" by (cases p)
  obtain r1 st1 where 1: "switch env (rk_name target) (st\<lparr>ds_pending := None\<rparr>) = (r1, st1)" by fastforce
  have "linked (st\<lparr>ds_pending := None\<rparr>)" using assms(2) by (simp add: linked_def)
  then have "linked st1" by (rule switch_linked [OF 1])
  then show ?thesis
    using assms(1) Some p 1 by (auto simp: approve_def linked_def split: sum.splits)
qed

lemma dismiss_linked: "dismiss env st = (r, st') \<Longrightarrow> linked st \<Longrightarrow> linked st'"
  by (auto simp: dismiss_def linked_def split: option.splits prod.splits)

lemma servers_frame: "servers env c n a st = (r, st') \<Longrightarrow> same_conn st st'"
  using server_list_frame(1) [of env st]
  by (auto simp: servers_def Let_def split: prod.splits sum.splits)

lemma status_frame: "status env st = (r, st') \<Longrightarrow> same_conn st st'"
  by (auto simp: status_def Let_def split: option.splits prod.splits sum.splits)

lemma load_linked: "load env path w = Inr st \<Longrightarrow> linked st"
  by (auto simp: load_def linked_def split: sum.splits prod.splits)

lemma reply_snd [simp]: "snd (reply f p) = snd p"
  by (auto simp: reply_def split: prod.split sum.split)

lemma handle_linked: "linked st \<Longrightarrow> linked (snd (handle env rq st))"
proof (induction env rq st rule: handle.induct)
  case (2 env st)
  then show ?case
    using status_frame [of env st] linked_same_conn by (auto split: prod.split)
next
  case (6 env country st)
  then show ?case
    using sweep_frame(1) [of env country st] linked_same_conn by (metis prod.collapse reply_snd handle.simps(6))
next
  case (8 env country limit all st)
  then show ?case
    using servers_frame [of env country limit all st] linked_same_conn
    by (metis prod.collapse reply_snd handle.simps(8))
next
  case (12 env st)
  then show ?case
    using speedtest_frame [of env st] linked_same_conn by (metis prod.collapse reply_snd handle.simps(12))
qed (auto simp: connect_linked disconnect_linked switch_linked reload_linked autotune_linked
  approve_linked baseline_linked killswitch_op_linked dismiss_linked prod_eq_iff
  intro: connect_linked [OF prod.collapse [symmetric]]
    disconnect_linked [OF prod.collapse [symmetric]] switch_linked [OF prod.collapse [symmetric]]
    reload_linked [OF prod.collapse [symmetric]] autotune_linked [OF prod.collapse [symmetric]]
    approve_linked [OF prod.collapse [symmetric]] baseline_linked [OF prod.collapse [symmetric]]
    killswitch_op_linked [OF prod.collapse [symmetric]] dismiss_linked [OF prod.collapse [symmetric]])

end
