(* ===== verification/Daemon_Safety.thy ===== *)
theory Daemon_Safety
  imports Daemon_Inv
begin

text \<open>
  What holds in every reachable state of the daemon. The locale \<open>daemon_invariant\<close> is the
  obligation of an invariant (it holds after loading, every request and every scheduled
  pass keep it, and the world may change under it); it is interpreted for the two
  invariants of the daemon: the tunnel handle and the connection record go together, and
  the settings are always validated ones whose filters a pending proposal passes.
\<close>

section \<open>Invariants of the daemon\<close>

locale daemon_invariant =
  fixes env :: "('t, 'w) env" and path :: path and I :: "('t, 'w) dstate \<Rightarrow> bool"
  assumes loaded: "load env path w = Inr st \<Longrightarrow> I st"
    and handled: "I st \<Longrightarrow> I (snd (handle env rq st))"
    and woken: "I st \<Longrightarrow> I (snd (scheduler_wake env st))"
    and untouched: "I st \<Longrightarrow> I (st\<lparr>ds_world := w\<rparr>)"
begin

lemma kept: "daemon_step env st st' \<Longrightarrow> I st \<Longrightarrow> I st'"
  by (erule daemon_stepE) (auto intro: handled woken untouched)

lemma reachable: "daemon_reach env path st \<Longrightarrow> I st"
  by (induction rule: daemon_reach.induct) (auto intro: loaded kept)

lemma after_requests: "daemon_reach env path st \<Longrightarrow> I (snd (handle env rq st))"
  by (rule handled) (rule reachable)

end

lemma scheduler_wake_linked: "linked st \<Longrightarrow> linked (snd (scheduler_wake env st))"
proof -
  assume l: "linked st"
  obtain r st1 where 1: "autotune_pass env st = (r, st1)" by fastforce
  then have "linked st1" using autotune_linked l by blast
  then show ?thesis using l 1 by (auto simp: scheduler_wake_def split: sum.split)
qed

interpretation linked_inv: daemon_invariant env path linked for env path
  by unfold_locales (auto intro: load_linked handle_linked scheduler_wake_linked)

section \<open>Settings and proposals\<close>

definition same_settings :: "('t, 'w) dstate \<Rightarrow> ('t, 'w) dstate \<Rightarrow> bool" where
  "same_settings st st' \<longleftrightarrow>
     ds_config st' = ds_config st \<and> ds_client st' = ds_client st \<and>
     ds_config_path st' = ds_config_path st \<and> ds_pending st' = ds_pending st \<and>
     ds_last_tune_at st' = ds_last_tune_at st"

lemma same_settings_refl [simp]: "same_settings st st"
  by (simp add: same_settings_def)

lemma same_settings_trans:
  "same_settings st st' \<Longrightarrow> same_settings st' st'' \<Longrightarrow> same_settings st st''"
  by (simp add: same_settings_def)

lemma same_settings_upd [simp]:
  "same_settings st (st\<lparr>ds_world := w\<rparr>)"
  "same_settings st (record_direct env m st)"
  "same_settings st (record_throughput env s m st)"
  "same_settings st (st\<lparr>ds_tunnel := t, ds_world := w\<rparr>)"
  "same_settings st (st\<lparr>ds_tunnel := t, ds_current := c, ds_world := w\<rparr>)"
  by (simp_all add: same_settings_def record_direct_def record_throughput_def)

lemma same_conn_settings: "same_conn st st' \<Longrightarrow> same_settings st st'"
  by (simp add: same_conn_def same_settings_def)

lemma establish_settings: "establish env c st = (r, st') \<Longrightarrow> same_settings st st'"
  by (erule establish_cases) simp_all

lemma move_to_settings: "move_to env c st = (r, st') \<Longrightarrow> same_settings st st'"
  by (erule move_to_cases) simp_all

lemma disconnect_settings: "disconnect env st = (r, st') \<Longrightarrow> same_settings st st'"
  by (erule disconnect_cases) simp_all

lemma measure_speed_settings: "measure_speed env s st = (r, st') \<Longrightarrow> same_settings st st'"
  by (drule measure_speed_frame) auto

lemma try_candidate_settings:
  assumes "try_candidate env s target f c st = (r, st')"
  shows "same_settings st st'"
proof -
  obtain r1 st1 where 1: "(if f then establish env c st else move_to env c st) = (r1, st1)" by fastforce
  have s1: "same_settings st st1"
    using 1 establish_settings move_to_settings by (cases f) (simp, blast)+
  obtain b st2 where 2: "wait_until_carrying env (ev_wall env (ds_world st)) st1 = (b, st2)" by fastforce
  have s2: "same_settings st st2" using wait_frame [OF 2] s1 same_settings_trans by fastforce
  obtain r3 st3 where 3: "measure_speed env s st2 = (r3, st3)" by fastforce
  have s3: "same_settings st st3"
    by (rule same_settings_trans [OF s2 measure_speed_settings [OF 3]])
  have s4: "same_settings st (record_throughput env n m st3)" for n m
    by (rule same_settings_trans [OF s3]) simp
  show ?thesis
    using assms 1 2 3 s1 s2 s3 s4
    by (auto simp: try_candidate_def Let_def split: sum.splits bool.splits if_splits)
qed

lemma try_candidates_settings:
  "try_candidates env s target f cs best st = (r, st') \<Longrightarrow> same_settings st st'"
proof (induction cs arbitrary: f best st)
  case (Cons c cs)
  obtain r1 st1 where 1: "try_candidate env s target f c st = (r1, st1)" by fastforce
  note s1 = try_candidate_settings [OF 1]
  have IH: "try_candidates env s target False cs b st1 = (r, st') \<Longrightarrow> same_settings st st'" for b
    using Cons.IH same_settings_trans [OF s1] by blast
  show ?case
    using Cons.prems(1) 1 s1 IH by (auto split: sum.splits candidate_result.splits)
qed simp

lemma settle_settings: "settle env sl best st = (r, st') \<Longrightarrow> same_settings st st'"
  unfolding settle_def Let_def
  by (auto split: option.splits prod.splits sum.splits if_splits
      dest: establish_settings move_to_settings)

lemma connect_best_settings:
  assumes "connect_best env m st = (r, st')"
  shows "same_settings st st'"
proof -
  define should where
    "should = (case m of Some b \<Rightarrow> b | None \<Rightarrow> measure_before_connect (cf_autotune (ds_config st)))"
  obtain r1 st1 where 1: "sweep env None (calibrate env should st) = (r1, st1)" by fastforce
  have s1: "same_settings st st1"
    by (rule same_settings_trans [OF same_conn_settings [OF calibrate_frame]
          same_conn_settings [OF sweep_frame(1) [OF 1]]])
  have est: "establish env c st1 = (r', st'') \<Longrightarrow> same_settings st st''" for c r' st''
    using establish_settings same_settings_trans [OF s1] by blast
  show ?thesis
  proof (cases "\<exists>cs b x st2. try_candidates env (select_settings st1) (acceptance_mbps (cf_autotune (ds_config st))
        (direct_mbps st1)) True cs None st1 = (Inr (Inr b), st2) \<and> settle env cs b st2 = (r, st')")
    case True
    then show ?thesis
      using same_settings_trans [OF s1] same_settings_trans try_candidates_settings settle_settings by metis
  next
    case False
    then show ?thesis
      using assms 1 s1 est same_settings_trans [OF s1 try_candidates_settings]
      unfolding connect_best_def Let_def should_def [symmetric]
      by (auto split: sum.splits list.splits if_splits prod.splits)
  qed
qed

lemma connect_settings: "connect env s m st = (r, st') \<Longrightarrow> same_settings st st'"
  unfolding connect_def
  by (auto split: option.splits sum.splits prod.splits
      dest: connect_best_settings
      dest!: probe_named_frame [THEN same_conn_settings] establish_settings
      intro: same_settings_trans)

lemma switch_settings: "switch env name st = (r, st') \<Longrightarrow> same_settings st st'"
proof -
  assume a: "switch env name st = (r, st')"
  obtain r1 st1 where 1: "probe_named env name st = (r1, st1)" by fastforce
  have "same_settings st st1" by (rule same_conn_settings [OF probe_named_frame [OF 1]])
  then show ?thesis
    using a 1 unfolding switch_def
    by (auto simp: same_settings_def split: option.splits sum.splits prod.splits)
qed

lemma baseline_settings:
  assumes "baseline env st = (r, st')"
  shows "same_settings st st'"
proof (cases "ds_current st")
  case None
  then show ?thesis
    using assms speedtest_frame [of env st r st'] same_conn_settings by (auto simp: baseline_def Let_def)
next
  case (Some c)
  obtain r1 st1 where 1: "measure_speed env (throughput_settings st) st = (r1, st1)" by fastforce
  note s1 = measure_speed_settings [OF 1]
  show ?thesis
  proof (cases r1)
    case (Inl e)
    then show ?thesis using assms Some 1 s1 by (auto simp: baseline_def Let_def)
  next
    case (Inr tn)
    obtain r2 st2 where 2: "disconnect env (record_throughput env (cn_server c) (sm_mbps tn) st1) = (r2, st2)"
      by fastforce
    have s2: "same_settings st st2"
      using same_settings_trans [OF s1 same_settings_trans [OF _ disconnect_settings [OF 2]]] by simp
    obtain d st3 where 3: "measure_speed env (throughput_settings st) st2 = (d, st3)" by fastforce
    note s3 = same_settings_trans [OF s2 measure_speed_settings [OF 3]]
    obtain r4 st4 where 4: "connect env (Some (cn_server c)) (Some False) st3 = (r4, st4)" by fastforce
    note s4 = same_settings_trans [OF s3 connect_settings [OF 4]]
    have "same_settings st (record_direct env m st4)" for m
      by (rule same_settings_trans [OF s4]) simp
    then show ?thesis
      using assms Some 1 Inr 2 3 4 s2 s4
      by (auto simp: baseline_def Let_def split: sum.splits)
  qed
qed

section \<open>What a sweep ranks\<close>

lemma sweep_Inr:
  assumes "sweep env country st = (Inr rk, st')"
  obtains l t obs st2 where
    "ds_servers st' = Some (l, t)"
    "rk = map (to_ranked env st2) (rank (Probe.sweep (prober_of st) obs
       (sel_accepted (filter_apply l (sweep_filters (cf_filters (ds_config st)) country)))
       WG_ENTRIES (ap_port (cf_airvpn (ds_config st)))) (scoring_of st))"
    "ds_throughput_seen st2 = ds_throughput_seen st"
    "now env st2 = now env st'"
    "ds_last_ranking st' = rk" "rk \<noteq> []"
proof -
  define servers where
    "servers l = sel_accepted (filter_apply l (sweep_filters (cf_filters (ds_config st)) country))" for l
  define port where "port = ap_port (cf_airvpn (ds_config st))"
  obtain l st1 where l: "server_list env st = (Inr l, st1)"
    using assms by (auto simp: sweep_def Let_def split: sum.splits prod.splits)
  obtain ms st2 where ms: "run_sweep env (prober_of st) (servers l) port st1 = (ms, st2)" by fastforce
  obtain obs w where obs: "ms = Probe.sweep (prober_of st) obs (servers l) WG_ENTRIES port"
      "st2 = st1\<lparr>ds_world := w\<rparr>"
    using run_sweep_cases [OF ms] by blast
  obtain t where t: "ds_servers st1 = Some (l, t)" using server_list_cached [OF l] by blast
  have rk: "rk = map (to_ranked env st2) (rank ms (scoring_of st))"
      "ds_last_ranking st' = rk" "ds_servers st' = ds_servers st2" "now env st' = now env st2"
      "filter (\<lambda>m. m_rtt m \<noteq> None) ms \<noteq> []"
    using assms l ms
    by (auto simp: sweep_def Let_def servers_def port_def now_def
        split: if_splits prod.splits)
  have "rank ms (scoring_of st) \<noteq> []"
  proof -
    obtain m d where "m \<in> set ms" "m_rtt m = Some d"
      using rk(5) by (auto simp: filter_empty_conv)
    then have "(m, d) \<in> set (reachable ms)" by (simp add: mem_reachable)
    then have "set (rank ms (scoring_of st)) \<noteq> {}" by (auto simp: set_rank)
    then show ?thesis by (metis empty_set)
  qed
  then show ?thesis
    using that [of l t st2 obs] rk t obs(1) server_list_frame(2) [OF l]
    by (simp add: obs(2) servers_def port_def)
qed

lemma rank_server:
  assumes "x \<in> set (rank (Probe.sweep p obs ss es port) sc)"
  shows "sd_server x \<in> set ss"
proof -
  obtain m d where "(m, d) \<in> set (reachable (Probe.sweep p obs ss es port))" "sd_server x = m_server m"
    using assms by (auto simp: set_rank)
  then have "m \<in> set (Probe.sweep p obs ss es port)" by (simp add: mem_reachable)
  then obtain i where "i < length ss" "m = Probe.sweep p obs ss es port ! i"
    by (auto simp: in_set_conv_nth)
  then show ?thesis using \<open>sd_server x = m_server m\<close> by simp
qed

lemma sweep_accepted:
  assumes "sweep env country st = (Inr rk, st')" and "r \<in> set rk"
  shows "\<exists>l t s. ds_servers st' = Some (l, t) \<and> s \<in> set (sl_servers l) \<and>
    server_ok (sweep_filters (cf_filters (ds_config st)) country) s \<and>
    rk_name r = srv_name s \<and> rk_country_code r = country_code s \<and> rk_load r = srv_load s"
  using assms(1)
proof (rule sweep_Inr)
  fix l t obs st2
  assume s: "ds_servers st' = Some (l, t)"
    and rk: "rk = map (to_ranked env st2) (rank (Probe.sweep (prober_of st) obs
       (sel_accepted (filter_apply l (sweep_filters (cf_filters (ds_config st)) country)))
       WG_ENTRIES (ap_port (cf_airvpn (ds_config st)))) (scoring_of st))"
  obtain x where x: "r = to_ranked env st2 x" "x \<in> set (rank (Probe.sweep (prober_of st) obs
       (sel_accepted (filter_apply l (sweep_filters (cf_filters (ds_config st)) country)))
       WG_ENTRIES (ap_port (cf_airvpn (ds_config st)))) (scoring_of st))"
    using assms(2) rk by auto
  then have "sd_server x \<in> set (sl_servers l)"
      "server_ok (sweep_filters (cf_filters (ds_config st)) country) (sd_server x)"
    using rank_server [OF x(2)] by (simp_all add: mem_accepted)
  moreover have "rk_name r = srv_name (sd_server x)" "rk_country_code r = country_code (sd_server x)"
      "rk_load r = srv_load (sd_server x)"
    using x(1) by (simp_all add: to_ranked_def Let_def)
  ultimately show ?thesis using s by blast
qed

lemma sweep_passes_filters:
  assumes "sweep env None st = (Inr rk, st')" and "r \<in> set rk"
  shows "ranked_accepted (cf_filters (ds_config st)) r"
  using sweep_accepted [OF assms]
  by (auto simp: ranked_accepted_def accepts_iff_eligible server_ok_def sweep_filters_def)

lemma probe_named_name:
  assumes "probe_named env name st = (Inr chosen, st')"
  shows "eq_ignore_ascii_case (rk_name chosen) name"
proof -
  obtain l st1 server ms st2 where
      l: "server_list env st = (Inr l, st1)" and g: "get_server l name = Some server"
      and r: "run_sweep env (prober_of st) [server] (ap_port (cf_airvpn (ds_config st))) st1 = (ms, st2)"
      and c: "chosen \<in> to_ranked env st2 ` set (rank ms (scoring_of st))"
    using assms unfolding probe_named_def Let_def
    by (auto split: sum.splits option.splits prod.splits list.splits)
  obtain obs where ms: "ms = Probe.sweep (prober_of st) obs [server] WG_ENTRIES (ap_port (cf_airvpn (ds_config st)))"
    using run_sweep_cases [OF r] by blast
  obtain x where x: "x \<in> set (rank ms (scoring_of st))" "chosen = to_ranked env st2 x"
    using c by auto
  have "sd_server x = server" using rank_server x(1) ms by fastforce
  then show ?thesis
    using x(2) get_server_Some [OF g] by (simp add: to_ranked_def Let_def)
qed

section \<open>Settings stay valid and proposals pass the filters\<close>

definition settings_ok :: "('t, 'w) dstate \<Rightarrow> bool" where
  "settings_ok st \<longleftrightarrow> config_ok (ds_config st) \<and>
     (\<forall>p why t. ds_pending st = Some (p, why, t) \<longrightarrow>
        ranked_accepted (cf_filters (ds_config st)) p)"

lemma settings_ok_same: "same_settings st st' \<Longrightarrow> settings_ok st \<Longrightarrow> settings_ok st'"
  by (simp add: settings_ok_def same_settings_def)

lemma load_settings: "load env path w = Inr st \<Longrightarrow> settings_ok st"
  by (auto simp: load_def load_all_def settings_ok_def intro: config_load_ok
      split: sum.splits prod.splits)

lemma reload_settings: "reload env st = (r, st') \<Longrightarrow> settings_ok st \<Longrightarrow> settings_ok st'"
  by (auto simp: reload_def load_all_def settings_ok_def apply_filters_to_cached_results_def Let_def
      intro: config_load_ok split: sum.splits prod.splits option.splits if_splits)

lemma killswitch_op_settings: "killswitch_op env b st = (r, st') \<Longrightarrow> settings_ok st \<Longrightarrow> settings_ok st'"
  unfolding killswitch_op_def killswitch_toggle_def set_killswitch_def Let_def settings_ok_def config_ok_def
  by (auto split: option.splits bool.splits prod.splits sum.splits)

lemma dismiss_settings: "dismiss env st = (r, st') \<Longrightarrow> settings_ok st \<Longrightarrow> settings_ok st'"
  by (auto simp: dismiss_def settings_ok_def split: option.splits prod.splits)

lemma approve_settings:
  assumes "approve env st = (r, st')" and "settings_ok st"
  shows "settings_ok st'"
proof (cases "ds_pending st")
  case None
  then show ?thesis using assms by (simp add: approve_def)
next
  case (Some p)
  obtain target why t where p: "p = (target, why, t)" by (cases p)
  obtain r1 st1 where 1: "switch env (rk_name target) (st\<lparr>ds_pending := None\<rparr>) = (r1, st1)" by fastforce
  have "settings_ok (st\<lparr>ds_pending := None\<rparr>)" using assms(2) by (simp add: settings_ok_def)
  then have "settings_ok st1" by (rule settings_ok_same [OF switch_settings [OF 1]])
  then show ?thesis
    using assms(1) Some p 1 by (auto simp: approve_def settings_ok_def split: sum.splits)
qed

lemma recorded_settings:
  assumes "recorded env d st = (r, st')" and "settings_ok st"
    and "\<And>s why. d = Propose s why \<Longrightarrow> ranked_accepted (cf_filters (ds_config st)) s"
  shows "settings_ok st'"
  using assms by (cases d) (auto simp: recorded_def record_decision_def settings_ok_def Let_def)

lemma decide_target_best: "decision_target (decide a t) = Some s \<Longrightarrow> as_best a = Some s"
  by (auto simp: decide_target_iff move_due_def)

lemma carry_out_settings:
  assumes "carry_out env d st = (r, st')" and "settings_ok st"
    and "\<And>s. decision_target d = Some s \<Longrightarrow> ranked_accepted (cf_filters (ds_config st)) s"
  shows "settings_ok st'"
proof (cases "is_actionable d")
  case True
  then obtain s why where d: "d = Switch s why" by (auto simp: is_actionable_iff)
  obtain r1 st1 where 1: "switch env (rk_name s) st = (r1, st1)" by fastforce
  have "settings_ok st1" by (rule settings_ok_same [OF switch_settings [OF 1] assms(2)])
  then show ?thesis
    using assms(1) 1 by (auto simp: carry_out_def d split: sum.splits intro: recorded_settings)
next
  case False
  then show ?thesis
    using assms(1) recorded_settings [OF _ assms(2)] assms(3) by (auto simp: carry_out_def)
qed

lemma autotune_settings:
  assumes "autotune_pass env st0 = (r, st')" and "settings_ok st0"
  shows "settings_ok st'"
proof -
  define st where "st = st0\<lparr>ds_last_tune_at := Some (now env st0)\<rparr>"
  have l: "settings_ok st" using assms(2) by (simp add: st_def settings_ok_def)
  have rec: "recorded env d s = (r, st') \<Longrightarrow> settings_ok s \<Longrightarrow> \<forall>p why. d \<noteq> Propose p why \<Longrightarrow> settings_ok st'"
    for d s by (rule recorded_settings) auto
  show ?thesis
  proof (cases "ds_current st")
    case None
    then show ?thesis using assms(1) rec [OF _ l] unfolding autotune_pass_def Let_def st_def [symmetric] by auto
  next
    case (Some c)
    obtain rtt st1 where 1: "probe_current env (cn_server c) st = (rtt, st1)" by fastforce
    have s1: "settings_ok st1"
      by (rule settings_ok_same [OF same_conn_settings [OF probe_current_frame [OF 1]] l])
    obtain r2 st2 where 2: "sweep env None st1 = (r2, st2)" by fastforce
    have c2: "same_settings st1 st2" by (rule same_conn_settings [OF sweep_frame(1) [OF 2]])
    note s2 = settings_ok_same [OF c2 s1]
    have car: "settings_ok st'"
      if "carry_out env (decide (assess env c rtt rk st2) a) st2 = (r, st')" "r2 = Inr rk" for rk a
    proof (rule carry_out_settings [OF that(1) s2])
      fix s assume "decision_target (decide (assess env c rtt rk st2) a) = Some s"
      then have "s \<in> set rk"
        by (auto dest!: decide_target_best simp: assess_def split: list.splits)
      then show "ranked_accepted (cf_filters (ds_config st2)) s"
        using sweep_passes_filters 2 that(2) c2 by (simp add: same_settings_def)
    qed
    show ?thesis
      using assms(1) Some 1 2 rec [OF _ s1] rec [OF _ s2] s2 car
      unfolding autotune_pass_def Let_def st_def [symmetric]
      by (auto split: option.splits sum.splits daemon_error.splits if_splits)
  qed
qed

text \<open>Operations that keep the settings outright, and those that replace or clear them.\<close>

lemmas keeps_settings =
  connect_settings switch_settings disconnect_settings baseline_settings
  status_frame [THEN same_conn_settings] sweep_frame(1) [THEN same_conn_settings]
  servers_frame [THEN same_conn_settings] speedtest_frame [THEN same_conn_settings]

lemmas resets_settings =
  reload_settings killswitch_op_settings dismiss_settings approve_settings autotune_settings

lemma handle_settings: "settings_ok st \<Longrightarrow> settings_ok (snd (handle env rq st))"
proof (induction env rq st rule: handle.induct)
  case (2 env st)
  obtain r st' where "status env st = (r, st')" by fastforce
  then show ?case using 2 settings_ok_same [OF keeps_settings(5)] by simp
qed (simp_all add: keeps_settings [THEN settings_ok_same, OF prod.collapse [symmetric]]
      resets_settings [OF prod.collapse [symmetric]])

lemma scheduler_wake_settings: "settings_ok st \<Longrightarrow> settings_ok (snd (scheduler_wake env st))"
proof -
  assume l: "settings_ok st"
  obtain r st1 where 1: "autotune_pass env st = (r, st1)" by fastforce
  then have "settings_ok st1" using autotune_settings l by blast
  then show ?thesis using l 1 by (auto simp: scheduler_wake_def split: sum.split)
qed

interpretation settings_inv: daemon_invariant env path settings_ok for env path
  by unfold_locales
    (auto intro: load_settings handle_settings scheduler_wake_settings settings_ok_same [rotated])

section \<open>Properties\<close>

text \<open>C4: in every reachable state the daemon holds a tunnel handle exactly
when it has a connection on record, whatever requests, passes and failures led there.\<close>

theorem tunnel_and_record_agree:
  assumes "daemon_reach env path st"
  shows "ds_tunnel st = None \<longleftrightarrow> ds_current st = None"
  using linked_inv.reachable [OF assms] by (simp only: linked_def)

theorem tunnel_and_record_agree_witness: "ds_tunnel sample_start = None \<longleftrightarrow> ds_current sample_start = None"
  by (rule tunnel_and_record_agree [OF sample_reach])

text \<open>C8: in every reachable state the settings in force have passed every check,
and a switch that waits for approval is to a server the filters in force admit.\<close>

theorem settings_stay_valid:
  assumes "daemon_reach env path st"
  shows "config_ok (ds_config st) \<and>
    (\<forall>p why t. ds_pending st = Some (p, why, t) \<longrightarrow> ranked_accepted (cf_filters (ds_config st)) p)"
  using settings_inv.reachable [OF assms] unfolding settings_ok_def .

theorem settings_stay_valid_witness: "config_ok (ds_config sample_start)"
  using settings_stay_valid [OF sample_reach] by simp

text \<open>C25: a sweep that succeeds ranks at least one server, stores the
ranking, and ranks only servers of the list it has cached that are healthy and pass the
filters, where a country named in the request replaces the configured ones.\<close>

theorem sweep_ranks_admissible_servers:
  assumes "Daemon_State.sweep env country st = (Inr rk, st')"
  shows "rk \<noteq> [] \<and> ds_last_ranking st' = rk \<and>
    (\<exists>l t. ds_servers st' = Some (l, t) \<and>
      (\<forall>r\<in>set rk. \<exists>s\<in>set (sl_servers l).
         server_ok (sweep_filters (cf_filters (ds_config st)) country) s \<and>
         rk_name r = srv_name s \<and> rk_load r = srv_load s))"
proof -
  obtain l t where c: "ds_servers st' = Some (l, t)" "ds_last_ranking st' = rk" "rk \<noteq> []"
    using assms by (rule sweep_Inr)
  have "\<exists>s\<in>set (sl_servers l). server_ok (sweep_filters (cf_filters (ds_config st)) country) s \<and>
      rk_name r = srv_name s \<and> rk_load r = srv_load s" if "r \<in> set rk" for r
    using sweep_accepted [OF assms that] c(1) by auto
  then show ?thesis using c by blast
qed

theorem sweep_ranks_admissible_servers_witness:
  "\<exists>rk st'. Daemon_State.sweep sample_env None sample_start = (Inr rk, st') \<and> ds_last_ranking st' = rk"
proof -
  obtain rk st' where "Daemon_State.sweep sample_env None sample_start = (Inr rk, st')"
    using sample_sweep(1) by blast
  then show ?thesis using sweep_ranks_admissible_servers by blast
qed

text \<open>C33: a reload that fails leaves the daemon exactly as it was. One that succeeds
puts validated settings in force, forgets the cached server list, and keeps of the last
ranking just the servers the new filters admit, without touching the connection.\<close>

theorem reload_is_atomic:
  "case reload env st of
     (Inl e, st') \<Rightarrow> st' = st
   | (Inr _, st') \<Rightarrow>
       config_ok (ds_config st') \<and> ds_servers st' = None \<and>
       ds_last_ranking st' = filter (ranked_accepted (cf_filters (ds_config st'))) (ds_last_ranking st) \<and>
       ds_tunnel st' = ds_tunnel st \<and> ds_current st' = ds_current st"
  by (auto simp: reload_def load_all_def apply_filters_to_cached_results_def Let_def
      intro: config_load_ok split: sum.splits prod.splits)

end
