(* ===== verification/Daemon_Refine.thy ===== *)
theory Daemon_Refine
  imports Daemon_Safety
begin

text \<open>
  The daemon refines a small machine on the name of the connected server: which requests
  may connect, move or disconnect, and under which policy the tuner may. Every request and
  every scheduled pass is one step of it.
\<close>

section \<open>The connection machine\<close>

type_synonym conn = "string option" \<comment> \<open>the connected server, if any\<close>

definition conn_of :: "('t, 'w) dstate \<Rightarrow> conn" where
  "conn_of st = map_option cn_server (ds_current st)"

text \<open>The move a user asks for by name: stay, or go to a server of that name.\<close>

definition named_move :: "string \<Rightarrow> conn \<Rightarrow> conn \<Rightarrow> bool" where
  "named_move name a b \<longleftrightarrow> b = a \<or> (\<exists>n. b = Some n \<and> eq_ignore_ascii_case n name)"

text \<open>What the tuner may do: nothing but stay unless the policy is \<^verbatim>\<open>auto\<close>.\<close>

definition tuner_move :: "switch_policy \<Rightarrow> conn \<Rightarrow> conn \<Rightarrow> bool" where
  "tuner_move p a b \<longleftrightarrow> b = a \<or> (p = Auto \<and> a \<noteq> None \<and> b \<noteq> None)"

fun conn_step :: "switch_policy \<Rightarrow> request \<Rightarrow> conn \<Rightarrow> conn \<Rightarrow> bool" where
  "conn_step p (ReqConnect (Some name) m) None b \<longleftrightarrow> named_move name None b"
| "conn_step p (ReqConnect None m) None b \<longleftrightarrow> True"
| "conn_step p (ReqSwitch name) (Some x) b \<longleftrightarrow> named_move name (Some x) b"
| "conn_step p ReqApprove (Some x) b \<longleftrightarrow> b \<noteq> None"
| "conn_step p ReqDisconnect a b \<longleftrightarrow> b = None"
| "conn_step p (ReqBaseline True) (Some x) b \<longleftrightarrow> b = None \<or> named_move x (Some x) b"
| "conn_step p ReqAutotune a b \<longleftrightarrow> tuner_move p a b"
| "conn_step p rq a b \<longleftrightarrow> b = a"

text \<open>The policy in force, and whether a step of the machine needs the tuner's permission.\<close>

definition policy_of :: "('t, 'w) dstate \<Rightarrow> switch_policy" where
  "policy_of st = at_switch_policy (cf_autotune (ds_config st))"

section \<open>Lemmas on the operations\<close>

lemma same_conn_of: "same_conn st st' \<Longrightarrow> conn_of st' = conn_of st"
  by (simp add: conn_of_def same_conn_def)

lemma conn_of_upd [simp]:
  "conn_of (st\<lparr>ds_world := w\<rparr>) = conn_of st"
  "conn_of (record_direct env m st) = conn_of st"
  "conn_of (record_throughput env s m st) = conn_of st"
  "conn_of (st\<lparr>ds_tunnel := t, ds_world := w\<rparr>) = conn_of st"
  by (simp_all add: conn_of_def record_direct_def record_throughput_def)

lemma establish_conn:
  "establish env c st = (r, st') \<Longrightarrow> conn_of st' = (if r = Inr () then Some (rk_name c) else conn_of st)"
  by (erule establish_cases) (simp_all add: conn_of_def connection_from_def)

lemma connect_named:
  assumes "connect env (Some name) m st = (r, st')" and "conn_of st = None"
  shows "named_move name None (conn_of st')"
proof -
  have n: "ds_current st = None" using assms(2) by (simp add: conn_of_def)
  obtain r1 st1 where 1: "probe_named env name st = (r1, st1)" by fastforce
  have c1: "conn_of st1 = None" using same_conn_of [OF probe_named_frame [OF 1]] assms(2) by simp
  show ?thesis
  proof (cases r1)
    case (Inl e)
    then show ?thesis using assms(1) n 1 c1 by (auto simp: connect_def named_move_def)
  next
    case (Inr chosen)
    obtain r2 st2 where 2: "establish env chosen st1 = (r2, st2)" by fastforce
    have "st' = st2" using assms(1) n 1 Inr 2 by (auto simp: connect_def split: sum.splits)
    then show ?thesis
      using establish_conn [OF 2] c1 probe_named_name [of env name st chosen st1] 1 Inr
      by (auto simp: named_move_def)
  qed
qed

lemma connect_connected: "conn_of st = Some x \<Longrightarrow> snd (connect env s m st) = st"
  by (auto simp: connect_def conn_of_def)

lemma switch_conn:
  assumes "switch env name st = (r, st')"
  shows "conn_of st = None \<Longrightarrow> conn_of st' = None"
    and "named_move name (conn_of st) (conn_of st')"
proof -
  obtain r1 st1 where 1: "probe_named env name st = (r1, st1)" by fastforce
  have c1: "conn_of st1 = conn_of st" by (rule same_conn_of [OF probe_named_frame [OF 1]])
  show "conn_of st = None \<Longrightarrow> conn_of st' = None"
    using assms by (auto simp: switch_def conn_of_def)
  have "conn_of st' = conn_of st \<or> (\<exists>chosen. r1 = Inr chosen \<and> conn_of st' = Some (rk_name chosen))"
    using assms 1 c1 unfolding switch_def
    by (auto simp: conn_of_def connection_from_def split: option.splits sum.splits prod.splits)
  then show "named_move name (conn_of st) (conn_of st')"
    using 1 by (auto simp: named_move_def dest: probe_named_name)
qed

lemma switch_stays_connected:
  "switch env name st = (r, st') \<Longrightarrow> conn_of st \<noteq> None \<Longrightarrow> conn_of st' \<noteq> None"
  using switch_conn(2) by (fastforce simp: named_move_def)

lemma disconnect_conn: "disconnect env st = (r, st') \<Longrightarrow> linked st \<Longrightarrow> conn_of st' = None"
  by (erule disconnect_cases) (simp_all add: linked_def conn_of_def)

lemma baseline_conn:
  assumes "baseline env st = (r, st')" and "linked st"
  shows "conn_of st = None \<Longrightarrow> conn_of st' = None"
    and "conn_of st = Some x \<Longrightarrow> conn_of st' = None \<or> named_move x (Some x) (conn_of st')"
proof -
  show "conn_of st = None \<Longrightarrow> conn_of st' = None"
    using assms(1) same_conn_of [OF speedtest_frame [of env st r st']]
    by (auto simp: baseline_def Let_def conn_of_def)
next
  assume "conn_of st = Some x"
  then obtain c where c: "ds_current st = Some c" "cn_server c = x" by (auto simp: conn_of_def)
  obtain r1 st1 where 1: "measure_speed env (throughput_settings st) st = (r1, st1)" by fastforce
  obtain w1 where st1: "st1 = st\<lparr>ds_world := w1\<rparr>" using measure_speed_frame [OF 1] by blast
  show "conn_of st' = None \<or> named_move x (Some x) (conn_of st')"
  proof (cases r1)
    case (Inl e)
    then show ?thesis
      using assms(1) c 1 st1 \<open>conn_of st = Some x\<close>
      by (auto simp: baseline_def Let_def named_move_def)
  next
    case (Inr tn)
    obtain r2 st2 where 2: "disconnect env (record_throughput env x (sm_mbps tn) st1) = (r2, st2)"
      by fastforce
    have c2: "conn_of st2 = None" by (rule disconnect_conn [OF 2]) (simp add: st1 assms(2))
    obtain d st3 where 3: "measure_speed env (throughput_settings st) st2 = (d, st3)" by fastforce
    have c3: "conn_of st3 = None" using measure_speed_frame [OF 3] c2 by auto
    obtain r4 st4 where 4: "connect env (Some x) (Some False) st3 = (r4, st4)" by fastforce
    have "named_move x None (conn_of st4)" by (rule connect_named [OF 4 c3])
    moreover have "conn_of st' = conn_of st2 \<or> conn_of st' = conn_of st4"
      using assms(1) c 1 Inr 2 3 4
      by (auto simp: baseline_def Let_def split: sum.splits)
    ultimately show ?thesis using c2 by (auto simp: named_move_def)
  qed
qed

lemma recorded_conn: "recorded env d st = (r, st') \<Longrightarrow> conn_of st' = conn_of st"
  by (drule recorded_frame) (simp add: conn_of_def)

lemma carry_out_conn:
  assumes "carry_out env d st = (r, st')" and "conn_of st \<noteq> None"
  shows "conn_of st' \<noteq> None" and "\<not> is_actionable d \<Longrightarrow> conn_of st' = conn_of st"
proof -
  show "conn_of st' \<noteq> None"
    using assms unfolding carry_out_def
    by (auto split: option.splits prod.splits sum.splits if_splits
        dest!: recorded_conn dest: switch_stays_connected)
  show "\<not> is_actionable d \<Longrightarrow> conn_of st' = conn_of st"
    using assms(1) by (auto simp: carry_out_def dest: recorded_conn)
qed

lemma autotune_conn:
  assumes "autotune_pass env st0 = (r, st')"
  shows "tuner_move (policy_of st0) (conn_of st0) (conn_of st')"
proof -
  define st where "st = st0\<lparr>ds_last_tune_at := Some (now env st0)\<rparr>"
  have st: "conn_of st = conn_of st0" "ds_config st = ds_config st0" by (simp_all add: st_def conn_of_def)
  show ?thesis
  proof (cases "ds_current st")
    case None
    then show ?thesis
      using assms st unfolding autotune_pass_def Let_def st_def [symmetric] tuner_move_def
      by (auto dest!: recorded_conn)
  next
    case (Some c)
    obtain rtt st1 where 1: "probe_current env (cn_server c) st = (rtt, st1)" by fastforce
    note f1 = probe_current_frame [OF 1]
    obtain r2 st2 where 2: "sweep env None st1 = (r2, st2)" by fastforce
    note f2 = same_conn_trans [OF f1 sweep_frame(1) [OF 2]]
    have eqs: "conn_of st1 = conn_of st0" "conn_of st2 = conn_of st0" "ds_config st2 = ds_config st0"
      using same_conn_of [OF f1] same_conn_of [OF f2] f2 st by (simp_all add: same_conn_def)
    have some: "conn_of st0 \<noteq> None" using Some by (simp add: st_def conn_of_def)
    have car: "tuner_move (policy_of st0) (conn_of st0) (conn_of st')"
      if "carry_out env (decide a (cf_autotune (ds_config st2))) st2 = (r, st')" for a
    proof (cases "policy_of st0 = Auto")
      case True
      then show ?thesis using carry_out_conn(1) [OF that] some eqs by (simp add: tuner_move_def)
    next
      case False
      then have "\<not> is_actionable (decide a (cf_autotune (ds_config st2)))"
        by (simp add: decide_actionable policy_of_def eqs)
      then show ?thesis using carry_out_conn(2) [OF that] some eqs by (simp add: tuner_move_def)
    qed
    have stay: "recorded env d s = (r, st') \<Longrightarrow> conn_of s = conn_of st0 \<Longrightarrow>
        tuner_move (policy_of st0) (conn_of st0) (conn_of st')" for d s
      using recorded_conn by (fastforce simp: tuner_move_def)
    have refl: "conn_of s = conn_of st0 \<Longrightarrow> tuner_move (policy_of st0) (conn_of st0) (conn_of s)" for s
      by (simp add: tuner_move_def)
    show ?thesis
      using assms Some 1 2 eqs car stay refl
      unfolding autotune_pass_def Let_def st_def [symmetric]
      by (auto split: option.splits sum.splits daemon_error.splits if_splits)
  qed
qed

lemma approve_conn:
  assumes "approve env st = (r, st')"
  shows "conn_of st = None \<Longrightarrow> conn_of st' = None" and "conn_of st \<noteq> None \<Longrightarrow> conn_of st' \<noteq> None"
proof -
  have keep: "conn_of (st\<lparr>ds_pending := None\<rparr>) = conn_of st" by (simp add: conn_of_def)
  have "st' = st \<or> (\<exists>name r1 st1. switch env name (st\<lparr>ds_pending := None\<rparr>) = (r1, st1) \<and>
      conn_of st' = conn_of st1)"
  proof (cases "ds_pending st")
    case None
    then show ?thesis using assms by (simp add: approve_def)
  next
    case (Some p)
    obtain target why t where p: "p = (target, why, t)" by (cases p)
    obtain r1 st1 where 1: "switch env (rk_name target) (st\<lparr>ds_pending := None\<rparr>) = (r1, st1)" by fastforce
    have "conn_of st' = conn_of st1"
      using assms Some p 1 by (auto simp: approve_def conn_of_def split: sum.splits)
    then show ?thesis using 1 by blast
  qed
  then show "conn_of st = None \<Longrightarrow> conn_of st' = None" "conn_of st \<noteq> None \<Longrightarrow> conn_of st' \<noteq> None"
    using switch_conn(1) switch_stays_connected keep by metis+
qed

lemma killswitch_op_conn: "killswitch_op env b st = (r, st') \<Longrightarrow> conn_of st' = conn_of st"
  unfolding killswitch_op_def killswitch_toggle_def set_killswitch_def Let_def conn_of_def
  by (auto split: option.splits bool.splits prod.splits sum.splits)

lemma reload_conn: "reload env st = (r, st') \<Longrightarrow> conn_of st' = conn_of st"
  unfolding reload_def apply_filters_to_cached_results_def Let_def conn_of_def
  by (auto split: sum.splits prod.splits)

lemma dismiss_conn: "dismiss env st = (r, st') \<Longrightarrow> conn_of st' = conn_of st"
  by (auto simp: dismiss_def conn_of_def split: option.splits prod.splits)

section \<open>Refinement\<close>

lemmas stays = killswitch_op_conn reload_conn dismiss_conn
  sweep_frame(1) [THEN same_conn_of] servers_frame [THEN same_conn_of]
  speedtest_frame [THEN same_conn_of]

lemma handle_conn_step:
  assumes "linked st"
  shows "conn_step (policy_of st) rq (conn_of st) (conn_of (snd (handle env rq st)))"
proof (cases rq)
  case (ReqConnect s m)
  then show ?thesis
    using connect_named [OF prod.collapse [symmetric]] connect_connected [of st]
    by (cases s; cases "conn_of st") simp_all
next
  case ReqStatus
  obtain r st' where "status env st = (r, st')" by fastforce
  then show ?thesis using ReqStatus same_conn_of [OF status_frame] by simp
next
  case (ReqSwitch name)
  obtain r st' where "switch env name st = (r, st')" by fastforce
  then show ?thesis
    using ReqSwitch switch_conn [of env name st r st'] by (cases "conn_of st") simp_all
next
  case ReqApprove
  obtain r st' where "approve env st = (r, st')" by fastforce
  then show ?thesis
    using ReqApprove approve_conn [of env st r st'] by (cases "conn_of st") simp_all
next
  case (ReqBaseline b)
  obtain r st' where "baseline env st = (r, st')" by fastforce
  then show ?thesis
    using ReqBaseline baseline_conn [of env st r st'] assms by (cases b; cases "conn_of st") simp_all
next
  case ReqDisconnect
  then show ?thesis using disconnect_conn [OF prod.collapse [symmetric] assms] by simp
next
  case ReqAutotune
  then show ?thesis using autotune_conn [OF prod.collapse [symmetric]] by simp
qed (simp_all add: stays [OF prod.collapse [symmetric]])

lemma wake_conn_step: "tuner_move (policy_of st) (conn_of st) (conn_of (snd (scheduler_wake env st)))"
  by (auto simp: scheduler_wake_def tuner_move_def split: sum.split prod.split
      dest: autotune_conn [unfolded tuner_move_def])

section \<open>Properties\<close>

text \<open>C3: from every reachable state, each request is a step of the
connection machine and each scheduled pass a step of its tuner. So only a connect request can
start a connection, only disconnect and the confirmed baseline end one, a switch goes to the
server it names, and the tuner moves a connection only under the policy \<^verbatim>\<open>auto\<close>.\<close>

theorem requests_refine_the_machine:
  assumes "daemon_reach env path st"
  shows "conn_step (policy_of st) rq (conn_of st) (conn_of (snd (handle env rq st))) \<and>
    tuner_move (policy_of st) (conn_of st) (conn_of (snd (scheduler_wake env st)))"
  using handle_conn_step [OF linked_inv.reachable [OF assms]] wake_conn_step by simp

theorem requests_refine_the_machine_witness:
  "conn_step (policy_of sample_start) (ReqConnect (Some ''achernar'') None) None
     (conn_of (snd (handle sample_env (ReqConnect (Some ''achernar'') None) sample_start)))"
  using requests_refine_the_machine [OF sample_reach, of "ReqConnect (Some ''achernar'') None"]
  by (simp add: conn_of_def)

end
