(* ===== verification/Daemon_Measure.thy ===== *)
theory Daemon_Measure
  imports Daemon_Safety
begin

text \<open>
  What the measuring operations of the daemon establish: the wait for a handshake, the walk
  over the candidates of a measured connect, the baseline measurement that drops and
  restores the tunnel, the listing and the scheduling.
\<close>

section \<open>The wait for a handshake\<close>

text \<open>A clock that a sleep advances by its length and a status query does not turn back.\<close>

definition clock_advances :: "('t, 'w) env \<Rightarrow> bool" where
  "clock_advances env \<longleftrightarrow>
     (\<forall>d w. ev_now env w + d \<le> ev_now env (ev_sleep env d w)) \<and>
     (\<forall>t w r w'. tb_status (ev_backend env) t w = (r, w') \<longrightarrow> ev_now env w \<le> ev_now env w')"

lemma handshake_clock:
  assumes "clock_advances env" and "handshake_since env since st = (b, st')"
  shows "now env st \<le> now env st'"
  using assms
  by (auto simp: handshake_since_def now_def clock_advances_def split: option.splits prod.splits)

lemma wait_loop_deadline:
  assumes clock: "clock_advances env"
  shows "dl \<le> now env st + n * from_millis 500 \<Longrightarrow> wait_loop n env since dl st = (False, st') \<Longrightarrow>
    dl \<le> now env st'"
proof (induction n arbitrary: st)
  case (Suc n)
  obtain b1 st1 where h: "handshake_since env since st = (b1, st1)" by fastforce
  define st2 where "st2 = st1\<lparr>ds_world := ev_sleep env (from_millis 500) (ds_world st1)\<rparr>"
  have "now env st1 + from_millis 500 \<le> now env st2"
    using clock by (simp add: clock_advances_def st2_def now_def)
  then have "dl \<le> now env st2 + n * from_millis 500"
    using handshake_clock [OF clock h] Suc.prems(1) by simp
  then show ?case
    using Suc.prems(2) Suc.IH h by (auto simp: st2_def [symmetric] split: if_splits bool.splits)
qed simp

lemma wait_loop_handshake:
  "wait_loop n env since dl st = (True, st') \<Longrightarrow>
     \<exists>st1. now env st1 < dl \<and> handshake_since env since st1 = (True, st')"
proof (induction n arbitrary: st)
  case (Suc n)
  obtain b1 st1 where h: "handshake_since env since st = (b1, st1)" by fastforce
  show ?case
    using Suc.prems Suc.IH h by (auto split: if_splits bool.splits)
qed simp

section \<open>The walk over the candidates\<close>

text \<open>
  The three outcomes of a candidate: in each the tunnel is on it; a measured one has its
  figure recorded, at or above the bar when it was accepted.
\<close>

definition figure_of :: "('t, 'w) dstate \<Rightarrow> string \<Rightarrow> f64 option" where
  "figure_of st name = map_option fst (ds_throughput_seen st name)"

lemma figure_of_record:
  "figure_of (record_throughput env n m st) = (figure_of st)(n \<mapsto> m)"
  by (rule ext) (simp add: figure_of_def record_throughput_def)

lemma move_current:
  assumes "(if f then establish env c st else move_to env c st) = (Inr (), st')"
  shows "ds_current st' = Some (connection_from c)" and "ds_throughput_seen st' = ds_throughput_seen st"
    and "ds_tunnel st' \<noteq> None"
  using assms
  by (cases f; auto elim!: establish_cases move_to_cases)+

lemma wait_keeps:
  assumes "wait_until_carrying env since st = (b, st')"
  shows "ds_current st' = ds_current st" and "ds_throughput_seen st' = ds_throughput_seen st"
    and "ds_tunnel st' = ds_tunnel st"
  using wait_frame [OF assms] by auto

lemma measure_keeps:
  assumes "measure_speed env s st = (r, st')"
  shows "ds_current st' = ds_current st" and "ds_throughput_seen st' = ds_throughput_seen st"
    and "ds_tunnel st' = ds_tunnel st"
  using measure_speed_frame [OF assms] by auto

lemma measure_speed_fin: "measure_speed env s st = (Inr sample, st') \<Longrightarrow> is_fin (sm_mbps sample)"
  by (auto simp: measure_speed_def is_fin_def split: prod.splits sum.splits dest!: measure_mbps)

definition tried :: "f64 \<Rightarrow> ranked_server \<Rightarrow> ('t, 'w) dstate \<Rightarrow> candidate_result \<Rightarrow> ('t, 'w) dstate \<Rightarrow> bool"
where
  "tried target c st res st' \<longleftrightarrow>
     ds_current st' = Some (connection_from c) \<and> ds_tunnel st' \<noteq> None \<and>
     (case res of
        Skip \<Rightarrow> figure_of st' = figure_of st
      | Accept chosen \<Rightarrow>
          \<exists>m. target \<le> m \<and> chosen = set_mbps m 0 c \<and> figure_of st' = (figure_of st)(rk_name c \<mapsto> m)
      | Below m \<Rightarrow> \<not> target \<le> m \<and> is_fin m \<and> figure_of st' = (figure_of st)(rk_name c \<mapsto> m))"

lemma try_candidate_tried:
  assumes "try_candidate env s target f c st = (Inr res, st')"
  shows "tried target c st res st'"
proof -
  obtain r1 st1 where 1: "(if f then establish env c st else move_to env c st) = (r1, st1)" by fastforce
  have r1: "r1 = Inr ()" using assms 1 by (auto simp: try_candidate_def Let_def split: sum.splits)
  note m = move_current [OF 1 [unfolded r1]]
  obtain b st2 where 2: "wait_until_carrying env (ev_wall env (ds_world st)) st1 = (b, st2)" by fastforce
  note w = wait_keeps [OF 2]
  show ?thesis
  proof (cases b)
    case False
    then show ?thesis
      using assms 1 r1 2 m w by (auto simp: try_candidate_def tried_def figure_of_def Let_def)
  next
    case True
    obtain r3 st3 where 3: "measure_speed env s st2 = (r3, st3)" by fastforce
    note k = measure_keeps [OF 3]
    have f3: "figure_of st3 = figure_of st" by (rule ext) (simp add: figure_of_def k w m)
    have rec: "ds_current (record_throughput env n x st3) = Some (connection_from c)"
        "ds_tunnel (record_throughput env n x st3) \<noteq> None" for n x
      using m k w by (simp_all add: record_throughput_def)
    show ?thesis
    proof (cases r3)
      case (Inl e)
      then show ?thesis
        using assms 1 r1 2 3 True m w k f3 by (auto simp: try_candidate_def tried_def Let_def)
    next
      case (Inr sample)
      then show ?thesis
        using assms 1 r1 2 3 True rec f3 measure_speed_fin [of env s st2 sample st3]
        by (auto simp: try_candidate_def tried_def Let_def figure_of_record split: if_splits)
    qed
  qed
qed

text \<open>An accepted search ends on the candidate it returns.\<close>

lemma try_candidates_accepted:
  "try_candidates env s target f cs best st = (Inr (Inl chosen), st') \<Longrightarrow>
     \<exists>c m. c \<in> set cs \<and> target \<le> m \<and> chosen = set_mbps m 0 c \<and>
       ds_current st' = Some (connection_from c) \<and> figure_of st' (rk_name c) = Some m"
proof (induction cs arbitrary: f best st)
  case (Cons c cs)
  obtain r1 st1 where 1: "try_candidate env s target f c st = (r1, st1)" by fastforce
  show ?case
  proof (cases "\<exists>ch. r1 = Inr (Accept ch)")
    case True
    then obtain ch where "r1 = Inr (Accept ch)" by blast
    then show ?thesis
      using Cons.prems 1 try_candidate_tried [of env s target f c st "Accept ch" st1]
      by (auto simp: tried_def)
  next
    case False
    then obtain b where "try_candidates env s target False cs b st1 = (Inr (Inl chosen), st')"
      using Cons.prems 1 by (auto split: sum.splits candidate_result.splits)
    then show ?thesis using Cons.IH by fastforce
  qed
qed simp

text \<open>
  An exhausted search returns the best figure. Figures are finite (\<open>measure_mbps\<close>), so
  their order is that of the reals.
\<close>

definition is_figure :: "(ranked_server \<times> f64) option \<Rightarrow> bool" where
  "is_figure best \<longleftrightarrow> (\<forall>b m. best = Some (b, m) \<longrightarrow> is_fin m)"

definition at_least :: "(ranked_server \<times> f64) option \<Rightarrow> f64 \<Rightarrow> bool" where
  "at_least best m \<longleftrightarrow> (\<exists>b mb. best = Some (b, mb) \<and> \<not> mb < m)"

lemma keep_best_props:
  assumes "is_figure best" and "is_fin m"
  shows "is_figure (keep_best c m best)" and "at_least (keep_best c m best) m"
    and "at_least best x \<Longrightarrow> is_fin x \<Longrightarrow> at_least (keep_best c m best) x"
    and "keep_best c m best = best \<or> keep_best c m best = Some (c, m)"
  using assms
  by (auto simp: keep_best_def is_figure_def at_least_def is_fin_def split: option.splits prod.splits)

lemma try_candidates_exhausted:
  assumes "try_candidates env s target f cs best st = (Inr (Inr best'), st')"
    and "distinct (map rk_name cs)" and "is_figure best"
  shows "is_figure best'"
    and "at_least best x \<Longrightarrow> is_fin x \<Longrightarrow> at_least best' x"
    and "best' = Some (b, mb) \<Longrightarrow>
      best = Some (b, mb) \<or> b \<in> set cs \<and> figure_of st' (rk_name b) = Some mb \<and> \<not> target \<le> mb"
    and "n \<notin> rk_name ` set cs \<Longrightarrow> figure_of st' n = figure_of st n"
    and "c \<in> set cs \<Longrightarrow> figure_of st' (rk_name c) = Some m \<Longrightarrow>
      figure_of st' (rk_name c) \<noteq> figure_of st (rk_name c) \<Longrightarrow> at_least best' m \<and> \<not> target \<le> m"
  using assms
proof (induction cs arbitrary: f best st n x)
  case Nil
  { case 1 then show ?case by simp }
  { case 2 then show ?case by simp }
  { case 3 then show ?case by simp }
  { case 4 then show ?case by simp }
  { case 5 then show ?case by simp }
next
  case (Cons d cs)
  have main: "\<exists>r st1 best1. tried target d st r st1 \<and> is_figure best1 \<and>
      try_candidates env s target False cs best1 st1 = (Inr (Inr best'), st') \<and>
      (r = Skip \<and> best1 = best \<or> (\<exists>m. r = Below m \<and> best1 = keep_best d m best))"
    if a: "try_candidates env s target f (d # cs) best st = (Inr (Inr best'), st')"
      and fb: "is_figure best" for f best st
  proof -
    obtain r1 st1 where 1: "try_candidate env s target f d st = (r1, st1)" by fastforce
    then obtain r where r: "r1 = Inr r" using a by (cases r1) auto
    have t: "tried target d st r st1" using try_candidate_tried 1 r by blast
    show ?thesis
    proof (cases r)
      case Skip
      then show ?thesis using a 1 r t fb by auto
    next
      case (Accept x)
      then show ?thesis using a 1 r by auto
    next
      case (Below m)
      then have "is_fin m" using t by (simp add: tried_def)
      then show ?thesis
        using a 1 r t Below keep_best_props(1) [OF fb, of m d]
        by (intro exI [of _ "Below m"] exI [of _ st1] exI [of _ "keep_best d m best"]) simp
    qed
  qed
  { case 1
    then obtain r st1 best1 where m: "tried target d st r st1" "is_figure best1"
        "try_candidates env s target False cs best1 st1 = (Inr (Inr best'), st')"
        "r = Skip \<and> best1 = best \<or> (\<exists>m. r = Below m \<and> best1 = keep_best d m best)"
      using main [OF 1(1) 1(3)] by (elim exE conjE)
    have "distinct (map rk_name cs)" using 1(2) by simp
    then show ?case by (rule Cons.IH(1) [OF m(3) _ m(2)]) }
  { case 2
    then obtain r st1 best1 where m: "tried target d st r st1" "is_figure best1"
        "try_candidates env s target False cs best1 st1 = (Inr (Inr best'), st')"
        "r = Skip \<and> best1 = best \<or> (\<exists>m. r = Below m \<and> best1 = keep_best d m best)"
      using main by blast
    have "at_least best1 x"
      using m(1,4) 2 keep_best_props(3) [OF 2(5)] by (auto simp: tried_def)
    then show ?case using Cons.IH(2) [OF _ 2(2) m(3) _ m(2)] 2(4) by simp }
  { case 3
    then obtain r st1 best1 where m: "tried target d st r st1" "is_figure best1"
        "try_candidates env s target False cs best1 st1 = (Inr (Inr best'), st')"
        "r = Skip \<and> best1 = best \<or> (\<exists>m. r = Below m \<and> best1 = keep_best d m best)"
      using main by blast
    have dist: "distinct (map rk_name cs)" "rk_name d \<notin> rk_name ` set cs" using 3(3) by auto
    have "figure_of st' (rk_name d) = figure_of st1 (rk_name d)"
      by (rule Cons.IH(4) [OF dist(2) m(3) dist(1) m(2)])
    moreover have "best1 = best \<or> (\<exists>m0. r = Below m0 \<and> best1 = Some (d, m0))"
    proof (cases "r = Skip")
      case True
      then show ?thesis using m(4) by auto
    next
      case False
      then obtain m0 where m0: "r = Below m0" "best1 = keep_best d m0 best" using m(4) by blast
      then have "is_fin m0" using m(1) by (simp add: tried_def)
      from keep_best_props(4) [OF 3(4) this, of d] show ?thesis using m0 by auto
    qed
    ultimately have "best1 = best \<or> (\<exists>m0. best1 = Some (d, m0) \<and> figure_of st' (rk_name d) = Some m0
        \<and> \<not> target \<le> m0)"
      using m(1) by (auto simp: tried_def)
    then show ?case using Cons.IH(3) [OF 3(1) m(3) dist(1) m(2)] by auto }
  { case 4
    then obtain r st1 best1 where m: "tried target d st r st1" "is_figure best1"
        "try_candidates env s target False cs best1 st1 = (Inr (Inr best'), st')"
        "r = Skip \<and> best1 = best \<or> (\<exists>m. r = Below m \<and> best1 = keep_best d m best)"
      using main by blast
    have "figure_of st' n = figure_of st1 n"
      using Cons.IH(4) [OF _ m(3) _ m(2)] 4 by simp
    then show ?case using m(1,4) 4(1) by (auto simp: tried_def) }
  { case 5
    then obtain r st1 best1 where m: "tried target d st r st1" "is_figure best1"
        "try_candidates env s target False cs best1 st1 = (Inr (Inr best'), st')"
        "r = Skip \<and> best1 = best \<or> (\<exists>m. r = Below m \<and> best1 = keep_best d m best)"
      using main by blast
    have dist: "distinct (map rk_name cs)" "rk_name d \<notin> rk_name ` set cs" using 5(5) by auto
    show ?case
    proof (cases "c = d")
      case True
      have eq: "figure_of st' (rk_name d) = figure_of st1 (rk_name d)"
        by (rule Cons.IH(4) [OF dist(2) m(3) dist(1) m(2)])
      then obtain m0 where m0: "r = Below m0" "best1 = keep_best d m0 best" "m0 = m"
          "is_fin m0" "\<not> target \<le> m0"
        using m(1,4) 5(2,3) True by (auto simp: tried_def)
      then have "at_least best1 m" using keep_best_props(2) [OF 5(6)] by simp
      then show ?thesis using Cons.IH(2) [OF _ _ m(3) dist(1) m(2)] m0 by simp
    next
      case False
      then have c: "c \<in> set cs" "rk_name c \<noteq> rk_name d" using 5(1) dist(2) by (auto intro: rev_image_eqI)
      have "figure_of st1 (rk_name c) = figure_of st (rk_name c)"
        using m(1,4) c(2) by (auto simp: tried_def)
      then show ?thesis using Cons.IH(5) [OF c(1) 5(2) _ m(3) dist(1) m(2)] 5(3) by simp
    qed }
qed

section \<open>What a sweep returns\<close>

lemma scoring_of_ok:
  assumes "config_ok (ds_config st)"
    and "is_fin (w_rtt (at_weights (cf_autotune (ds_config st))))"
    and "is_fin (w_load (at_weights (cf_autotune (ds_config st))))"
    and "is_fin (w_headroom (at_weights (cf_autotune (ds_config st))))"
  shows "scoring_ok (scoring_of st)"
proof -
  have "Fin 1 \<le> headroom_target_mbps (cf_autotune (ds_config st)) (direct_mbps st)"
    by (rule headroom_target_pos)
  then have "headroom_target_mbps (cf_autotune (ds_config st)) (direct_mbps st) \<noteq> NaN" by auto
  then show ?thesis
    using config_ok_weights [OF assms] by (simp add: scoring_ok_def scoring_of_def scoring_new_def Let_def)
qed

lemma to_ranked_sel [simp]:
  "rk_score (to_ranked env st x) = sd_score x"
  "rk_endpoint (to_ranked env st x) = sd_endpoint x"
  "rk_name (to_ranked env st x) = srv_name (sd_server x)"
  by (simp_all add: to_ranked_def Let_def)

lemma sweep_descending:
  assumes "sweep env country st = (Inr rk, st')" and "scoring_ok (scoring_of st)"
  shows "sorted_wrt (\<lambda>a b. rk_score b \<le> rk_score a) rk \<and> (\<forall>r\<in>set rk. unit_f64 (rk_score r))"
  using assms(1)
  by (rule sweep_Inr) (auto simp: sorted_wrt_map rank_descending [OF assms(2)] rank_units [OF assms(2)])

text \<open>While a tunnel is up its own endpoint is never contacted, so it is never ranked.\<close>

lemma rank_not_excluded:
  assumes "x \<in> set (rank (Probe.sweep p obs ss es port) sc)"
  shows "pb_excluded p \<noteq> Some (sd_endpoint x)"
proof -
  obtain m d where m: "(m, d) \<in> set (reachable (Probe.sweep p obs ss es port))" "sd_endpoint x = m_endpoint m"
    using assms by (auto simp: set_rank)
  then have "m \<in> set (Probe.sweep p obs ss es port)" "m_rtt m = Some d" by (simp_all add: mem_reachable)
  then obtain i where i: "i < length ss" "m = Probe.sweep p obs ss es port ! i"
    by (auto simp: in_set_conv_nth)
  then have "(m_entry m, m_endpoint m, d) \<in> timings p obs ss es port i"
    using sweep_some(1) \<open>m_rtt m = Some d\<close> by blast
  then show ?thesis using timings_endpoint m(2) by metis
qed

lemma sweep_skips_current:
  assumes "sweep env country st = (Inr rk, st')" and "ds_current st = Some c" and "r \<in> set rk"
  shows "rk_endpoint r \<noteq> cn_endpoint c"
  using assms(1)
proof (rule sweep_Inr)
  fix l t obs st2
  assume "rk = map (to_ranked env st2) (rank (Probe.sweep (prober_of st) obs
       (sel_accepted (filter_apply l (sweep_filters (cf_filters (ds_config st)) country)))
       WG_ENTRIES (ap_port (cf_airvpn (ds_config st)))) (scoring_of st))"
  then obtain x where x: "r = to_ranked env st2 x" "x \<in> set (rank (Probe.sweep (prober_of st) obs
       (sel_accepted (filter_apply l (sweep_filters (cf_filters (ds_config st)) country)))
       WG_ENTRIES (ap_port (cf_airvpn (ds_config st)))) (scoring_of st))"
    using assms(3) by auto
  have "pb_excluded (prober_of st) = Some (cn_endpoint c)"
    using assms(2) by (simp add: prober_of_def prober_excluding_def Let_def)
  then show ?thesis using rank_not_excluded [OF x(2)] x(1) by auto
qed

section \<open>The baseline measurement\<close>

lemma connect_named_ok:
  assumes "connect env (Some name) m st = (Inr chosen, st')"
  shows "ds_current st' = Some (connection_from chosen)" and "ds_tunnel st' \<noteq> None"
    and "eq_ignore_ascii_case (rk_name chosen) name"
proof -
  have n: "ds_current st = None" using assms by (auto simp: connect_def split: option.splits)
  obtain r1 st1 where 1: "probe_named env name st = (r1, st1)" by fastforce
  then have r1: "r1 = Inr chosen" and e: "establish env chosen st1 = (Inr (), st')"
    using assms n by (auto simp: connect_def split: sum.splits prod.splits)
  show "ds_current st' = Some (connection_from chosen)" "ds_tunnel st' \<noteq> None"
    using e by (rule establish_cases; simp)+
  show "eq_ignore_ascii_case (rk_name chosen) name"
    by (rule probe_named_name) (use 1 r1 in simp)
qed

lemma baseline_ok:
  assumes "baseline env st = (Inr rep, st')" and "ds_current st = Some c"
  shows "\<exists>c' tn d. ds_current st' = Some c' \<and> ds_tunnel st' \<noteq> None \<and>
    eq_ignore_ascii_case (cn_server c') (cn_server c) \<and>
    sr_tunnelled rep = Some tn \<and> sr_direct rep = Some d \<and> direct_mbps st' = Some (sm_mbps d) \<and>
    sr_meets_target rep = (min_mbps (cf_autotune (ds_config st)) \<le> sm_mbps tn)"
proof -
  obtain r1 st1 where 1: "measure_speed env (throughput_settings st) st = (r1, st1)" by fastforce
  then obtain tn where tn: "r1 = Inr tn"
    using assms by (auto simp: baseline_def Let_def split: sum.splits)
  obtain r2 st2 where 2: "disconnect env (record_throughput env (cn_server c) (sm_mbps tn) st1) = (r2, st2)"
    by fastforce
  obtain dr st3 where 3: "measure_speed env (throughput_settings st) st2 = (dr, st3)" by fastforce
  obtain r4 st4 where 4: "connect env (Some (cn_server c)) (Some False) st3 = (r4, st4)" by fastforce
  obtain d chosen where d: "dr = Inr d" "r4 = Inr chosen" "st' = record_direct env (sm_mbps d) st4"
      "sr_tunnelled rep = Some tn" "sr_direct rep = Some d"
      "sr_meets_target rep = (min_mbps (cf_autotune (ds_config st)) \<le> sm_mbps tn)"
    using assms 1 tn 2 3 4 by (auto simp: baseline_def Let_def split: sum.splits)
  note ok = connect_named_ok [OF 4 [unfolded d(2)]]
  show ?thesis
    using d ok by (simp add: record_direct_def direct_mbps_def connection_from_def)
qed

section \<open>Properties\<close>

lemma sample_clock: "clock_advances sample_env"
  by (simp add: clock_advances_def sample_env_def sample_backend_def)

text \<open>C30: the wait for a fresh handshake ends by itself. It reports success
only when a status query inside the thirty seconds showed a handshake newer than the connect,
and failure only when the thirty seconds have passed.\<close>

theorem handshake_wait_is_bounded:
  assumes "clock_advances env" and "wait_until_carrying env since st = (b, st')"
  shows "if b
    then \<exists>st1. now env st1 < now env st + CANDIDATE_READY_TIMEOUT \<and> handshake_since env since st1 = (True, st')
    else now env st + CANDIDATE_READY_TIMEOUT \<le> now env st'"
proof (cases b)
  case True
  then show ?thesis
    using assms(2) wait_loop_handshake by (auto simp: wait_until_carrying_def)
next
  case False
  have "now env st + CANDIDATE_READY_TIMEOUT \<le> now env st + WAIT_FUEL * from_millis 500"
    by (simp add: CANDIDATE_READY_TIMEOUT_def WAIT_FUEL_def from_secs_def from_millis_def)
  then show ?thesis
    using False assms(2) wait_loop_deadline [OF assms(1), of "now env st + CANDIDATE_READY_TIMEOUT" st WAIT_FUEL since st']
    by (simp add: wait_until_carrying_def)
qed

theorem handshake_wait_is_bounded_witness:
  "now sample_env sample_start + CANDIDATE_READY_TIMEOUT
     \<le> now sample_env (snd (wait_until_carrying sample_env 0 sample_start))"
proof -
  have no: "handshake_since sample_env since st = (False, st)" if "ds_tunnel st = None" for since st
    using that by (simp add: handshake_since_def)
  have "fst (wait_loop n sample_env since dl st) = False" if "ds_tunnel st = None" for n since dl st
    using that by (induction n arbitrary: st) (simp_all add: no)
  then have "fst (wait_until_carrying sample_env 0 sample_start) = False"
    by (simp add: wait_until_carrying_def)
  then show ?thesis
    using handshake_wait_is_bounded [OF sample_clock, of 0 sample_start False]
    by (metis prod.collapse)
qed


lemma sample_try:
  "\<exists>m. is_fin m \<and> try_candidate sample_env (select_settings sample_start) (Fin 0) True sample_ranked sample_start
     = (Inr (Accept (set_mbps m 0 sample_ranked)), record_throughput sample_env (rk_name sample_ranked) m
         (sample_start\<lparr>ds_tunnel := Some (Some (rk_endpoint sample_ranked)),
                       ds_current := Some (connection_from sample_ranked)\<rparr>))"
proof -
  define st1 where "st1 = sample_start\<lparr>ds_tunnel := Some (Some (rk_endpoint sample_ranked)),
      ds_current := Some (connection_from sample_ranked)\<rparr>"
  have e: "establish sample_env sample_ranked sample_start = (Inr (), st1)"
    by (simp add: establish_def new_tunnel_def st1_def sample_env_def sample_backend_def Let_def
        spec_for_def spec_with_fwmark_def spec_with_interface_def spec_new_def)
  have w: "wait_until_carrying sample_env (ev_wall sample_env (ds_world sample_start)) st1 = (True, st1)"
    by (rule sample_wait) (simp_all add: st1_def sample_env_def)
  obtain x where x: "measure_speed sample_env (select_settings sample_start) st1 = (Inr x, st1)"
    using sample_measure [of st1] by auto
  obtain r where r: "sm_mbps x = Fin r" "0 \<le> r"
    using x by (auto simp: measure_speed_def split: prod.splits sum.splits dest!: measure_mbps)
  show ?thesis
    unfolding st1_def [symmetric]
    by (rule exI [of _ "sm_mbps x"]) (simp add: try_candidate_def e w x r is_fin_def)
qed


text \<open>When no candidate of a shortlist of distinct servers reaches
the bar, the one kept is a candidate with a recorded figure below the bar, and no figure
recorded on the way exceeds it; the figure of no other server changes.\<close>

lemma exhausted_search_keeps_the_best:
  assumes "try_candidates env s target f cs None st = (Inr (Inr best), st')"
    and "distinct (map rk_name cs)"
  shows "(\<forall>b m. best = Some (b, m) \<longrightarrow> b \<in> set cs \<and> figure_of st' (rk_name b) = Some m \<and> \<not> target \<le> m) \<and>
    (\<forall>c m. c \<in> set cs \<and> figure_of st' (rk_name c) = Some m \<and>
       figure_of st' (rk_name c) \<noteq> figure_of st (rk_name c) \<longrightarrow> at_least best m) \<and>
    (\<forall>n. n \<notin> rk_name ` set cs \<longrightarrow> figure_of st' n = figure_of st n)"
proof -
  have "is_figure None" by (simp add: is_figure_def)
  note p = try_candidates_exhausted [OF assms this]
  show ?thesis
  proof (intro conjI)
    show "\<forall>b m. best = Some (b, m) \<longrightarrow> b \<in> set cs \<and> figure_of st' (rk_name b) = Some m \<and> \<not> target \<le> m"
      using p(3) by simp
    show "\<forall>c m. c \<in> set cs \<and> figure_of st' (rk_name c) = Some m \<and>
       figure_of st' (rk_name c) \<noteq> figure_of st (rk_name c) \<longrightarrow> at_least best m"
    proof (intro allI impI)
      fix c m
      assume "c \<in> set cs \<and> figure_of st' (rk_name c) = Some m \<and>
        figure_of st' (rk_name c) \<noteq> figure_of st (rk_name c)"
      then show "at_least best m" using p(5) [of c m] by blast
    qed
    show "\<forall>n. n \<notin> rk_name ` set cs \<longrightarrow> figure_of st' n = figure_of st n"
      using p(4) by simp
  qed
qed

lemma sample_below:
  "\<exists>m st1. try_candidate sample_env (select_settings sample_start) PInf True sample_ranked sample_start
     = (Inr (Below m), st1)"
proof -
  define st1 where "st1 = sample_start\<lparr>ds_tunnel := Some (Some (rk_endpoint sample_ranked)),
      ds_current := Some (connection_from sample_ranked)\<rparr>"
  have e: "establish sample_env sample_ranked sample_start = (Inr (), st1)"
    by (simp add: establish_def new_tunnel_def st1_def sample_env_def sample_backend_def Let_def
        spec_for_def spec_with_fwmark_def spec_with_interface_def spec_new_def)
  have w: "wait_until_carrying sample_env (ev_wall sample_env (ds_world sample_start)) st1 = (True, st1)"
    by (rule sample_wait) (simp_all add: st1_def sample_env_def)
  obtain x where x: "measure_speed sample_env (select_settings sample_start) st1 = (Inr x, st1)"
    using sample_measure [of st1] by auto
  obtain r where r: "sm_mbps x = Fin r"
    using measure_speed_fin [OF x] by (auto simp: is_fin_def)
  show ?thesis by (simp add: try_candidate_def e w x r)
qed

text \<open>With valid settings whose weights are numbers, a sweep returns its
servers from the highest score down, every score in the unit interval; and while connected it
never returns the endpoint in use.\<close>

lemma ranking_is_best_first:
  assumes "Daemon_State.sweep env country st = (Inr rk, st')" and "config_ok (ds_config st)"
    and "weights_ok (at_weights (cf_autotune (ds_config st)))"
  shows "sorted_wrt (\<lambda>a b. rk_score b \<le> rk_score a) rk \<and> (\<forall>r\<in>set rk. unit_f64 (rk_score r)) \<and>
    \<not> (\<exists>c. ds_current st = Some c \<and> cn_endpoint c \<in> rk_endpoint ` set rk)"
proof -
  have "scoring_ok (scoring_of st)"
    using assms(3) by (intro scoring_of_ok [OF assms(2)]) (auto simp: weights_ok_def is_fin_def)
  moreover have "cn_endpoint c \<notin> rk_endpoint ` set rk" if "ds_current st = Some c" for c
    using sweep_skips_current [OF assms(1) that] by (metis imageE)
  ultimately show ?thesis using sweep_descending [OF assms(1)] by blast
qed


lemma sample_through:
  "\<exists>x. measure_speed sample_env (throughput_settings sample_up) st = (Inr x, st\<lparr>ds_world := ds_world st\<rparr>)"
proof -
  have "\<exists>t. tp_measure (throughput_settings sample_up) sample_download = Inr t"
    by (simp add: tp_measure_def sample_download_def throughput_settings_def is_success_def chunk_step_def
        loop_init_def WARMUP_BYTES_def elapsed_def from_secs_def sample_config_def from_imported_def
        throughput_default_def from_parts_def Let_def)
  then show ?thesis by (auto simp: measure_speed_def sample_env_def)
qed

lemma sample_named:
  assumes "ds_servers st = None" and "prober_of st = sample_prober" and "ds_config st = sample_config"
  shows "\<exists>r st'. probe_named sample_env ''Achernar'' st = (Inr r, st') \<and> ds_current st' = ds_current st"
proof -
  have l: "server_list sample_env st = (Inr sample_list, st\<lparr>ds_servers := Some (sample_list, ds_world st)\<rparr>)"
    using assms(1)
    by (simp add: server_list_def list_is_stale_def client_new_def client_fetch_def from_json_def
        sample_env_def sample_list_def now_def Let_def)
  show ?thesis
    using named_one [OF l sample_get, where obs = sample_net and d = 20] sample_timed(1) assms(2,3)
    by (auto simp: sample_env_def)
qed

lemma sample_establish: "\<exists>st'. establish sample_env r st = (Inr (), st')"
  by (simp add: establish_def new_tunnel_def sample_env_def sample_backend_def Let_def)


text \<open>The listing of servers.\<close>

lemma servers_Inr:
  assumes "servers env country limit all st = (Inr ss, st')"
  obtains l t where "ds_servers st' = Some (l, t)"
    "ss = truncate limit (sort_by cmp_by_load (map summary_of (filter
       (lists_server (cf_filters (ds_config st)) (map_option (\<lambda>c. to_ascii_lowercase (trim c)) country) all)
       (sl_servers l))))"
proof -
  obtain l st1 where l: "server_list env st = (Inr l, st1)" and s: "st' = st1"
    using assms by (auto simp: servers_def Let_def split: sum.splits prod.splits)
  then show ?thesis
    using assms that server_list_cached [OF l] by (auto simp: servers_def Let_def)
qed

definition listed :: "filters \<Rightarrow> string option \<Rightarrow> bool \<Rightarrow> server_list \<Rightarrow> server_summary list" where
  "listed f country all l =
     map summary_of (filter
       (lists_server f (map_option (\<lambda>c. to_ascii_lowercase (trim c)) country) all) (sl_servers l))"

text \<open>A listing shows the servers asked for, least loaded first and
by name among equals. Without a limit it shows each of them once; with one it shows that many,
and none left out would come before one shown.\<close>

lemma listing_is_least_loaded_first:
  assumes "servers env country limit all st = (Inr ss, st')"
  shows "sorted_by cmp_by_load ss \<and>
    (\<exists>l t rest. ds_servers st' = Some (l, t) \<and>
       mset (ss @ rest) = mset (listed (cf_filters (ds_config st)) country all l) \<and>
       length ss = (case limit of None \<Rightarrow> length (ss @ rest) | Some n \<Rightarrow> min n (length (ss @ rest))) \<and>
       (\<forall>x\<in>set ss. \<forall>y\<in>set rest. cmp_by_load x y \<le> OEqual))"
proof -
  obtain l t where l: "ds_servers st' = Some (l, t)"
    and ss: "ss = truncate limit (sort_by cmp_by_load (listed (cf_filters (ds_config st)) country all l))"
    using assms unfolding listed_def by (rule servers_Inr)
  define xs where "xs = sort_by cmp_by_load (listed (cf_filters (ds_config st)) country all l)"
  define n where "n = (case limit of None \<Rightarrow> length xs | Some n \<Rightarrow> n)"
  have ss': "ss = take n xs" by (simp add: ss xs_def n_def truncate_def split: option.split)
  have split: "take n xs @ drop n xs = xs" by simp
  have "sorted_wrt (\<lambda>x y. cmp_by_load x y \<noteq> OGreater) (take n xs @ drop n xs)"
    using load_order.sorted by (simp add: xs_def sorted_by_def)
  then have "sorted_by cmp_by_load ss"
    unfolding ss' sorted_by_def sorted_wrt_append by blast
  moreover have "mset (ss @ drop n xs) = mset (listed (cf_filters (ds_config st)) country all l)"
    unfolding ss' split by (simp add: xs_def)
  moreover have "length ss = (case limit of None \<Rightarrow> length (ss @ drop n xs) | Some k \<Rightarrow> min k (length (ss @ drop n xs)))"
    unfolding ss' split by (simp add: n_def min.commute split: option.split)
  moreover have "\<forall>x\<in>set ss. \<forall>y\<in>set (drop n xs). cmp_by_load x y \<le> OEqual"
    unfolding ss' xs_def using load_order.take_least by blast
  ultimately show ?thesis using l by blast
qed

text \<open>Every pass arms the timer again.\<close>

lemma recorded_timer: "recorded env d st = (r, st') \<Longrightarrow> ds_last_tune_at st' = ds_last_tune_at st"
  by (auto simp: recorded_def record_decision_def Let_def)

lemma autotune_timer:
  assumes "autotune_pass env st0 = (r, st')"
  shows "ds_last_tune_at st' = Some (now env st0) \<and> ds_config st' = ds_config st0"
proof -
  define st where "st = st0\<lparr>ds_last_tune_at := Some (now env st0)\<rparr>"
  have st: "ds_last_tune_at st = Some (now env st0)" "ds_config st = ds_config st0" by (simp_all add: st_def)
  have rec: "ds_last_tune_at st'' = ds_last_tune_at s \<and> ds_config st'' = ds_config s"
    if "recorded env d s = (r'', st'')" for d s r'' st''
    using that by (auto simp: recorded_def record_decision_def Let_def)
  have car: "ds_last_tune_at st'' = ds_last_tune_at s \<and> ds_config st'' = ds_config s"
    if "carry_out env d s = (r'', st'')" for d s r'' st''
    using that unfolding carry_out_def
    by (auto split: option.splits prod.splits sum.splits if_splits
        dest!: rec switch_settings [unfolded same_settings_def])
  show ?thesis
  proof (cases "ds_current st")
    case None
    then show ?thesis
      using assms st rec unfolding autotune_pass_def Let_def st_def [symmetric] by auto
  next
    case (Some c)
    obtain rtt st1 where 1: "probe_current env (cn_server c) st = (rtt, st1)" by fastforce
    obtain r2 st2 where 2: "Daemon_State.sweep env None st1 = (r2, st2)" by fastforce
    have k: "ds_last_tune_at st1 = Some (now env st0)" "ds_config st1 = ds_config st0"
        "ds_last_tune_at st2 = Some (now env st0)" "ds_config st2 = ds_config st0"
      using probe_current_frame [OF 1] sweep_frame(1) [OF 2] st by (simp_all add: same_conn_def)
    show ?thesis
      using assms Some 1 2 k rec car
      unfolding autotune_pass_def Let_def st_def [symmetric]
      by (auto split: option.splits sum.splits daemon_error.splits if_splits)
  qed
qed

text \<open>A tuning pass, whether scheduled or asked for, succeeding or failing,
starts the interval anew: the next one is due one interval after this one began, less the
time the pass itself took.\<close>

lemma passes_rearm_the_timer:
  assumes "autotune_pass env st = (r, st')"
  shows "time_until_next_tune env st' =
    interval (cf_autotune (ds_config st)) - elapsed (now env st') (now env st)"
  using autotune_timer [OF assms] by (simp add: time_until_next_tune_def Let_def)

lemma sample_interval: "interval (cf_autotune sample_config) = from_secs 1800"
  by (simp add: interval_def sample_config_def from_imported_def autotune_default_def)

end
