(* ===== verification/Daemon_Guard.thy ===== *)
theory Daemon_Guard
  imports Daemon_Inv
begin

text \<open>
  The kill switch through the daemon's operations. The locale \<open>quiet_backend\<close> is what the
  daemon relies on from any backend with a firewall: a handle that carries a kill switch
  comes up only with the firewall engaged, and only the calls that say so release it;
  \<open>guarded_backend\<close> extends it with an engage that happens completely or not at all. The
  lemmas inside follow the firewall through every request; \<open>Linux_Backend\<close> and \<open>Win_Backend\<close>
  interpret the locales, the latter the first only.
\<close>

section \<open>The contract\<close>

text \<open>\<open>guards t\<close>: the handle carries a kill switch; \<open>engaged w\<close>: the firewall is in place.\<close>

locale quiet_backend =
  fixes env :: "('t, 'w) env" and guards :: "'t \<Rightarrow> bool" and engaged :: "'w \<Rightarrow> bool"
  assumes with_killswitch: "guards (tb_with_killswitch (ev_backend env)
      (ks_new DEFAULT_INTERFACE DEFAULT_FWMARK lan) t)"
    and up: "tb_up (ev_backend env) t spec w = (Inr (), t', w') \<Longrightarrow>
      guards t' = guards t \<and> (guards t \<longrightarrow> engaged w')"
    and retarget: "tb_switch_endpoint (ev_backend env) t spec w = (r, t', w') \<Longrightarrow>
      guards t' = guards t \<and> engaged w' = engaged w"
    and status_quiet: "tb_status (ev_backend env) t w = (rs, w') \<Longrightarrow> engaged w' = engaged w"
    and is_engaged_quiet: "tb_ks_is_engaged (ev_backend env) w = (b, w') \<Longrightarrow> engaged w' = engaged w"
    and dropped_quiet: "tb_ks_dropped (ev_backend env) w = (n, w') \<Longrightarrow> engaged w' = engaged w"
    and net_quiet: "ev_net env p as w = (obs, w') \<Longrightarrow> engaged w' = engaged w"
    and download_quiet: "ev_download env ts w = (td, w') \<Longrightarrow> engaged w' = engaged w"
    and http_quiet: "ev_http_get env url w = (answer, w') \<Longrightarrow> engaged w' = engaged w"
    and sleep_quiet: "engaged (ev_sleep env d w) = engaged w"
begin

text \<open>The invariant, and steps that can not touch it.\<close>

definition guarded :: "('t, 'w) dstate \<Rightarrow> bool" where
  "guarded st \<longleftrightarrow> (\<forall>t. ds_tunnel st = Some t \<longrightarrow> guards t \<longrightarrow> engaged (ds_world st))"

definition quiet :: "('t, 'w) dstate \<Rightarrow> ('t, 'w) dstate \<Rightarrow> bool" where
  "quiet st st' \<longleftrightarrow>
     ds_tunnel st' = ds_tunnel st \<and> ds_current st' = ds_current st \<and>
     engaged (ds_world st') = engaged (ds_world st)"

lemma quiet_refl [simp]: "quiet st st"
  by (simp add: quiet_def)

lemma quiet_trans: "quiet st st' \<Longrightarrow> quiet st' st'' \<Longrightarrow> quiet st st''"
  by (simp add: quiet_def)

lemma quiet_guarded: "quiet st st' \<Longrightarrow> guarded st \<Longrightarrow> guarded st'"
  by (simp add: quiet_def guarded_def)

lemma quiet_linked: "quiet st st' \<Longrightarrow> linked st \<Longrightarrow> linked st'"
  by (simp add: quiet_def linked_def)

lemma server_list_quiet: "server_list env st = (r, st') \<Longrightarrow> quiet st st'"
  unfolding server_list_def quiet_def Let_def
  by (auto split: if_splits sum.splits prod.splits option.splits dest: http_quiet)

lemma run_sweep_quiet: "run_sweep env p ss port st = (ms, st') \<Longrightarrow> quiet st st'"
  by (auto simp: run_sweep_def quiet_def split: prod.splits dest: net_quiet)

lemma measure_speed_quiet: "measure_speed env s st = (r, st') \<Longrightarrow> quiet st st'"
  by (auto simp: measure_speed_def quiet_def split: prod.splits dest: download_quiet)

lemma sweep_quiet:
  assumes "sweep env country st = (r, st')"
  shows "quiet st st'"
proof -
  obtain r1 st1 where l: "server_list env st = (r1, st1)" by fastforce
  have "quiet st1 st'"
    using assms l unfolding sweep_def Let_def
    by (auto split: sum.splits if_splits prod.splits dest!: run_sweep_quiet simp: quiet_def)
  then show ?thesis using quiet_trans [OF server_list_quiet [OF l]] by simp
qed

lemma probe_named_quiet:
  assumes "probe_named env name st = (r, st')"
  shows "quiet st st'"
proof -
  obtain r1 st1 where l: "server_list env st = (r1, st1)" by fastforce
  have "quiet st1 st'"
    using assms l unfolding probe_named_def Let_def
    by (auto split: sum.splits option.splits prod.splits list.splits dest!: run_sweep_quiet)
  then show ?thesis using quiet_trans [OF server_list_quiet [OF l]] by simp
qed

lemma probe_current_quiet:
  assumes "probe_current env name st = (r, st')"
  shows "quiet st st'"
proof -
  obtain r1 st1 where l: "server_list env st = (r1, st1)" by fastforce
  have "quiet st1 st'"
    using assms l unfolding probe_current_def Let_def
    by (auto split: sum.splits option.splits prod.splits list.splits dest!: run_sweep_quiet)
  then show ?thesis using quiet_trans [OF server_list_quiet [OF l]] by simp
qed

lemma handshake_quiet: "handshake_since env since st = (b, st') \<Longrightarrow> quiet st st'"
  by (auto simp: handshake_since_def quiet_def split: option.splits prod.splits dest: status_quiet)

lemma wait_loop_quiet: "wait_loop n env since dl st = (b, st') \<Longrightarrow> quiet st st'"
proof (induction n arbitrary: st)
  case (Suc n)
  obtain b1 st1 where h: "handshake_since env since st = (b1, st1)" by fastforce
  note q = handshake_quiet [OF h]
  have "quiet st1 (st1\<lparr>ds_world := ev_sleep env (from_millis 500) (ds_world st1)\<rparr>)"
    by (simp add: quiet_def sleep_quiet)
  then have "quiet st st'"
    if "wait_loop n env since dl (st1\<lparr>ds_world := ev_sleep env (from_millis 500) (ds_world st1)\<rparr>) = (b, st')"
    using Suc.IH [OF that] q quiet_trans by blast
  then show ?case using Suc.prems h q by (auto split: if_splits bool.splits)
qed simp

lemma wait_quiet: "wait_until_carrying env since st = (b, st') \<Longrightarrow> quiet st st'"
  unfolding wait_until_carrying_def by (rule wait_loop_quiet)

lemma record_quiet [simp]:
  "quiet st (record_direct env m st)" "quiet st (record_throughput env s m st)"
  by (simp_all add: quiet_def record_direct_def record_throughput_def)

lemma calibrate_quiet: "quiet st (calibrate env b st)"
proof -
  obtain r st1 where m: "measure_speed env (select_settings st) st = (r, st1)" by fastforce
  then have "quiet st st1" by (rule measure_speed_quiet)
  then show ?thesis
    using m unfolding calibrate_def measure_direct_def
    by (cases r) (auto intro: quiet_trans)
qed

text \<open>The operations that move the tunnel.\<close>

definition safe :: "('t, 'w) dstate \<Rightarrow> bool" where
  "safe st \<longleftrightarrow> linked st \<and> guarded st"

lemma quiet_safe: "quiet st st' \<Longrightarrow> safe st \<Longrightarrow> safe st'"
  using quiet_guarded quiet_linked by (auto simp: safe_def)

lemma establish_safe:
  assumes e: "establish env c st = (r, st')" and none: "ds_tunnel st = None" and "linked st"
  shows "safe st'"
    and "r = Inr () \<Longrightarrow> ks_enabled (cf_killswitch (ds_config st)) \<Longrightarrow>
      \<exists>t. ds_tunnel st' = Some t \<and> guards t \<and> engaged (ds_world st')"
proof -
  obtain r1 st1 where n: "new_tunnel env st = (r1, st1)" by fastforce
  obtain w1 where st1: "st1 = st\<lparr>ds_world := w1\<rparr>" using new_tunnel_frame [OF n] by blast
  have ks: "guards t" if "r1 = Inr t" "ks_enabled (cf_killswitch (ds_config st))" for t
    using n that with_killswitch
    by (auto simp: new_tunnel_def configured_killswitch_def Let_def split: prod.splits sum.splits)
  have l: "linked st'" by (rule establish_linked [OF e assms(3)])
  have main: "(case ds_tunnel st' of None \<Rightarrow> True | Some t \<Rightarrow> guards t \<longrightarrow> engaged (ds_world st')) \<and>
    (r = Inr () \<longrightarrow> (\<exists>t0 t. r1 = Inr t0 \<and> ds_tunnel st' = Some t \<and> guards t = guards t0))"
  proof (cases r1)
    case (Inl x)
    then show ?thesis using e n st1 none by (auto simp: establish_def)
  next
    case (Inr t)
    obtain r2 t2 w2 where u: "tb_up (ev_backend env) t (spec_for st c) w1 = (r2, t2, w2)"
      by (metis prod_cases3)
    show ?thesis
      using e n st1 Inr u none up
      by (cases r2) (auto simp: establish_def Let_def)
  qed
  then show "safe st'" using l by (auto simp: safe_def guarded_def)
  assume "r = Inr ()" "ks_enabled (cf_killswitch (ds_config st))"
  then show "\<exists>t. ds_tunnel st' = Some t \<and> guards t \<and> engaged (ds_world st')"
    using main ks by auto
qed

lemma move_to_safe: "move_to env c st = (r, st') \<Longrightarrow> safe st \<Longrightarrow> safe st'"
  using move_to_linked [of env c st r st']
  by (auto simp: move_to_def safe_def guarded_def split: option.splits prod.splits sum.splits
      dest: retarget)

lemma try_candidate_safe:
  assumes "try_candidate env s target f c st = (r, st')" and "safe st"
    and "f \<Longrightarrow> ds_tunnel st = None"
  shows "safe st'"
proof -
  obtain r1 st1 where 1: "(if f then establish env c st else move_to env c st) = (r1, st1)" by fastforce
  have s1: "safe st1"
    using 1 assms(2,3) establish_safe(1) move_to_safe by (cases f) (auto simp: safe_def)
  obtain b st2 where 2: "wait_until_carrying env (ev_wall env (ds_world st)) st1 = (b, st2)" by fastforce
  note s2 = quiet_safe [OF wait_quiet [OF 2] s1]
  obtain r3 st3 where 3: "measure_speed env s st2 = (r3, st3)" by fastforce
  note s3 = quiet_safe [OF measure_speed_quiet [OF 3] s2]
  have s4: "safe (record_throughput env n m st3)" for n m
    by (rule quiet_safe [OF record_quiet(2) s3])
  show ?thesis
    using assms(1) 1 2 3 s1 s2 s3 s4
    by (auto simp: try_candidate_def Let_def split: sum.splits bool.splits if_splits)
qed

lemma try_candidates_safe:
  "try_candidates env s target f cs best st = (r, st') \<Longrightarrow> safe st \<Longrightarrow>
     (f \<Longrightarrow> ds_tunnel st = None) \<Longrightarrow> safe st'"
proof (induction cs arbitrary: f best st)
  case (Cons c cs)
  obtain r1 st1 where 1: "try_candidate env s target f c st = (r1, st1)" by fastforce
  have s1: "safe st1" by (rule try_candidate_safe [OF 1 Cons.prems(2,3)])
  have IH: "try_candidates env s target False cs b st1 = (r, st') \<Longrightarrow> safe st'" for b
    using Cons.IH [OF _ s1] by simp
  show ?case
    using Cons.prems(1) 1 s1 IH by (auto split: sum.splits candidate_result.splits)
qed simp

lemma establish_idle: "establish env c st = (r, st') \<Longrightarrow> safe st \<Longrightarrow> ds_current st = None \<Longrightarrow> safe st'"
  by (rule establish_safe(1)) (auto simp: safe_def linked_def)

lemma settle_safe: "settle env sl best st = (r, st') \<Longrightarrow> safe st \<Longrightarrow> safe st'"
  unfolding settle_def Let_def
  by (auto split: option.splits prod.splits sum.splits if_splits dest: move_to_safe establish_idle)

lemma connect_best_safe:
  assumes "connect_best env m st = (r, st')" and "safe st" and none: "ds_tunnel st = None"
  shows "safe st'"
proof -
  define should where
    "should = (case m of Some b \<Rightarrow> b | None \<Rightarrow> measure_before_connect (cf_autotune (ds_config st)))"
  obtain r1 st1 where 1: "sweep env None (calibrate env should st) = (r1, st1)" by fastforce
  have q: "quiet st st1" by (rule quiet_trans [OF calibrate_quiet sweep_quiet [OF 1]])
  have s1: "safe st1" by (rule quiet_safe [OF q assms(2)])
  have n1: "ds_tunnel st1 = None" "linked st1" using q none s1 by (simp_all add: quiet_def safe_def)
  show ?thesis
    using assms(1) 1 s1 establish_safe(1) [OF _ n1] try_candidates_safe [OF _ s1] n1(1) settle_safe
    unfolding connect_best_def Let_def should_def [symmetric]
    by (auto split: sum.splits list.splits if_splits prod.splits)
qed

lemma connect_safe:
  assumes "connect env s m st = (r, st')" and "safe st"
  shows "safe st'"
proof (cases "ds_current st")
  case (Some c)
  then show ?thesis using assms by (simp add: connect_def)
next
  case None
  then have n: "ds_tunnel st = None" using assms(2) by (simp add: safe_def linked_def)
  show ?thesis
  proof (cases s)
    case None
    then show ?thesis
      using assms \<open>ds_current st = None\<close> connect_best_safe [OF _ _ n] by (auto simp: connect_def)
  next
    case (Some name)
    obtain r1 st1 where 1: "probe_named env name st = (r1, st1)" by fastforce
    note q = probe_named_quiet [OF 1]
    have "safe st1" "ds_current st1 = None"
      using quiet_safe [OF q assms(2)] q \<open>ds_current st = None\<close> by (simp_all add: quiet_def)
    then show ?thesis
      using assms(1) \<open>ds_current st = None\<close> Some 1
      by (auto simp: connect_def split: sum.splits prod.splits dest: establish_idle)
  qed
qed

lemma switch_safe:
  assumes "switch env name st = (r, st')" and "safe st"
  shows "safe st'"
proof -
  obtain r1 st1 where 1: "probe_named env name st = (r1, st1)" by fastforce
  have s1: "safe st1" by (rule quiet_safe [OF probe_named_quiet [OF 1] assms(2)])
  have "guarded st'"
    using assms 1 s1 unfolding switch_def
    by (auto simp: safe_def guarded_def split: option.splits sum.splits prod.splits dest: retarget)
  then show ?thesis using switch_linked [OF assms(1)] assms(2) by (simp add: safe_def)
qed

lemma disconnect_safe:
  assumes "disconnect env st = (r, st')" and "safe st"
  shows "safe st'"
proof -
  have "ds_tunnel st' = None" using assms(1) by (rule disconnect_cases) simp_all
  then show ?thesis using disconnect_linked [OF assms(1)] assms(2) by (simp add: safe_def guarded_def)
qed

lemma speedtest_quiet: "speedtest env st = (r, st') \<Longrightarrow> quiet st st'"
proof -
  assume a: "speedtest env st = (r, st')"
  obtain r1 st1 where 1: "measure_speed env (throughput_settings st) st = (r1, st1)" by fastforce
  note q = measure_speed_quiet [OF 1]
  have "quiet st (record_direct env m st1)" "quiet st (record_throughput env n m st1)" for n m
    using q by (auto intro: quiet_trans)
  then show ?thesis
    using a 1 q by (auto simp: speedtest_def Let_def split: sum.splits option.splits)
qed

lemma baseline_safe:
  assumes "baseline env st = (r, st')" and "safe st"
  shows "safe st'"
proof (cases "ds_current st")
  case None
  then show ?thesis
    using assms quiet_safe [OF speedtest_quiet] by (auto simp: baseline_def Let_def)
next
  case (Some c)
  obtain r1 st1 where 1: "measure_speed env (throughput_settings st) st = (r1, st1)" by fastforce
  note s1 = quiet_safe [OF measure_speed_quiet [OF 1] assms(2)]
  show ?thesis
  proof (cases r1)
    case (Inl e)
    then show ?thesis using assms(1) Some 1 s1 by (auto simp: baseline_def Let_def)
  next
    case (Inr tn)
    obtain r2 st2 where 2: "disconnect env (record_throughput env (cn_server c) (sm_mbps tn) st1) = (r2, st2)"
      by fastforce
    note s2 = disconnect_safe [OF 2 quiet_safe [OF record_quiet(2) s1]]
    obtain d st3 where 3: "measure_speed env (throughput_settings st) st2 = (d, st3)" by fastforce
    note s3 = quiet_safe [OF measure_speed_quiet [OF 3] s2]
    obtain r4 st4 where 4: "connect env (Some (cn_server c)) (Some False) st3 = (r4, st4)" by fastforce
    note s4 = connect_safe [OF 4 s3]
    have "safe (record_direct env m st4)" for m
      by (rule quiet_safe [OF record_quiet(1) s4])
    then show ?thesis
      using assms(1) Some 1 Inr 2 3 4 s2 s4
      by (auto simp: baseline_def Let_def split: sum.splits)
  qed
qed

lemma killswitch_safe:
  assumes "killswitch_op env b st = (r, st')"
    and "\<And>r1 st1. killswitch_toggle env b st = (r1, st1) \<Longrightarrow> safe st1"
  shows "safe st'"
proof -
  obtain r1 st1 where 1: "killswitch_toggle env b st = (r1, st1)" by fastforce
  then have s1: "safe st1" by (rule assms(2))
  obtain e w where 2: "tb_ks_is_engaged (ev_backend env) (ds_world st1) = (e, w)" by fastforce
  obtain d w1 where 3: "tb_ks_dropped (ev_backend env) w = (d, w1)" by fastforce
  have "quiet st1 (st1\<lparr>ds_world := w1\<rparr>)"
    using is_engaged_quiet [OF 2] dropped_quiet [OF 3] by (simp add: quiet_def)
  then show ?thesis
    using assms(1) 1 2 3 s1 quiet_safe
    by (auto simp: killswitch_op_def split: sum.splits)
qed

lemma reload_quiet: "reload env st = (r, st') \<Longrightarrow> quiet st st'"
  unfolding reload_def apply_filters_to_cached_results_def Let_def quiet_def
  by (auto split: sum.splits prod.splits)

lemma recorded_quiet: "recorded env d st = (r, st') \<Longrightarrow> quiet st st'"
  by (auto simp: recorded_def record_decision_def Let_def quiet_def)

lemma carry_out_safe: "carry_out env d st = (r, st') \<Longrightarrow> safe st \<Longrightarrow> safe st'"
  unfolding carry_out_def
  by (auto split: option.splits prod.splits sum.splits if_splits
      dest: switch_safe quiet_safe [OF recorded_quiet])

lemma autotune_safe:
  assumes "autotune_pass env st0 = (r, st')" and "safe st0"
  shows "safe st'"
proof -
  define st where "st = st0\<lparr>ds_last_tune_at := Some (now env st0)\<rparr>"
  have s: "safe st" using assms(2) by (simp add: st_def safe_def linked_def guarded_def)
  note rec = quiet_safe [OF recorded_quiet]
  show ?thesis
  proof (cases "ds_current st")
    case None
    then show ?thesis using assms(1) rec s unfolding autotune_pass_def Let_def st_def [symmetric] by auto
  next
    case (Some c)
    obtain rtt st1 where 1: "probe_current env (cn_server c) st = (rtt, st1)" by fastforce
    note s1 = quiet_safe [OF probe_current_quiet [OF 1] s]
    obtain r2 st2 where 2: "sweep env None st1 = (r2, st2)" by fastforce
    note s2 = quiet_safe [OF sweep_quiet [OF 2] s1]
    show ?thesis
      using assms(1) Some 1 2 s1 s2 rec carry_out_safe
      unfolding autotune_pass_def Let_def st_def [symmetric]
      by (auto split: option.splits sum.splits daemon_error.splits if_splits)
  qed
qed

lemma approve_safe:
  assumes "approve env st = (r, st')" and "safe st"
  shows "safe st'"
proof (cases "ds_pending st")
  case None
  then show ?thesis using assms by (simp add: approve_def)
next
  case (Some p)
  obtain target why t where p: "p = (target, why, t)" by (cases p)
  obtain r1 st1 where 1: "switch env (rk_name target) (st\<lparr>ds_pending := None\<rparr>) = (r1, st1)" by fastforce
  have "safe (st\<lparr>ds_pending := None\<rparr>)" using assms(2) by (simp add: safe_def linked_def guarded_def)
  then have "safe st1" by (rule switch_safe [OF 1])
  then show ?thesis
    using assms(1) Some p 1
    by (auto simp: approve_def safe_def linked_def guarded_def split: sum.splits)
qed

lemma dismiss_quiet: "dismiss env st = (r, st') \<Longrightarrow> quiet st st'"
  by (auto simp: dismiss_def quiet_def split: option.splits prod.splits)

lemma servers_quiet: "servers env c n a st = (r, st') \<Longrightarrow> quiet st st'"
  using server_list_quiet [of st]
  by (auto simp: servers_def Let_def split: prod.splits sum.splits)

lemma status_op_quiet: "status env st = (r, st') \<Longrightarrow> quiet st st'"
  by (auto simp: status_def Let_def quiet_def split: option.splits prod.splits sum.splits
      dest: status_quiet)

lemmas safe_ops = connect_safe switch_safe disconnect_safe baseline_safe autotune_safe approve_safe

lemmas quiet_ops =
  sweep_quiet servers_quiet speedtest_quiet reload_quiet dismiss_quiet

text \<open>Requests other than a change of the kill switch itself keep the state safe.\<close>

lemma handle_other_safe:
  assumes "safe st" and "\<And>on. rq \<noteq> ReqKillswitch (Some on)"
  shows "safe (snd (handle env rq st))"
proof (cases rq)
  case ReqStatus
  obtain r st' where "status env st = (r, st')" by fastforce
  then show ?thesis using ReqStatus assms(1) quiet_safe [OF status_op_quiet] by simp
next
  case (ReqKillswitch b)
  then have "b = None" using assms(2) by (cases b) auto
  then have "safe (snd (killswitch_op env b st))"
    using assms(1) by (intro killswitch_safe [OF prod.collapse [symmetric]]) (auto simp: killswitch_toggle_def)
  then show ?thesis using ReqKillswitch by simp
qed (use assms(1) in \<open>simp_all add: safe_ops [OF prod.collapse [symmetric]]
      quiet_ops [THEN quiet_safe, OF prod.collapse [symmetric]]\<close>)

lemma wake_safe: "safe st \<Longrightarrow> safe (snd (scheduler_wake env st))"
  using autotune_safe [of st]
  by (auto simp: scheduler_wake_def split: sum.split prod.split)

end

section \<open>Engaging by request\<close>

text \<open>
  With a backend whose firewall engages completely or not at all, the kill switch survives
  a request to engage it as well.
\<close>

locale guarded_backend = quiet_backend +
  assumes engage_ok: "tb_ks_engage (ev_backend env) (ks_new DEFAULT_INTERFACE DEFAULT_FWMARK lan) w
      = (Inr (), w') \<Longrightarrow> engaged w'"
    and engage_err: "tb_ks_engage (ev_backend env) k w = (Inl e, w') \<Longrightarrow> engaged w' = engaged w"
begin

lemma toggle_safe:
  assumes "killswitch_toggle env b st = (r, st')" and "safe st" and "b \<noteq> Some False"
  shows "safe st'"
  using assms unfolding killswitch_toggle_def set_killswitch_def Let_def configured_killswitch_def
  by (auto simp: safe_def linked_def guarded_def split: option.splits bool.splits prod.splits
      sum.splits dest: engage_ok engage_err)

lemma handle_safe:
  assumes "safe st" and "rq \<noteq> ReqKillswitch (Some False)"
  shows "safe (snd (handle env rq st))"
proof (cases "\<exists>on. rq = ReqKillswitch (Some on)")
  case True
  then have rq: "rq = ReqKillswitch (Some True)" using assms(2) by auto
  have "safe (snd (killswitch_op env (Some True) st))"
    by (rule killswitch_safe [OF prod.collapse [symmetric]]) (rule toggle_safe [OF _ assms(1)], auto)
  then show ?thesis by (simp add: rq)
next
  case False
  then show ?thesis using handle_other_safe [OF assms(1)] by blast
qed

end

end
