(* ===== verification/Host.thy ===== *)
theory Host
  imports Daemon_Guard
begin

text \<open>
  The environment of the daemon on a real machine: what it asks of the host beside the
  tunnel (clock, files, HTTP, probes), on the world under a platform's trace of changes, and
  the platform's tunnel backend. Both platforms use it.
\<close>

section \<open>The environment\<close>

text \<open>What the daemon asks of the machine beside the tunnel.\<close>

record 'w host =
  hv_now :: "'w \<Rightarrow> instant"
  hv_wall :: "'w \<Rightarrow> nat"
  hv_sleep :: "duration \<Rightarrow> 'w \<Rightarrow> 'w"
  hv_http_client :: "'w \<Rightarrow> string option"
  hv_http_get :: "string \<Rightarrow> 'w \<Rightarrow> (string + string) \<times> 'w"
  hv_json :: "string \<Rightarrow> string + server_list"
  hv_read :: "'w \<Rightarrow> path \<Rightarrow> string + string"
  hv_toml :: "string \<Rightarrow> string + config"
  hv_b64 :: base64
  hv_net :: "prober \<Rightarrow> sockaddr list \<Rightarrow> 'w \<Rightarrow> net_obs \<times> 'w"
  hv_download :: "tp_settings \<Rightarrow> 'w \<Rightarrow> tp_obs \<times> 'w"

definition on_world :: "('s \<Rightarrow> 'w) \<Rightarrow> ('w \<Rightarrow> 's \<Rightarrow> 's) \<Rightarrow> ('w \<Rightarrow> 'a \<times> 'w) \<Rightarrow> 's \<Rightarrow> 'a \<times> 's" where
  "on_world get put f s = (case f (get s) of (x, w) \<Rightarrow> (x, put w s))"

definition host_env :: "('s \<Rightarrow> 'w) \<Rightarrow> ('w \<Rightarrow> 's \<Rightarrow> 's) \<Rightarrow> 'w host \<Rightarrow> ('t, 's) backend \<Rightarrow> ('t, 's) env" where
  "host_env get put h b =
     \<lparr>ev_now = \<lambda>s. hv_now h (get s), ev_wall = \<lambda>s. hv_wall h (get s),
      ev_sleep = \<lambda>d s. put (hv_sleep h d (get s)) s,
      ev_http_client = \<lambda>s. hv_http_client h (get s),
      ev_http_get = \<lambda>url. on_world get put (hv_http_get h url),
      ev_json = hv_json h, ev_read = \<lambda>s. hv_read h (get s), ev_toml = hv_toml h,
      ev_b64 = hv_b64 h, ev_net = \<lambda>p as. on_world get put (hv_net h p as),
      ev_download = \<lambda>ts. on_world get put (hv_download h ts), ev_backend = b\<rparr>"

section \<open>A sample host\<close>

text \<open>A machine on which every call succeeds, and the settings with the kill switch on.\<close>

definition guarded_config :: config where
  "guarded_config = sample_config\<lparr>cf_killswitch := \<lparr>ks_enabled = True, ks_allow_lan = True\<rparr>\<rparr>"

definition sample_host :: "unit host" where
  "sample_host =
     \<lparr>hv_now = \<lambda>w. 0, hv_wall = \<lambda>w. 0, hv_sleep = \<lambda>d w. w, hv_http_client = \<lambda>w. None,
      hv_http_get = \<lambda>url w. (Inr ''{}'', w), hv_json = \<lambda>body. Inr sample_list,
      hv_read = \<lambda>w p. if p = ''config.toml'' then Inr ''[airvpn]'' else sample_files p,
      hv_toml = \<lambda>txt. Inr guarded_config, hv_b64 = sample_engine,
      hv_net = \<lambda>p as w. (sample_net, w), hv_download = \<lambda>s w. (sample_download, w)\<rparr>"

definition guarded_start :: "'s \<Rightarrow> ('t, 's) dstate" where
  "guarded_start s =
     \<lparr>ds_config = guarded_config, ds_config_path = ''config.toml'', ds_client = sample_client,
      ds_servers = None, ds_tunnel = None, ds_current = None, ds_last_sweep = None,
      ds_last_ranking = [], ds_pending = None, ds_dismissed = None, ds_throughput_seen = Map.empty,
      ds_direct_mbps = None, ds_last_tune = None, ds_last_tune_at = None, ds_world = s\<rparr>"

lemma guarded_load: "load (host_env get put sample_host b) ''config.toml'' s = Inr (guarded_start s)"
proof -
  have "config_ok guarded_config"
    using sample_config_ok by (simp add: guarded_config_def config_ok_def Let_def)
  then have "config_load (hv_read sample_host ()) (hv_toml sample_host) ''config.toml'' = Inr guarded_config"
    by (simp add: config_load_def config_parse_def validate_iff [symmetric] sample_host_def)
  moreover have "load_client_config sample_engine (hv_read sample_host ()) guarded_config = Inr sample_client"
    using sample_keys [of "hv_read sample_host ()"]
    by (simp add: load_client_config_def guarded_config_def sample_host_def)
  moreover have "hv_b64 sample_host = sample_engine" by (simp add: sample_host_def)
  ultimately show ?thesis
    by (simp add: load_def load_all_def host_env_def guarded_start_def)
qed

text \<open>Connecting by name on the sample host, over a backend whose calls succeed.\<close>

lemma guarded_connect:
  fixes b :: "('t, 's) backend"
  assumes put: "\<And>s. put () s = s"
    and new: "tb_new b DEFAULT_INTERFACE s0 = (Inr t0, s1)"
    and up: "\<And>t spec s. spec_validate spec = Inr () \<Longrightarrow> \<exists>t' s'. tb_up b t spec s = (Inr (), t', s')"
  shows "\<exists>t' t spec s s'. ds_tunnel (snd (handle (host_env get put sample_host b)
      (ReqConnect (Some ''Achernar'') (Some False)) (guarded_start s0))) = Some t' \<and>
    tb_up b (tb_with_killswitch b (ks_new DEFAULT_INTERFACE DEFAULT_FWMARK True) t) spec s = (Inr (), t', s')"
proof -
  let ?env = "host_env get put sample_host b"
  let ?st = "guarded_start s0 :: ('t, 's) dstate"
  have l: "server_list ?env ?st = (Inr sample_list, ?st\<lparr>ds_servers := Some (sample_list, 0)\<rparr>)"
    by (simp add: server_list_def list_is_stale_def client_new_def client_fetch_def from_json_def
        host_env_def on_world_def sample_host_def guarded_start_def sample_list_def now_def Let_def put)
  have p: "prober_of ?st = sample_prober"
    by (simp add: prober_of_def guarded_start_def guarded_config_def sample_prober_def sample_config_def
        from_imported_def Let_def)
  have net: "ev_net ?env = (\<lambda>p as w. (sample_net, w))"
    by (simp add: host_env_def on_world_def sample_host_def fun_eq_iff put)
  define st1 where "st1 = ?st\<lparr>ds_servers := Some (sample_list, 0)\<rparr>"
  have st1: "ds_config st1 = guarded_config" "ds_client st1 = sample_client" "ds_tunnel st1 = None"
      "ds_world st1 = s0" "ds_current ?st = None" "ap_port (cf_airvpn (ds_config ?st)) = WG_PORT"
    by (simp_all add: st1_def guarded_start_def guarded_config_def sample_config_def from_imported_def)
  obtain r where n: "probe_named ?env ''Achernar'' ?st = (Inr r, st1)"
    using named_one [OF l sample_get net, where d = 20] sample_timed(1) p st1 by (auto simp: st1_def)
  obtain rs s2 where pl: "tb_plan b (bypass_request_of st1) s1 = (rs, s2)" by fastforce
  define t where "t = (if rs \<noteq> [] then tb_with_bypass b rs t0 else t0)"
  define k where "k = ks_new DEFAULT_INTERFACE DEFAULT_FWMARK True"
  have "configured_killswitch st1 = k" "ks_enabled (cf_killswitch guarded_config)"
    by (simp_all add: configured_killswitch_def st1 guarded_config_def k_def)
  then have "new_tunnel ?env st1 = (Inr (tb_with_killswitch b k t), st1\<lparr>ds_world := s2\<rparr>)"
    using pl st1 new by (simp add: new_tunnel_def host_env_def t_def Let_def)
  moreover obtain t' s3 where u: "tb_up b (tb_with_killswitch b k t) (spec_for st1 r) s2 = (Inr (), t', s3)"
    using up spec_default_valid unfolding spec_for_def by blast
  ultimately have "establish ?env r st1 = (Inr (), st1\<lparr>ds_tunnel := Some t',
      ds_current := Some (connection_from r), ds_world := s3\<rparr>)"
    using st1 by (simp add: establish_def host_env_def Let_def)
  then have "ds_tunnel (snd (handle ?env (ReqConnect (Some ''Achernar'') (Some False)) ?st)) = Some t'"
    using n st1 by (simp add: connect_def reply_def)
  then show ?thesis using u unfolding k_def by blast
qed

end
