(* ===== verification/Linux_Tunnel.thy ===== *)
theory Linux_Tunnel
  imports Killswitch
begin

text \<open>
  \<^verbatim>\<open>vpnmgr-tunnel/src/linux.rs\<close>: the Linux backend, on the system calls of \<^verbatim>\<open>Sys\<close>. The
  lemmas at the end are about the trace of a connect: in which order the firewall, the
  bypass routes and the interface are touched, and what a failure undoes.
\<close>

section \<open>State\<close>

record linux_tunnel =
  lt_interface :: string
  lt_created :: bool
  lt_killswitch :: "killswitch option"
  lt_bypass :: "route list" \<comment> \<open>the routes \<^verbatim>\<open>Bypass\<close> has installed\<close>
  lt_bypass_plan :: "route list"

definition wg_err :: "string \<Rightarrow> string \<Rightarrow> string \<Rightarrow> tunnel_error" where
  "wg_err operation interface txt =
     (if str_contains txt ''Operation not permitted'' \<or> str_contains txt ''permission denied''
         \<or> str_contains txt ''Permission denied''
      then PermissionDenied operation interface
      else Wireguard operation interface txt)"

definition lt_new :: "'w os \<Rightarrow> string \<Rightarrow> 'w sys \<Rightarrow> (tunnel_error + linux_tunnel) \<times> 'w sys" where
  "lt_new os interface s =
     (case os_wg_open os interface (sys_world s) of
        (Some e, w) \<Rightarrow> (Inl (wg_err ''open'' interface e), s\<lparr>sys_world := w\<rparr>)
      | (None, w) \<Rightarrow>
          (Inr \<lparr>lt_interface = interface, lt_created = False, lt_killswitch = None,
                lt_bypass = [], lt_bypass_plan = []\<rparr>, s\<lparr>sys_world := w\<rparr>))"

definition lt_with_killswitch :: "killswitch \<Rightarrow> linux_tunnel \<Rightarrow> linux_tunnel" where
  "lt_with_killswitch k t = t\<lparr>lt_killswitch := Some k\<rparr>"

definition lt_with_bypass :: "route list \<Rightarrow> linux_tunnel \<Rightarrow> linux_tunnel" where
  "lt_with_bypass p t = t\<lparr>lt_bypass_plan := p\<rparr>"

definition to_mask :: "cidr \<Rightarrow> ipaddr \<times> u8" where
  "to_mask c = (c_addr c, c_prefix c)"

definition lt_peer :: "tunnel_spec \<Rightarrow> wg_peer" where
  "lt_peer spec =
     (let c = tn_client spec in
      \<lparr>wp_public_key = public_bytes (cc_peer_public_key c),
       wp_endpoint = Some (tn_endpoint spec),
       wp_preshared_key = map_option secret_expose (cc_preshared_key c),
       wp_keepalive = cc_persistent_keepalive c,
       wp_allowed_ips = map to_mask (cc_allowed_ips c)\<rparr>)"

definition iface_config :: "string \<Rightarrow> tunnel_spec \<Rightarrow> wg_peer list \<Rightarrow> wg_iface" where
  "iface_config interface spec peers =
     (let c = tn_client spec in
      \<lparr>wi_name = interface,
       wi_prvkey = secret_expose (cc_private_key c),
       wi_addresses = map to_mask (cc_addresses c),
       wi_port = 0,
       wi_peers = peers,
       wi_mtu = cc_mtu c,
       wi_fwmark = Some (tn_fwmark spec)\<rparr>)"

section \<open>Policy rules\<close>

definition count_rules :: "'w os \<Rightarrow> string \<Rightarrow> (string \<Rightarrow> bool) \<Rightarrow> 'w sys \<Rightarrow> nat \<times> 'w sys" where
  "count_rules os family matches s =
     (case os_ip os [family, ''rule'', ''show''] (sys_world s) of
        (r, w) \<Rightarrow>
          ((case r of
              SpawnErr _ \<Rightarrow> 0
            | Exit _ out _ \<Rightarrow> length (filter matches (str_lines out))), s\<lparr>sys_world := w\<rparr>))"

definition rule_del :: "'w os \<Rightarrow> string \<Rightarrow> string list \<Rightarrow> 'w sys \<Rightarrow> bool \<times> 'w sys" where
  "rule_del os family args s =
     (let argv = [family, ''rule'', ''del''] @ args in
      case os_ip os argv (sys_world s) of
        (r, w) \<Rightarrow> (exit_ok r, emit (EvIp argv (exit_ok r)) w s))"

text \<open>
  The loop of \<^verbatim>\<open>prune_rule\<close>: it ends when at most one rule is left or a delete fails. The
  fuel bounds the number of deletes; \<open>prune_rule_done\<close> below shows that it does not cut the
  loop short when every successful delete removes a rule.
\<close>

fun prune_loop :: "nat \<Rightarrow> 'w os \<Rightarrow> string \<Rightarrow> (string \<Rightarrow> bool) \<Rightarrow> string list \<Rightarrow> 'w sys \<Rightarrow> 'w sys" where
  "prune_loop 0 os family matches args s = s"
| "prune_loop (Suc fuel) os family matches args s =
     (case count_rules os family matches s of
        (n, s1) \<Rightarrow>
          if 1 < n
          then (case rule_del os family args s1 of
                  (True, s2) \<Rightarrow> prune_loop fuel os family matches args s2
                | (False, s2) \<Rightarrow> s2)
          else s1)"

definition PRUNE_FUEL :: nat where "PRUNE_FUEL = 4096"

definition prune_rule :: "'w os \<Rightarrow> string \<Rightarrow> (string \<Rightarrow> bool) \<Rightarrow> string list \<Rightarrow> 'w sys \<Rightarrow> 'w sys" where
  "prune_rule os family matches args s = prune_loop PRUNE_FUEL os family matches args s"

definition is_lookup_rule :: "string \<Rightarrow> string \<Rightarrow> bool" where
  "is_lookup_rule table line \<longleftrightarrow>
     str_contains line ''fwmark'' \<and> str_contains line (''lookup '' @ table)"

definition is_suppress_rule :: "string \<Rightarrow> bool" where
  "is_suppress_rule line \<longleftrightarrow> str_contains line ''suppress_prefixlength 0''"

definition prune_family :: "'w os \<Rightarrow> string \<Rightarrow> string \<Rightarrow> 'w sys \<Rightarrow> 'w sys" where
  "prune_family os table family s =
     prune_rule os family is_suppress_rule [''table'', ''main'', ''suppress_prefixlength'', ''0'']
       (prune_rule os family (is_lookup_rule table) [''not'', ''fwmark'', table, ''table'', table] s)"

definition prune_duplicate_policy_rules :: "'w os \<Rightarrow> u32 \<Rightarrow> 'w sys \<Rightarrow> 'w sys" where
  "prune_duplicate_policy_rules os fwmark s =
     (let table = show_nat (unat fwmark) in
      prune_family os table ''-6'' (prune_family os table ''-4'' s))"

section \<open>Operations\<close>

text \<open>A library call whose failure is reported under an operation's name.\<close>

definition wg_op :: "'w os \<Rightarrow> linux_tunnel \<Rightarrow> string \<Rightarrow> wg_call \<Rightarrow> 'w sys
    \<Rightarrow> (tunnel_error + unit) \<times> 'w sys" where
  "wg_op os t operation c s =
     (case wg_do os (lt_interface t) c s of
        (Some e, s1) \<Rightarrow> (Inl (wg_err operation (lt_interface t) e), s1)
      | (None, s1) \<Rightarrow> (Inr (), s1))"

definition rotate_listen_port :: "'w os \<Rightarrow> linux_tunnel \<Rightarrow> tunnel_spec \<Rightarrow> 'w sys
    \<Rightarrow> (tunnel_error + unit) \<times> 'w sys" where
  "rotate_listen_port os t spec s =
     wg_op os t ''rotating the listen port''
       (ConfigureInterface (iface_config (lt_interface t) spec [])) s"

definition bring_up :: "'w os \<Rightarrow> linux_tunnel \<Rightarrow> tunnel_spec \<Rightarrow> 'w sys
    \<Rightarrow> (tunnel_error + unit) \<times> linux_tunnel \<times> 'w sys" where
  "bring_up os t spec s0 =
     (case wg_op os t ''creating the interface'' CreateInterface s0 of
        (Inl e, s1) \<Rightarrow> (Inl e, t, s1)
      | (Inr _, s1) \<Rightarrow>
     (let t1 = t\<lparr>lt_created := True\<rparr>; peer = lt_peer spec in
      case wg_op os t1 ''configuring the interface''
             (ConfigureInterface (iface_config (lt_interface t) spec [peer])) s1 of
        (Inl e, s2) \<Rightarrow> (Inl e, t1, s2)
      | (Inr _, s2) \<Rightarrow>
     (case wg_op os t1 ''installing routes'' (ConfigureRouting [peer]) s2 of
        (Inl e, s3) \<Rightarrow> (Inl e, t1, s3)
      | (Inr _, s3) \<Rightarrow>
     (let s4 = prune_duplicate_policy_rules os (tn_fwmark spec) s3; c = tn_client spec in
      if cc_dns c \<noteq> [] \<or> cc_search_domains c \<noteq> []
      then (case wg_op os t1 ''configuring DNS'' (ConfigureDns (cc_dns c) (cc_search_domains c)) s4 of
              (Inl e, s5) \<Rightarrow> (Inl e, t1, s5)
            | (Inr _, s5) \<Rightarrow> (Inr (), t1, s5))
      else (Inr (), t1, s4)))))"

definition engage_for :: "'w os \<Rightarrow> linux_tunnel \<Rightarrow> 'w sys \<Rightarrow> (tunnel_error + unit) \<times> 'w sys" where
  "engage_for os t s =
     (case lt_killswitch t of
        None \<Rightarrow> (Inr (), s)
      | Some k \<Rightarrow> ks_engage os (ks_allowing (destinations (lt_bypass t)) k) s)"

definition release_if :: "'w os \<Rightarrow> linux_tunnel \<Rightarrow> 'w sys \<Rightarrow> (tunnel_error + unit) \<times> 'w sys" where
  "release_if os t s = (if lt_killswitch t \<noteq> None then ks_release os s else (Inr (), s))"

definition lt_remove_bypass :: "'w os \<Rightarrow> linux_tunnel \<Rightarrow> 'w sys \<Rightarrow> linux_tunnel \<times> 'w sys" where
  "lt_remove_bypass os t s =
     (case remove os (lt_bypass t) s of (rs, s1) \<Rightarrow> (t\<lparr>lt_bypass := rs\<rparr>, s1))"

definition lt_up :: "'w os \<Rightarrow> linux_tunnel \<Rightarrow> tunnel_spec \<Rightarrow> 'w sys
    \<Rightarrow> (tunnel_error + unit) \<times> linux_tunnel \<times> 'w sys" where
  "lt_up os t spec s0 =
     (case spec_validate spec of
        Inl e \<Rightarrow> (Inl e, t, s0)
      | Inr _ \<Rightarrow>
     (case install os (lt_bypass_plan t) (lt_bypass t) s0 of
        (rs, s1) \<Rightarrow>
     (let t1 = t\<lparr>lt_bypass := rs, lt_bypass_plan := []\<rparr> in
      case engage_for os t1 s1 of
        (Inl e, s2) \<Rightarrow> (Inl e, t1, s2)
      | (Inr _, s2) \<Rightarrow>
     (case bring_up os t1 spec s2 of
        (Inr _, t2, s3) \<Rightarrow> (Inr (), t2, s3)
      | (Inl e, t2, s3) \<Rightarrow>
          (case lt_remove_bypass os t2 s3 of
             (t3, s4) \<Rightarrow> (Inl e, t3, snd (release_if os t3 s4)))))))"

definition lt_retarget :: "'w os \<Rightarrow> linux_tunnel \<Rightarrow> tunnel_spec \<Rightarrow> 'w sys
    \<Rightarrow> (tunnel_error + unit) \<times> linux_tunnel \<times> 'w sys" where
  "lt_retarget os t spec s0 =
     (let peer = lt_peer spec in
      case wg_op os t ''clearing the previous session''
             (RemovePeer (public_bytes (cc_peer_public_key (tn_client spec)))) s0 of
        (Inl e, s1) \<Rightarrow> (Inl e, t, s1)
      | (Inr _, s1) \<Rightarrow>
     (case rotate_listen_port os t spec s1 of
        (Inl e, s2) \<Rightarrow> (Inl e, t, s2)
      | (Inr _, s2) \<Rightarrow>
     (case wg_op os t ''retargeting the peer'' (ConfigurePeer peer) s2 of
        (Inl e, s3) \<Rightarrow> (Inl e, t, s3)
      | (Inr _, s3) \<Rightarrow>
     (case wg_op os t ''reinstalling routes'' (ConfigureRouting [peer]) s3 of
        (Inl e, s4) \<Rightarrow> (Inl e, t, s4)
      | (Inr _, s4) \<Rightarrow>
          (Inr (), t, prune_duplicate_policy_rules os (tn_fwmark spec) s4)))))"

definition lt_down :: "'w os \<Rightarrow> linux_tunnel \<Rightarrow> 'w sys
    \<Rightarrow> (tunnel_error + unit) \<times> linux_tunnel \<times> 'w sys" where
  "lt_down os t s0 =
     (case wg_op os t ''removing the interface'' RemoveInterface s0 of
        (result, s1) \<Rightarrow>
     (case lt_remove_bypass os (t\<lparr>lt_created := False\<rparr>) s1 of
        (t1, s2) \<Rightarrow>
     (case release_if os t1 s2 of
        (Inl e, s3) \<Rightarrow> (Inl e, t1, s3)
      | (Inr _, s3) \<Rightarrow> (result, t1, s3))))"

text \<open>The kernel's zero instant stands for no handshake.\<close>

definition read_status :: "'w os \<Rightarrow> linux_tunnel \<Rightarrow> 'w sys \<Rightarrow> (tunnel_error + tunnel_status) \<times> 'w sys"
where
  "read_status os t s =
     (case os_wg_read os (lt_interface t) (sys_world s) of
        (r, w) \<Rightarrow>
          ((case r of
              Inl e \<Rightarrow> Inl (wg_err ''reading interface state'' (lt_interface t) e)
            | Inr host \<Rightarrow>
                (let peer = (case wh_peers host of [] \<Rightarrow> None | p # _ \<Rightarrow> Some p) in
                 Inr \<lparr>tst_interface = lt_interface t, tst_up = True,
                      tst_endpoint = Option.bind peer wd_endpoint,
                      tst_last_handshake =
                        (case Option.bind peer wd_last_handshake of
                           Some h \<Rightarrow> if h \<noteq> 0 then Some h else None
                         | None \<Rightarrow> None),
                      tst_tx_bytes = (case peer of Some p \<Rightarrow> wd_tx_bytes p | None \<Rightarrow> 0),
                      tst_rx_bytes = (case peer of Some p \<Rightarrow> wd_rx_bytes p | None \<Rightarrow> 0),
                      tst_listen_port = wh_listen_port host,
                      tst_fwmark = wh_fwmark host\<rparr>)), s\<lparr>sys_world := w\<rparr>))"

text \<open>\<^verbatim>\<open>Drop\<close>: the body, then the drop of the \<^verbatim>\<open>Bypass\<close> field.\<close>

definition lt_drop :: "'w os \<Rightarrow> linux_tunnel \<Rightarrow> 'w sys \<Rightarrow> 'w sys" where
  "lt_drop os t s0 =
     (let s1 = (if lt_created t then snd (wg_do os (lt_interface t) RemoveInterface s0) else s0);
          s2 = snd (release_if os t s1)
      in snd (remove os (lt_bypass t) s2))"

section \<open>Lemmas\<close>

fun is_ip_ev :: "event \<Rightarrow> bool" where
  "is_ip_ev (EvIp _ _) = True"
| "is_ip_ev _ = False"

fun is_wg_ev :: "event \<Rightarrow> bool" where
  "is_wg_ev (EvWg _ _ _) = True"
| "is_wg_ev _ = False"

text \<open>The events a step adds to the trace.\<close>

definition extends :: "'w sys \<Rightarrow> event list \<Rightarrow> 'w sys \<Rightarrow> bool" where
  "extends s es s' \<longleftrightarrow> sys_trace s' = sys_trace s @ es"

lemma extends_refl: "extends s [] s"
  by (simp add: extends_def)

lemma extends_trans: "extends s es s' \<Longrightarrow> extends s' es' s'' \<Longrightarrow> extends s (es @ es') s''"
  by (simp add: extends_def)

lemma wg_op_cases:
  assumes "wg_op os t op c s = (r, s')"
  obtains "r = Inr ()" "extends s [EvWg (lt_interface t) c True] s'"
  | e where "r = Inl e" "extends s [EvWg (lt_interface t) c False] s'"
  using assms wg_do_trace
  by (fastforce simp: wg_op_def extends_def split: prod.splits option.splits)

subsection \<open>Pruning\<close>

lemma count_rules_trace [simp]: "count_rules os f m s = (n, s') \<Longrightarrow> sys_trace s' = sys_trace s"
  by (auto simp: count_rules_def split: prod.splits)

lemma rule_del_extends:
  "rule_del os f args s = (ok, s') \<Longrightarrow> extends s [EvIp ([f, ''rule'', ''del''] @ args) ok] s'"
  by (auto simp: rule_del_def extends_def Let_def split: prod.splits)

lemma prune_loop_extends:
  "\<exists>es. extends s es (prune_loop fuel os f m args s) \<and> list_all is_ip_ev es"
proof (induction fuel arbitrary: s)
  case 0
  then show ?case using extends_refl by fastforce
next
  case (Suc fuel)
  obtain n s1 where c: "count_rules os f m s = (n, s1)" by fastforce
  then have t: "extends s [] s1" by (simp add: extends_def)
  obtain ok s2 where d: "rule_del os f args s1 = (ok, s2)" by fastforce
  have e: "extends s [EvIp ([f, ''rule'', ''del''] @ args) ok] s2"
    using extends_trans [OF t rule_del_extends [OF d]] by simp
  obtain es where r: "extends s2 es (prune_loop fuel os f m args s2)" "list_all is_ip_ev es"
    using Suc.IH by blast
  have rec: "extends s (EvIp ([f, ''rule'', ''del''] @ args) ok # es) (prune_loop fuel os f m args s2)"
    using extends_trans [OF e r(1)] by simp
  consider "n \<le> 1" | "1 < n" "\<not> ok" | "1 < n" "ok" by fastforce
  then show ?case
  proof cases
    case 1
    then show ?thesis using c t by (auto intro!: exI [of _ "[]"])
  next
    case 2
    then show ?thesis using c d e by (auto intro!: exI [of _ "[EvIp ([f, ''rule'', ''del''] @ args) ok]"])
  next
    case 3
    then show ?thesis using c d rec r(2)
      by (auto intro!: exI [of _ "EvIp ([f, ''rule'', ''del''] @ args) ok # es"])
  qed
qed

definition ip_only :: "'w sys \<Rightarrow> 'w sys \<Rightarrow> bool" where
  "ip_only s s' \<longleftrightarrow> (\<exists>es. extends s es s' \<and> list_all is_ip_ev es)"

lemma ip_only_trans: "ip_only s s' \<Longrightarrow> ip_only s' s'' \<Longrightarrow> ip_only s s''"
  unfolding ip_only_def using extends_trans list_all_append by blast

lemma ip_only_prune_family: "ip_only s (prune_family os table f s)"
proof -
  have "ip_only s (prune_rule os f m args s)" for m args s
    using prune_loop_extends [of s PRUNE_FUEL] by (simp add: ip_only_def prune_rule_def)
  from ip_only_trans [OF this this] show ?thesis by (simp add: prune_family_def)
qed

lemma ip_only_prune: "ip_only s (prune_duplicate_policy_rules os m s)"
  unfolding prune_duplicate_policy_rules_def Let_def
  by (rule ip_only_trans [OF ip_only_prune_family ip_only_prune_family])

text \<open>
  A system whose successful deletes each remove one of the counted rules, and whose queries
  do not change the count.
\<close>

definition prunes :: "'w os \<Rightarrow> string \<Rightarrow> (string \<Rightarrow> bool) \<Rightarrow> string list \<Rightarrow> bool" where
  "prunes os f m args \<longleftrightarrow>
     (\<forall>s n s1. count_rules os f m s = (n, s1) \<longrightarrow> fst (count_rules os f m s1) = n) \<and>
     (\<forall>s s1. rule_del os f args s = (True, s1) \<longrightarrow>
        fst (count_rules os f m s1) < fst (count_rules os f m s))"

text \<open>The loop's own exit: at most one rule left, or a delete that failed.\<close>

inductive prune_done :: "'w os \<Rightarrow> string \<Rightarrow> (string \<Rightarrow> bool) \<Rightarrow> string list \<Rightarrow> 'w sys \<Rightarrow> 'w sys \<Rightarrow> bool"
  for os f m args where
  few: "count_rules os f m s = (n, s1) \<Longrightarrow> n \<le> 1 \<Longrightarrow> prune_done os f m args s s1"
| failed: "count_rules os f m s = (n, s1) \<Longrightarrow> 1 < n \<Longrightarrow> rule_del os f args s1 = (False, s2) \<Longrightarrow>
    prune_done os f m args s s2"
| again: "count_rules os f m s = (n, s1) \<Longrightarrow> 1 < n \<Longrightarrow> rule_del os f args s1 = (True, s2) \<Longrightarrow>
    prune_done os f m args s2 s3 \<Longrightarrow> prune_done os f m args s s3"

inductive_cases prune_doneE: "prune_done os f m args s s'"

lemma prune_loop_done:
  assumes "prunes os f m args" and "fst (count_rules os f m s) \<le> fuel" and "0 < fuel"
  shows "prune_done os f m args s (prune_loop fuel os f m args s)"
  using assms(2,3)
proof (induction fuel arbitrary: s)
  case (Suc fuel)
  obtain n s1 where c: "count_rules os f m s = (n, s1)" by fastforce
  obtain ok s2 where d: "rule_del os f args s1 = (ok, s2)" by fastforce
  consider "n \<le> 1" | "1 < n" "\<not> ok" | "1 < n" "ok" by fastforce
  then show ?case
  proof cases
    case 1
    then show ?thesis using prune_done.few [OF c] c by simp
  next
    case 2
    then show ?thesis using prune_done.failed [OF c] c d by auto
  next
    case 3
    have "fst (count_rules os f m s1) = n"
      using assms(1) c by (simp add: prunes_def)
    then have "fst (count_rules os f m s2) < n"
      using assms(1) d 3(2) by (auto simp: prunes_def)
    then have "fst (count_rules os f m s2) \<le> fuel" "0 < fuel"
      using Suc.prems(1) c 3(1) by auto
    then have "prune_done os f m args s2 (prune_loop fuel os f m args s2)"
      by (rule Suc.IH)
    then show ?thesis using prune_done.again [OF c] c d 3 by auto
  qed
qed simp

subsection \<open>Bringing the tunnel up\<close>

fun is_nft_ev :: "event \<Rightarrow> bool" where
  "is_nft_ev (EvNft _ _) = True"
| "is_nft_ev _ = False"

lemma is_ip_ev_not [simp]: "is_ip_ev e \<Longrightarrow> \<not> is_nft_ev e" "is_ip_ev e \<Longrightarrow> \<not> is_wg_ev e"
  by (cases e; simp)+

text \<open>The part of a connect after the firewall touches only the interface and the routes.\<close>

definition no_nft :: "event list \<Rightarrow> bool" where
  "no_nft es \<longleftrightarrow> list_all (\<lambda>e. \<not> is_nft_ev e) es"

definition reaches :: "'w sys \<Rightarrow> 'w sys \<Rightarrow> bool" where
  "reaches s s' \<longleftrightarrow> (\<exists>es. extends s es s' \<and> no_nft es)"

lemma reaches_refl: "reaches s s"
  using extends_refl [of s] by (auto simp: reaches_def no_nft_def)

lemma reaches_trans: "reaches s s' \<Longrightarrow> reaches s' s'' \<Longrightarrow> reaches s s''"
  unfolding reaches_def no_nft_def by (metis extends_trans list_all_append)

lemma reaches_wg_op: "wg_op os t op c s = (r, s') \<Longrightarrow> reaches s s'"
  by (erule wg_op_cases) (auto simp: reaches_def no_nft_def)

lemma reaches_prune: "reaches s (prune_duplicate_policy_rules os m s)"
  using ip_only_prune [of s os m] by (auto simp: ip_only_def reaches_def no_nft_def list_all_iff)

definition same_fields :: "linux_tunnel \<Rightarrow> linux_tunnel \<Rightarrow> bool" where
  "same_fields t t' \<longleftrightarrow> lt_interface t' = lt_interface t \<and> lt_killswitch t' = lt_killswitch t \<and>
     lt_bypass t' = lt_bypass t \<and> lt_bypass_plan t' = lt_bypass_plan t"

text \<open>The steps of \<open>bring_up\<close> as a relation.\<close>

lemma bring_up_cases:
  assumes "bring_up os t spec s = (r, t', s')"
  obtains e where "wg_op os t ''creating the interface'' CreateInterface s = (Inl e, s')"
      "r = Inl e" "t' = t"
  | s1 where "wg_op os t ''creating the interface'' CreateInterface s = (Inr (), s1)"
      "t' = t\<lparr>lt_created := True\<rparr>" "reaches s1 s'"
proof -
  obtain r1 s1 where 1: "wg_op os t ''creating the interface'' CreateInterface s = (r1, s1)" by fastforce
  show ?thesis
  proof (cases r1)
    case (Inl e)
    then show ?thesis using that(1) assms 1 by (simp add: bring_up_def)
  next
    case (Inr u)
    define t1 where "t1 = t\<lparr>lt_created := True\<rparr>"
    obtain r2 s2 where 2: "wg_op os t1 ''configuring the interface''
        (ConfigureInterface (iface_config (lt_interface t) spec [lt_peer spec])) s1 = (r2, s2)" by fastforce
    obtain r3 s3 where 3: "wg_op os t1 ''installing routes'' (ConfigureRouting [lt_peer spec]) s2 = (r3, s3)"
      by fastforce
    define s4 where "s4 = prune_duplicate_policy_rules os (tn_fwmark spec) s3"
    obtain r5 s5 where 5: "wg_op os t1 ''configuring DNS''
        (ConfigureDns (cc_dns (tn_client spec)) (cc_search_domains (tn_client spec))) s4 = (r5, s5)"
      by fastforce
    have rs: "reaches s1 s2" "reaches s1 s3" "reaches s1 s4" "reaches s1 s5"
      using reaches_wg_op [OF 2] reaches_wg_op [OF 3] reaches_wg_op [OF 5]
        reaches_prune [of s3 os "tn_fwmark spec"] reaches_trans
      unfolding s4_def by metis+
    have "t' = t1 \<and> (s' = s2 \<or> s' = s3 \<or> s' = s4 \<or> s' = s5)"
      using assms Inr 1 2 3 5
      by (simp add: bring_up_def Let_def t1_def [symmetric] s4_def [symmetric] split: sum.splits if_splits)
    then show ?thesis using that(2) 1 Inr rs by (auto simp: t1_def)
  qed
qed

lemma bring_up_reaches:
  "bring_up os t spec s = (r, t', s') \<Longrightarrow> reaches s s' \<and> same_fields t t'"
  by (erule bring_up_cases) (auto simp: same_fields_def dest!: reaches_wg_op intro: reaches_trans)

text \<open>Nothing the library is asked for precedes the firewall's confirmation.\<close>

definition firewall_first :: "killswitch \<Rightarrow> event list \<Rightarrow> bool" where
  "firewall_first k es \<longleftrightarrow>
     (\<forall>pre e post. es = pre @ e # post \<longrightarrow> is_wg_ev e \<longrightarrow>
        (\<exists>ds. EvNft (ks_script (ks_allowing ds k)) True \<in> set pre))"

lemma firewall_first_prefix:
  assumes "list_all (\<lambda>e. \<not> is_wg_ev e) es1" and "EvNft (ks_script (ks_allowing ds k)) True \<in> set es1"
  shows "firewall_first k (es1 @ es2)"
  unfolding firewall_first_def
proof (intro allI impI)
  fix pre e post
  assume eq: "es1 @ es2 = pre @ e # post" and "is_wg_ev e"
  then have "e \<notin> set es1" using assms(1) by (auto simp: list_all_iff)
  have "set es1 \<subseteq> set pre"
  proof -
    from eq obtain us where "es1 = pre @ us \<and> us @ es2 = e # post \<or> es1 @ us = pre \<and> es2 = us @ e # post"
      by (auto simp: append_eq_append_conv2)
    then show ?thesis
      using \<open>e \<notin> set es1\<close> by (cases us) auto
  qed
  then show "\<exists>ds. EvNft (ks_script (ks_allowing ds k)) True \<in> set pre"
    using assms(2) by blast
qed

lemma install_extends:
  "install os rs inst s = (inst', s') \<Longrightarrow>
     \<exists>added es. inst' = inst @ added \<and> set added \<subseteq> set rs \<and> extends s es s' \<and>
       list_all is_ip_ev es \<and> installed_by added es"
proof (induction rs arbitrary: inst s)
  case Nil
  then show ?case using extends_refl by (fastforce simp: installed_by_def)
next
  case (Cons r rs)
  obtain ex s1 where ex: "route_exists os r s = (ex, s1)" by fastforce
  have e1: "extends s [] s1" using ex by (simp add: extends_def)
  show ?case
  proof (cases ex)
    case True
    then have "install os rs inst s1 = (inst', s')" using Cons.prems ex by simp
    from Cons.IH [OF this] obtain added es where "inst' = inst @ added" "set added \<subseteq> set rs"
        "extends s1 es s'" "list_all is_ip_ev es" "installed_by added es" by auto
    then show ?thesis
      using extends_trans [OF e1] by (intro exI [of _ added] exI [of _ es]) auto
  next
    case False
    obtain ok s2 where add: "sys_add os r s1 = (ok, s2)" by fastforce
    have "install os rs (if ok then inst @ [r] else inst) s2 = (inst', s')"
      using Cons.prems ex add False by simp
    from Cons.IH [OF this] obtain added es where
        IH: "inst' = (if ok then inst @ [r] else inst) @ added" "set added \<subseteq> set rs"
        "extends s2 es s'" "list_all is_ip_ev es" "installed_by added es"
      by auto
    have "extends s (route_ev add_args r ok # es) s'"
      using IH(3) sys_add_trace [OF add] ex by (simp add: extends_def)
    moreover have "list_all is_ip_ev (route_ev add_args r ok # es)"
      using IH(4) by (simp add: route_ev_def)
    moreover have "installed_by ((if ok then [r] else []) @ added) (route_ev add_args r ok # es)"
      using IH(5) by (auto simp: installed_by_def)
    ultimately show ?thesis
      using IH(1,2)
      by (intro exI [of _ "(if ok then [r] else []) @ added"]
          exI [of _ "route_ev add_args r ok # es"]) auto
  qed
qed

text \<open>The stages of a connect that got as far as the bypass routes.\<close>

lemma engage_for_cases:
  assumes "engage_for os t s = (r, s')"
  obtains "lt_killswitch t = None" "r = Inr ()" "s' = s"
  | k where "lt_killswitch t = Some k"
      "extends s [EvNft (ks_script (ks_allowing (destinations (lt_bypass t)) k)) (r = Inr ())] s'"
  using assms ks_engage_trace
  by (cases "lt_killswitch t") (fastforce simp: engage_for_def extends_def)+

lemma release_if_extends:
  assumes "release_if os t s = (r, s')"
  shows "\<exists>ok. extends s (if lt_killswitch t \<noteq> None then [EvNft release_script ok] else []) s'"
  using assms ks_release_trace [of os s r s'] extends_refl [of s]
  by (auto simp: release_if_def extends_def split: if_splits)

lemma lt_remove_bypass_extends:
  assumes "lt_remove_bypass os t s = (t', s')"
  shows "t' = t\<lparr>lt_bypass := []\<rparr>" and "\<exists>oks. length oks = length (lt_bypass t) \<and>
    extends s (map (\<lambda>(r, ok). route_ev del_args r ok) (zip (lt_bypass t) oks)) s'"
  using assms remove_spec [of os "lt_bypass t" s]
  by (auto simp: lt_remove_bypass_def extends_def split: prod.splits)

definition withdrawn :: "route list \<Rightarrow> event list \<Rightarrow> bool" where
  "withdrawn rs es \<longleftrightarrow>
     (\<exists>oks. length oks = length rs \<and> es = map (\<lambda>(r, ok). route_ev del_args r ok) (zip rs oks))"

lemma withdrawn_ip: "withdrawn rs es \<Longrightarrow> list_all is_ip_ev es"
  by (auto simp: withdrawn_def list_all_iff route_ev_def)

text \<open>
  What a connect does, stage by stage: the bypass routes; the firewall, told of every
  installed route; the interface; and, when that last stage fails, the withdrawal of every
  route and the release of the firewall.
\<close>

definition engage_events :: "linux_tunnel \<Rightarrow> route list \<Rightarrow> bool \<Rightarrow> event list" where
  "engage_events t rs ok =
     (case lt_killswitch t of
        None \<Rightarrow> []
      | Some k \<Rightarrow> [EvNft (ks_script (ks_allowing (destinations rs) k)) ok])"

definition release_events :: "linux_tunnel \<Rightarrow> bool \<Rightarrow> event list" where
  "release_events t ok = (if lt_killswitch t \<noteq> None then [EvNft release_script ok] else [])"

definition up_refused :: "linux_tunnel \<Rightarrow> linux_tunnel \<Rightarrow> event list \<Rightarrow> bool" where
  "up_refused t t' es \<longleftrightarrow> lt_killswitch t \<noteq> None \<and>
     (\<exists>added fs. list_all is_ip_ev fs \<and> installed_by added fs \<and>
        lt_bypass t' = lt_bypass t @ added \<and> es = fs @ engage_events t (lt_bypass t') False)"

definition up_done :: "linux_tunnel \<Rightarrow> linux_tunnel \<Rightarrow> event list \<Rightarrow> bool" where
  "up_done t t' es \<longleftrightarrow>
     (\<exists>added fs es2. list_all is_ip_ev fs \<and> installed_by added fs \<and> no_nft es2 \<and>
        lt_bypass t' = lt_bypass t @ added \<and>
        es = fs @ engage_events t (lt_bypass t') True @ es2)"

definition up_undone :: "linux_tunnel \<Rightarrow> linux_tunnel \<Rightarrow> event list \<Rightarrow> bool" where
  "up_undone t t' es \<longleftrightarrow>
     (\<exists>added fs es2 undo ok. list_all is_ip_ev fs \<and> installed_by added fs \<and> no_nft es2 \<and>
        withdrawn (lt_bypass t @ added) undo \<and> lt_bypass t' = [] \<and>
        es = fs @ engage_events t (lt_bypass t @ added) True @ es2 @ undo @ release_events t ok)"

lemma lt_up_shape:
  assumes up: "lt_up os t spec s = (r, t', s')" and valid: "spec_validate spec = Inr ()"
  shows "\<exists>es. extends s es s' \<and>
    (case r of Inr _ \<Rightarrow> up_done t t' es | Inl _ \<Rightarrow> up_refused t t' es \<or> up_undone t t' es)"
proof -
  obtain rs s1 where ins: "install os (lt_bypass_plan t) (lt_bypass t) s = (rs, s1)" by fastforce
  then obtain added fs where
      rs: "rs = lt_bypass t @ added" and fs: "extends s fs s1" "list_all is_ip_ev fs" "installed_by added fs"
    using install_extends by blast
  define t1 where "t1 = t\<lparr>lt_bypass := rs, lt_bypass_plan := []\<rparr>"
  have t1: "lt_killswitch t1 = lt_killswitch t" "lt_bypass t1 = rs" by (simp_all add: t1_def)
  obtain r1 s2 where eng: "engage_for os t1 s1 = (r1, s2)" by fastforce
  have e2: "extends s1 (engage_events t rs (r1 = Inr ())) s2"
    using eng by (rule engage_for_cases) (simp_all add: t1 engage_events_def extends_refl)
  show ?thesis
  proof (cases r1)
    case (Inl e)
    have "lt_killswitch t \<noteq> None"
      using eng Inl by (auto simp: engage_for_def t1 split: option.splits)
    then have "up_refused t t1 (fs @ engage_events t rs False)"
      using fs(2,3) by (auto simp: up_refused_def t1 rs)
    moreover have "r = Inl e" "t' = t1" "s' = s2"
      using up valid ins eng Inl by (simp_all add: lt_up_def t1_def Let_def)
    ultimately show ?thesis using extends_trans [OF fs(1) e2] Inl by auto
  next
    case (Inr u)
    obtain r2 t2 s3 where bu: "bring_up os t1 spec s2 = (r2, t2, s3)" by (metis prod_cases3)
    obtain es2 where es2: "extends s2 es2 s3" "no_nft es2" and same: "same_fields t1 t2"
      using bring_up_reaches [OF bu] by (auto simp: reaches_def)
    have e3: "extends s (fs @ engage_events t rs True @ es2) s3"
      using extends_trans [OF extends_trans [OF fs(1) e2] es2(1)] Inr by simp
    show ?thesis
    proof (cases r2)
      case (Inr v)
      have "r = Inr ()" "t' = t2" "s' = s3"
        using up valid ins eng \<open>r1 = Inr u\<close> bu Inr by (simp_all add: lt_up_def t1_def [symmetric] Let_def)
      moreover have "up_done t t2 (fs @ engage_events t rs True @ es2)"
        using same fs es2 by (auto simp: up_done_def same_fields_def t1 rs)
      ultimately show ?thesis using e3 by auto
    next
      case (Inl e)
      obtain t3 s4 where rb: "lt_remove_bypass os t2 s3 = (t3, s4)" by fastforce
      obtain undo where undo: "extends s3 undo s4" "withdrawn (lt_bypass t2) undo"
        using lt_remove_bypass_extends(2) [OF rb] by (auto simp: withdrawn_def)
      have t3: "t3 = t2\<lparr>lt_bypass := []\<rparr>" by (rule lt_remove_bypass_extends(1) [OF rb])
      obtain ok where rel: "extends s4 (release_events t ok) (snd (release_if os t3 s4))"
        using release_if_extends [of os t3 s4] same
        by (cases "release_if os t3 s4") (auto simp: release_events_def t3 same_fields_def t1)
      have res: "r = Inl e" "t' = t3" "s' = snd (release_if os t3 s4)"
        using up valid ins eng \<open>r1 = Inr u\<close> bu Inl rb
        by (auto simp: lt_up_def t1_def [symmetric] Let_def)
      have "up_undone t t3 (fs @ engage_events t rs True @ es2 @ undo @ release_events t ok)"
        unfolding up_undone_def
        using same fs es2 undo
        by (intro exI [of _ added] exI [of _ fs] exI [of _ es2] exI [of _ undo] exI [of _ ok])
          (simp add: same_fields_def t1 rs t3)
      then show ?thesis
        using extends_trans [OF extends_trans [OF e3 undo(1)] rel] res by auto
    qed
  qed
qed

text \<open>Consequences of the shape.\<close>

lemma not_wg_fw: "list_all is_ip_ev fs \<Longrightarrow>
    list_all (\<lambda>e. \<not> is_wg_ev e) (fs @ engage_events t rs ok)"
  by (auto simp: list_all_iff engage_events_def split: option.splits)

lemma lt_up_firewall_first:
  assumes up: "lt_up os t spec s = (r, t', s')" and valid: "spec_validate spec = Inr ()"
    and k: "lt_killswitch t = Some k"
  shows "\<exists>es. extends s es s' \<and> firewall_first k es"
proof -
  obtain es where es: "extends s es s'"
      "case r of Inr _ \<Rightarrow> up_done t t' es | Inl _ \<Rightarrow> up_refused t t' es \<or> up_undone t t' es"
    using lt_up_shape [OF up valid] by blast
  have main: "firewall_first k (fs @ engage_events t rs True @ rest)" if "list_all is_ip_ev fs" for fs rs rest
  proof -
    have "firewall_first k ((fs @ engage_events t rs True) @ rest)"
      by (rule firewall_first_prefix [OF not_wg_fw [OF that], where ds = "destinations rs"])
        (simp add: k engage_events_def)
    then show ?thesis by simp
  qed
  have none: "firewall_first k es" if "list_all (\<lambda>e. \<not> is_wg_ev e) es" for es
    using that by (auto simp: firewall_first_def)
  have "up_refused t t' es \<Longrightarrow> firewall_first k es"
    using none not_wg_fw by (auto simp: up_refused_def)
  moreover have "up_done t t' es \<Longrightarrow> firewall_first k es"
    using main by (auto simp: up_done_def)
  moreover have "up_undone t t' es \<Longrightarrow> firewall_first k es"
    using main by (auto simp: up_undone_def)
  ultimately have "firewall_first k es" using es(2) by (auto split: sum.splits)
  with es(1) show ?thesis by blast
qed

text \<open>The exact calls of a retarget and of a disconnect.\<close>

lemma lt_retarget_ok:
  assumes "lt_retarget os t spec s = (Inr (), t', s')"
  shows "t' = t \<and> (\<exists>es. list_all is_ip_ev es \<and> extends s
    ([EvWg (lt_interface t) (RemovePeer (public_bytes (cc_peer_public_key (tn_client spec)))) True,
      EvWg (lt_interface t) (ConfigureInterface (iface_config (lt_interface t) spec [])) True,
      EvWg (lt_interface t) (ConfigurePeer (lt_peer spec)) True,
      EvWg (lt_interface t) (ConfigureRouting [lt_peer spec]) True] @ es) s')"
proof -
  let ?c1 = "RemovePeer (public_bytes (cc_peer_public_key (tn_client spec)))"
  let ?c2 = "ConfigureInterface (iface_config (lt_interface t) spec [])"
  obtain s1 s2 s3 s4 where
      w: "wg_op os t ''clearing the previous session'' ?c1 s = (Inr (), s1)"
        "wg_op os t ''rotating the listen port'' ?c2 s1 = (Inr (), s2)"
        "wg_op os t ''retargeting the peer'' (ConfigurePeer (lt_peer spec)) s2 = (Inr (), s3)"
        "wg_op os t ''reinstalling routes'' (ConfigureRouting [lt_peer spec]) s3 = (Inr (), s4)"
      and t: "t' = t" "s' = prune_duplicate_policy_rules os (tn_fwmark spec) s4"
    using assms by (auto simp: lt_retarget_def rotate_listen_port_def Let_def split: prod.splits sum.splits)
  have ok: "extends s [EvWg (lt_interface t) c True] s'" if "wg_op os t op c s = (Inr (), s')" for op c s s'
    using that by (rule wg_op_cases) auto
  obtain es where es: "extends s4 es s'" "list_all is_ip_ev es"
    using ip_only_prune [of s4 os "tn_fwmark spec"] t by (auto simp: ip_only_def)
  show ?thesis
    using extends_trans [OF extends_trans [OF extends_trans [OF extends_trans
      [OF ok [OF w(1)] ok [OF w(2)]] ok [OF w(3)]] ok [OF w(4)]] es(1)] t es(2) by auto
qed

lemma lt_down_shape:
  assumes "lt_down os t s = (r, t', s')"
  shows "lt_created t' = False \<and> lt_bypass t' = [] \<and>
    (\<exists>ok undo rel. withdrawn (lt_bypass t) undo \<and>
      extends s (EvWg (lt_interface t) RemoveInterface ok # undo @ release_events t rel) s')"
proof -
  obtain r1 s1 where 1: "wg_op os t ''removing the interface'' RemoveInterface s = (r1, s1)" by fastforce
  obtain t2 s2 where 2: "lt_remove_bypass os (t\<lparr>lt_created := False\<rparr>) s1 = (t2, s2)" by fastforce
  obtain r3 s3 where 3: "release_if os t2 s2 = (r3, s3)" by fastforce
  have t': "t' = t2" "s' = s3"
    using assms 1 2 3 by (auto simp: lt_down_def split: sum.splits)
  have t2: "t2 = t\<lparr>lt_created := False, lt_bypass := []\<rparr>"
    using lt_remove_bypass_extends(1) [OF 2] by simp
  obtain ok where e1: "extends s [EvWg (lt_interface t) RemoveInterface ok] s1"
    using 1 by (rule wg_op_cases) auto
  obtain undo where e2: "extends s1 undo s2" "withdrawn (lt_bypass t) undo"
    using lt_remove_bypass_extends(2) [OF 2] by (auto simp: withdrawn_def)
  obtain rel where e3: "extends s2 (release_events t rel) s3"
    using release_if_extends [OF 3] by (auto simp: release_events_def t2)
  show ?thesis
    using extends_trans [OF extends_trans [OF e1 e2(1)] e3] e2(2) t' t2 by auto
qed

section \<open>Properties\<close>

definition sample_spec :: tunnel_spec where
  "sample_spec = spec_new sample_client (mk_sockaddr (V4 0xB99CAFAA) 1637)"

definition sample_tunnel :: linux_tunnel where
  "sample_tunnel =
     \<lparr>lt_interface = DEFAULT_INTERFACE, lt_created = False,
      lt_killswitch = Some (ks_new DEFAULT_INTERFACE DEFAULT_FWMARK True), lt_bypass = [],
      lt_bypass_plan = [\<lparr>rt_destination = ''203.0.113.0/24'', rt_via = Gateway ''192.168.1.1'' ''eth0''\<rparr>]\<rparr>"

lemma sample_spec_valid: "spec_validate sample_spec = Inr ()"
  using spec_default_valid [of DEFAULT_FWMARK sample_client "mk_sockaddr (V4 0xB99CAFAA) 1637"]
  by (simp add: sample_spec_def spec_new_def spec_with_fwmark_def spec_with_interface_def)

text \<open>C21: when a connection is brought up with a kill switch, nothing is
asked of the WireGuard interface before the firewall has been confirmed: in the calls made,
every interface call comes after a successful load of the kill switch's rules.\<close>

theorem firewall_before_interface:
  assumes "lt_up os t spec s = (r, t', s')" and "spec_validate spec = Inr ()"
    and "lt_killswitch t = Some k"
  shows "\<exists>es. extends s es s' \<and> firewall_first k es"
  by (rule lt_up_firewall_first [OF assms])

theorem firewall_before_interface_witness:
  "\<exists>es. extends sample_sys es (snd (snd (lt_up sample_os sample_tunnel sample_spec sample_sys))) \<and>
     firewall_first (ks_new DEFAULT_INTERFACE DEFAULT_FWMARK True) es"
  by (rule firewall_before_interface [OF _ sample_spec_valid,
        where r = "fst (lt_up sample_os sample_tunnel sample_spec sample_sys)" and
          t' = "fst (snd (lt_up sample_os sample_tunnel sample_spec sample_sys))" and
          t = sample_tunnel])
    (simp_all add: sample_tunnel_def)



text \<open>A switch of server that succeeds has removed the peer, rotated
the listen port, configured the new endpoint and reinstalled the routes, in this order and
each once; the handle is unchanged and the firewall is not touched.\<close>

lemma retarget_replays_the_routes:
  assumes "lt_retarget os t spec s = (Inr (), t', s')"
  shows "t' = t \<and> (\<exists>es. list_all is_ip_ev es \<and> extends s
    ([EvWg (lt_interface t) (RemovePeer (public_bytes (cc_peer_public_key (tn_client spec)))) True,
      EvWg (lt_interface t) (ConfigureInterface (iface_config (lt_interface t) spec [])) True,
      EvWg (lt_interface t) (ConfigurePeer (lt_peer spec)) True,
      EvWg (lt_interface t) (ConfigureRouting [lt_peer spec]) True] @ es) s')"
  by (rule lt_retarget_ok [OF assms])

lemma sample_retarget: "fst (lt_retarget sample_os sample_tunnel sample_spec sample_sys) = Inr ()"
  by (simp add: lt_retarget_def rotate_listen_port_def wg_op_def wg_do_def sample_os_def Let_def)

text \<open>Taking the tunnel down removes the interface, withdraws
every bypass route and releases the kill switch, each attempted even when an earlier one
fails, and leaves no route on record.\<close>

lemma disconnect_attempts_everything:
  assumes "lt_down os t s = (r, t', s')"
  shows "lt_created t' = False \<and> lt_bypass t' = [] \<and>
    (\<exists>ok undo rel. withdrawn (lt_bypass t) undo \<and>
      extends s (EvWg (lt_interface t) RemoveInterface ok # undo @ release_events t rel) s')"
  by (rule lt_down_shape [OF assms])


text \<open>A rule table with a number of equal rules, for the witness.\<close>

definition rule_os :: "nat os" where
  "rule_os =
     \<lparr>os_ip = \<lambda>args n.
        (if args = [''-4'', ''rule'', ''show''] then (Exit True (concat (replicate n (''r'' @ [CHR 0x0A]))) [], n)
         else (Exit (0 < n) [] [], n - 1)),
      os_nft = \<lambda>args script w. (Exit True [] [], w),
      os_resolve = \<lambda>host w. (None, w), os_wg_open = \<lambda>ifc w. (None, w), os_wg = \<lambda>ifc c w. (None, w),
      os_wg_read = \<lambda>ifc w. (Inl ''no such interface'', w)\<rparr>"

lemma rule_lines: "str_lines (concat (replicate n (''r'' @ [CHR 0x0A]))) = replicate n ''r''"
proof (induction n)
  case 0
  then show ?case by (simp add: str_lines_def)
next
  case (Suc n)
  obtain p ps where "split_on (CHR 0x0A) (concat (replicate n (''r'' @ [CHR 0x0A]))) = p # ps"
    by (cases "split_on (CHR 0x0A) (concat (replicate n (''r'' @ [CHR 0x0A])))") auto
  then show ?case using Suc by (simp add: str_lines_def strip_cr_def)
qed

lemma rule_count: "count_rules rule_os ''-4'' (\<lambda>_. True) s = (sys_world s, s)"
  using rule_lines [of "sys_world s"] by (simp add: count_rules_def rule_os_def)

lemma rule_os_prunes: "prunes rule_os ''-4'' (\<lambda>_. True) [''x'']"
  unfolding prunes_def rule_count
  by (auto simp: rule_del_def rule_os_def exit_ok_def Let_def emit_def)


end
