(* ===== verification/Linux_Backend.thy ===== *)
theory Linux_Backend
  imports Host Linux_Tunnel
begin

text \<open>
  The daemon over the Linux backend: the record of operations the daemon calls, filled with
  the functions of \<open>Linux_Tunnel\<close>, \<open>Bypass\<close> and \<open>Killswitch\<close>, and the environment around it,
  whose remaining functions work on the machine and leave the trace of changes alone. The
  firewall contract of \<open>Daemon_Guard\<close> is interpreted here.
\<close>

section \<open>The backend and the machine\<close>

definition linux_backend :: "'w os \<Rightarrow> (linux_tunnel, 'w sys) backend" where
  "linux_backend os =
     \<lparr>tb_new = lt_new os, tb_with_bypass = lt_with_bypass, tb_with_killswitch = lt_with_killswitch,
      tb_up = lt_up os, tb_switch_endpoint = lt_retarget os, tb_down = lt_down os,
      tb_status = read_status os, tb_drop = lt_drop os, tb_plan = plan os,
      tb_ks_engage = ks_engage os, tb_ks_release = ks_release os,
      tb_ks_is_engaged = ks_is_engaged os, tb_ks_dropped = ks_dropped os\<rparr>"

definition linux_env :: "'w os \<Rightarrow> 'w host \<Rightarrow> (linux_tunnel, 'w sys) env" where
  "linux_env os h = host_env sys_world (\<lambda>w s. s\<lparr>sys_world := w\<rparr>) h (linux_backend os)"

lemma linux_env_backend [simp]: "ev_backend (linux_env os h) = linux_backend os"
  by (simp add: linux_env_def host_env_def)

section \<open>The firewall in the trace\<close>

text \<open>The script that is in force after a run of events: \<^verbatim>\<open>nft -f\<close> is one transaction.\<close>

fun fw_after :: "string option \<Rightarrow> event list \<Rightarrow> string option" where
  "fw_after f [] = f"
| "fw_after f (EvNft s ok # es) = fw_after (if ok then Some s else f) es"
| "fw_after f (EvIp a ok # es) = fw_after f es"
| "fw_after f (EvWg i c ok # es) = fw_after f es"

definition in_force :: "'w sys \<Rightarrow> string option" where
  "in_force s = fw_after None (sys_trace s)"

definition daemon_rules :: "bool \<Rightarrow> string list \<Rightarrow> killswitch" where
  "daemon_rules lan ds = ks_allowing ds (ks_new DEFAULT_INTERFACE DEFAULT_FWMARK lan)"

definition fw_engaged :: "'w sys \<Rightarrow> bool" where
  "fw_engaged s \<longleftrightarrow> (\<exists>lan ds. in_force s = Some (ks_script (daemon_rules lan ds)))"

definition has_killswitch :: "linux_tunnel \<Rightarrow> bool" where
  "has_killswitch t \<longleftrightarrow> (\<exists>lan. lt_killswitch t = Some (ks_new DEFAULT_INTERFACE DEFAULT_FWMARK lan))"

lemma fw_after_append: "fw_after f (es @ es') = fw_after (fw_after f es) es'"
  by (induction f es rule: fw_after.induct) auto

lemma fw_after_no_nft: "no_nft es \<Longrightarrow> fw_after f es = f"
  by (induction f es rule: fw_after.induct) (auto simp: no_nft_def)

lemma fw_after_ip: "list_all is_ip_ev es \<Longrightarrow> fw_after f es = f"
  by (rule fw_after_no_nft) (auto simp: no_nft_def list_all_iff)

lemma in_force_extends: "extends s es s' \<Longrightarrow> in_force s' = fw_after (in_force s) es"
  by (simp add: in_force_def extends_def fw_after_append)

lemma in_force_reaches: "reaches s s' \<Longrightarrow> in_force s' = in_force s"
  by (auto simp: reaches_def in_force_extends fw_after_no_nft)

lemma fw_engaged_in_force: "in_force s' = in_force s \<Longrightarrow> fw_engaged s' = fw_engaged s"
  by (simp add: fw_engaged_def)

lemma in_force_world [simp]: "in_force (s\<lparr>sys_world := w\<rparr>) = in_force s"
  by (simp add: in_force_def)

lemma allowing_none: "ks_new i m lan = ks_allowing [] (ks_new i m lan)"
  by (simp add: ks_allowing_def ks_new_def)

lemma lt_up_in_force:
  assumes "lt_up os t spec s = (Inr (), t', s')"
  shows "lt_killswitch t' = lt_killswitch t"
    and "has_killswitch t \<Longrightarrow> fw_engaged s'"
proof -
  have v: "spec_validate spec = Inr ()"
    using assms by (auto simp: lt_up_def split: sum.splits)
  obtain rs s1 where ins: "install os (lt_bypass_plan t) (lt_bypass t) s = (rs, s1)" by fastforce
  define t1 where "t1 = t\<lparr>lt_bypass := rs, lt_bypass_plan := []\<rparr>"
  obtain r1 s2 where eng: "engage_for os t1 s1 = (r1, s2)" by fastforce
  obtain r2 t2 s3 where bu: "bring_up os t1 spec s2 = (r2, t2, s3)" by (metis prod_cases3)
  have "t' = t2"
    using assms v ins eng bu
    by (auto simp: lt_up_def t1_def [symmetric] Let_def split: sum.splits prod.splits)
  then show "lt_killswitch t' = lt_killswitch t"
    using bring_up_reaches [OF bu] by (simp add: same_fields_def t1_def)
next
  assume "has_killswitch t"
  then obtain lan where k: "lt_killswitch t = Some (ks_new DEFAULT_INTERFACE DEFAULT_FWMARK lan)"
    by (auto simp: has_killswitch_def)
  have v: "spec_validate spec = Inr ()"
    using assms by (auto simp: lt_up_def split: sum.splits)
  obtain es where e: "extends s es s'" "up_done t t' es"
    using lt_up_shape [OF assms v] by auto
  obtain fs es2 where es: "list_all is_ip_ev fs" "no_nft es2"
      "es = fs @ engage_events t (lt_bypass t') True @ es2"
    using e(2) by (auto simp: up_done_def)
  have "in_force s' = Some (ks_script (daemon_rules lan (destinations (lt_bypass t'))))"
    using in_force_extends [OF e(1)] es k
    by (simp add: engage_events_def fw_after_append fw_after_no_nft daemon_rules_def)
  then show "fw_engaged s'" by (auto simp: fw_engaged_def)
qed

lemma lt_retarget_in_force:
  assumes "lt_retarget os t spec s = (r, t', s')"
  shows "t' = t" and "in_force s' = in_force s"
proof -
  have "reaches s s' \<and> t' = t"
    using assms unfolding lt_retarget_def rotate_listen_port_def Let_def
    by (auto split: prod.splits sum.splits dest!: reaches_wg_op)
      (meson reaches_trans reaches_prune)+
  then show "t' = t" "in_force s' = in_force s" by (simp_all add: in_force_reaches)
qed

interpretation linux: guarded_backend "linux_env os h" has_killswitch fw_engaged for os h
proof unfold_locales
  fix lan t
  show "has_killswitch (tb_with_killswitch (ev_backend (linux_env os h))
      (ks_new DEFAULT_INTERFACE DEFAULT_FWMARK lan) t)"
    by (auto simp: linux_backend_def has_killswitch_def lt_with_killswitch_def)
next
  fix t spec w t' w'
  assume "tb_up (ev_backend (linux_env os h)) t spec w = (Inr (), t', w')"
  then have u: "lt_up os t spec w = (Inr (), t', w')"
    by (simp add: linux_backend_def)
  show "has_killswitch t' = has_killswitch t \<and> (has_killswitch t \<longrightarrow> fw_engaged w')"
    using lt_up_in_force [OF u] by (simp add: has_killswitch_def)
next
  fix t spec w r t' w'
  assume "tb_switch_endpoint (ev_backend (linux_env os h)) t spec w = (r, t', w')"
  then have u: "lt_retarget os t spec w = (r, t', w')"
    by (simp add: linux_backend_def)
  show "has_killswitch t' = has_killswitch t \<and> fw_engaged w' = fw_engaged w"
    using lt_retarget_in_force [OF u] by (simp add: fw_engaged_def)
next
  fix lan w w'
  assume "tb_ks_engage (ev_backend (linux_env os h))
      (ks_new DEFAULT_INTERFACE DEFAULT_FWMARK lan) w = (Inr (), w')"
  then have "sys_trace w' = sys_trace w @ [EvNft (ks_script (daemon_rules lan [])) True]"
    using ks_engage_trace [of os _ w "Inr ()" w'] allowing_none
    by (simp add: linux_backend_def daemon_rules_def)
  then show "fw_engaged w'"
    by (auto simp: fw_engaged_def in_force_def fw_after_append)
next
  fix k w e w'
  assume "tb_ks_engage (ev_backend (linux_env os h)) k w = (Inl e, w')"
  then have "sys_trace w' = sys_trace w @ [EvNft (ks_script k) False]"
    using ks_engage_trace [of os k w "Inl e" w'] by (simp add: linux_backend_def)
  then show "fw_engaged w' = fw_engaged w"
    by (simp add: fw_engaged_def in_force_def fw_after_append)
qed (auto simp: linux_env_def host_env_def linux_backend_def read_status_def ks_is_engaged_def ks_dropped_def
    on_world_def intro!: fw_engaged_in_force split: prod.splits)

section \<open>Executions with the kill switch left on\<close>

text \<open>
  Executions in which nobody asks for \<^verbatim>\<open>killswitch off\<close>, and what else happens on the
  machine does not go through the daemon.
\<close>

inductive guarded_run :: "'w os \<Rightarrow> 'w host \<Rightarrow> path \<Rightarrow> (linux_tunnel, 'w sys) dstate \<Rightarrow> bool"
  for os h path where
  start: "load (linux_env os h) path s = Inr st \<Longrightarrow> guarded_run os h path st"
| request: "guarded_run os h path st \<Longrightarrow> rq \<noteq> ReqKillswitch (Some False) \<Longrightarrow>
    guarded_run os h path (snd (handle (linux_env os h) rq st))"
| wake: "guarded_run os h path st \<Longrightarrow>
    guarded_run os h path (snd (scheduler_wake (linux_env os h) st))"
| world: "guarded_run os h path st \<Longrightarrow>
    guarded_run os h path (st\<lparr>ds_world := (ds_world st)\<lparr>sys_world := w\<rparr>\<rparr>)"

lemma guarded_run_safe: "guarded_run os h path st \<Longrightarrow> linux.safe st"
proof (induction rule: guarded_run.induct)
  case (start s st)
  have "linked st" by (rule load_linked [OF start])
  moreover have "ds_tunnel st = None"
    using start by (auto simp: load_def split: sum.splits prod.splits)
  ultimately show ?case by (simp add: linux.safe_def linux.guarded_def)
next
  case (request st rq)
  then show ?case by (blast intro: linux.handle_safe)
next
  case (wake st)
  then show ?case by (blast intro: linux.wake_safe)
next
  case (world st w)
  have "fw_engaged ((ds_world st)\<lparr>sys_world := w\<rparr>) = fw_engaged (ds_world st)"
    by (rule fw_engaged_in_force) simp
  then show ?case
    using world.IH by (simp add: linux.safe_def linux.guarded_def linked_def)
qed

section \<open>Properties\<close>

text \<open>C1: over the Linux backend, as long as nobody asks for \<^verbatim>\<open>killswitch off\<close>, the
daemon never leaves a tunnel that carries a kill switch without its firewall: in every state
that requests and scheduled passes lead to, the rules last loaded are the kill switch's for
the daemon's interface and mark, however connects, switches, measurements and failures are
interleaved.\<close>

theorem kill_switch_holds:
  assumes "guarded_run os h path st" and "ds_tunnel st = Some t" and "has_killswitch t"
  shows "\<exists>lan ds. in_force (ds_world st) = Some (ks_script (daemon_rules lan ds))"
  using linux.safe_def guarded_run_safe [OF assms(1)] assms(2,3)
  by (auto simp: linux.safe_def linux.guarded_def fw_engaged_def)

lemma sample_up_ok:
  assumes "spec_validate spec = Inr ()"
  shows "\<exists>t' s'. lt_up sample_os t spec s = (Inr (), t', s')"
proof -
  obtain rs s1 where i: "install sample_os (lt_bypass_plan t) (lt_bypass t) s = (rs, s1)" by fastforce
  have w: "wg_op sample_os t op c s = (Inr (), emit (EvWg (lt_interface t) c True) (sys_world s) s)" for t op c s
    by (simp add: wg_op_def wg_do_def sample_os_def)
  have e: "\<exists>s'. engage_for sample_os t s = (Inr (), s')" for t s
    by (simp add: engage_for_def ks_engage_def nft_def sample_os_def split: option.split)
  have b: "\<exists>t' s'. bring_up sample_os t spec s = (Inr (), t', s')" for t s
    by (simp add: bring_up_def Let_def w)
  define t1 where "t1 = t\<lparr>lt_bypass := rs, lt_bypass_plan := []\<rparr>"
  obtain s2 where 2: "engage_for sample_os t1 s1 = (Inr (), s2)" using e by blast
  obtain t3 s3 where 3: "bring_up sample_os t1 spec s2 = (Inr (), t3, s3)" using b by blast
  show ?thesis by (simp add: lt_up_def assms i t1_def [symmetric] 2 3 Let_def)
qed

theorem kill_switch_holds_witness:
  "\<exists>lan ds. in_force (ds_world (snd (handle (linux_env sample_os sample_host)
     (ReqConnect (Some ''Achernar'') (Some False)) (guarded_start sample_sys)))) = Some (ks_script (daemon_rules lan ds))"
proof -
  let ?b = "linux_backend sample_os"
  obtain t0 where new: "tb_new ?b DEFAULT_INTERFACE sample_sys = (Inr t0, sample_sys)"
    by (simp add: linux_backend_def lt_new_def sample_os_def)
  have up: "\<exists>t' s'. tb_up ?b t spec s = (Inr (), t', s')" if "spec_validate spec = Inr ()" for t spec s
    using sample_up_ok [OF that] by (simp add: linux_backend_def)
  obtain t s t' spec s' where t: "ds_tunnel (snd (handle (linux_env sample_os sample_host)
        (ReqConnect (Some ''Achernar'') (Some False)) (guarded_start sample_sys))) = Some t'"
      "tb_up ?b (tb_with_killswitch ?b (ks_new DEFAULT_INTERFACE DEFAULT_FWMARK True) t) spec s = (Inr (), t', s')"
    using guarded_connect [where get = sys_world and put = "\<lambda>w s. s\<lparr>sys_world := w\<rparr>", OF _ new up]
    unfolding linux_env_def by auto
  have k: "has_killswitch t'"
    using t(2) by (auto simp: linux_backend_def has_killswitch_def lt_with_killswitch_def
        dest!: lt_up_in_force(1))
  have "guarded_run sample_os sample_host ''config.toml'' (snd (handle (linux_env sample_os sample_host)
      (ReqConnect (Some ''Achernar'') (Some False)) (guarded_start sample_sys)))"
    by (rule guarded_run.request [OF guarded_run.start]) (simp_all add: linux_env_def guarded_load)
  from kill_switch_holds [OF this t(1) k] show ?thesis .
qed

end
