(* ===== verification/Win_Sys.thy ===== *)
theory Win_Sys
  imports Bypass
begin

text \<open>
  Windows as the tunnel backend uses it: programs it runs (\<^verbatim>\<open>wireguard.exe\<close>, \<^verbatim>\<open>wg.exe\<close>,
  \<^verbatim>\<open>icacls\<close>, \<^verbatim>\<open>netsh\<close>, \<^verbatim>\<open>powershell\<close>), a few file operations and name resolution, all
  parameters over a world \<open>'w\<close>. As on Linux the calls that change the machine are traced.
  The second half is the Windows part of \<^verbatim>\<open>vpnmgr-tunnel/src/bypass.rs\<close>.
\<close>

section \<open>The system\<close>

datatype win_out =
    WSpawn string \<comment> \<open>the program could not be run\<close>
  | WExit bool "int option" string string \<comment> \<open>success, exit code, standard output, standard error\<close>

record 'w win =
  wn_program_data :: "string option" \<comment> \<open>the environment variable\<close>
  wn_run :: "string \<Rightarrow> string list \<Rightarrow> 'w \<Rightarrow> win_out \<times> 'w"
  wn_resolve :: "string \<Rightarrow> 'w \<Rightarrow> ipaddr list option \<times> 'w"
  wn_exists :: "string \<Rightarrow> 'w \<Rightarrow> bool"
  wn_mkdir :: "string \<Rightarrow> 'w \<Rightarrow> string option \<times> 'w" \<comment> \<open>the error, if any\<close>
  wn_write :: "string \<Rightarrow> string \<Rightarrow> 'w \<Rightarrow> string option \<times> 'w"
  wn_unlink :: "string \<Rightarrow> 'w \<Rightarrow> string option \<times> 'w"
  wn_b64 :: base64 \<comment> \<open>the base64 engine\<close>

datatype wevent =
    WvRun string "string list" bool
  | WvMkdir string bool
  | WvWrite string string bool \<comment> \<open>path, contents\<close>
  | WvUnlink string bool

record 'w wsys =
  ws_world :: 'w
  ws_trace :: "wevent list"

definition wemit :: "wevent \<Rightarrow> 'w \<Rightarrow> 'w wsys \<Rightarrow> 'w wsys" where
  "wemit e w s = s\<lparr>ws_world := w, ws_trace := ws_trace s @ [e]\<rparr>"

definition wexit_ok :: "win_out \<Rightarrow> bool" where
  "wexit_ok r = (case r of WSpawn _ \<Rightarrow> False | WExit ok _ _ _ \<Rightarrow> ok)"

text \<open>A query, and a command that changes the machine.\<close>

definition wquery :: "'w win \<Rightarrow> string \<Rightarrow> string list \<Rightarrow> 'w wsys \<Rightarrow> win_out \<times> 'w wsys" where
  "wquery os prog args s =
     (case wn_run os prog args (ws_world s) of (r, w) \<Rightarrow> (r, s\<lparr>ws_world := w\<rparr>))"

definition wcommand :: "'w win \<Rightarrow> string \<Rightarrow> string list \<Rightarrow> 'w wsys \<Rightarrow> win_out \<times> 'w wsys" where
  "wcommand os prog args s =
     (case wn_run os prog args (ws_world s) of
        (r, w) \<Rightarrow> (r, wemit (WvRun prog args (wexit_ok r)) w s))"

text \<open>The file operations; the answer is the error, if any.\<close>

definition wmkdir :: "'w win \<Rightarrow> string \<Rightarrow> 'w wsys \<Rightarrow> string option \<times> 'w wsys" where
  "wmkdir os path s =
     (case wn_mkdir os path (ws_world s) of (r, w) \<Rightarrow> (r, wemit (WvMkdir path (r = None)) w s))"

definition wwrite :: "'w win \<Rightarrow> string \<Rightarrow> string \<Rightarrow> 'w wsys \<Rightarrow> string option \<times> 'w wsys" where
  "wwrite os path contents s =
     (case wn_write os path contents (ws_world s) of
        (r, w) \<Rightarrow> (r, wemit (WvWrite path contents (r = None)) w s))"

definition wunlink :: "'w win \<Rightarrow> string \<Rightarrow> 'w wsys \<Rightarrow> string option \<times> 'w wsys" where
  "wunlink os path s =
     (case wn_unlink os path (ws_world s) of (r, w) \<Rightarrow> (r, wemit (WvUnlink path (r = None)) w s))"

definition show_int :: "int \<Rightarrow> string" where
  "show_int n = (if n < 0 then ''-'' @ show_nat (nat (- n)) else show_nat (nat n))"

definition ps_args :: "string \<Rightarrow> string list" where
  "ps_args script = [''-NoProfile'', ''-NonInteractive'', ''-Command'', script]"

text \<open>Characters that string literals do not take.\<close>

definition sq :: string where "sq = [CHR 0x27]"
definition dq :: string where "dq = [CHR 0x22]"
definition tab :: string where "tab = [CHR 0x09]"
definition backslash :: string where "backslash = [CHR 0x5C]"
definition backtick :: string where "backtick = [CHR 0x60]"

definition squoted :: "string \<Rightarrow> string" where
  "squoted s = sq @ s @ sq"

text \<open>\<^verbatim>\<open>Path::join\<close> on Windows, for a relative second part.\<close>

definition win_join :: "string \<Rightarrow> string \<Rightarrow> string" where
  "win_join a b =
     (if a = [] \<or> last a \<in> {CHR 0x5C, CHR ''/''} \<or> (length a = 2 \<and> a ! 1 = CHR '':'')
      then a @ b else a @ backslash @ b)"

definition data_dir :: "'w win \<Rightarrow> string" where
  "data_dir os =
     (case wn_program_data os of Some d \<Rightarrow> d | None \<Rightarrow> ''C:'' @ backslash @ ''ProgramData'')"

section \<open>Bypass routes on Windows\<close>

definition VPN_ALIASES :: "string list" where
  "VPN_ALIASES = [''tailscale'', ''wireguard'', ''wintun'', ''openvpn'', ''tap-'', ''zerotier'']"

definition win_ps :: "'w win \<Rightarrow> string \<Rightarrow> 'w wsys \<Rightarrow> string option \<times> 'w wsys" where
  "win_ps os script s =
     (case wquery os ''powershell'' (ps_args script) s of
        (r, s1) \<Rightarrow>
          ((case r of WExit ok _ out _ \<Rightarrow> if ok then Some out else None | WSpawn _ \<Rightarrow> None), s1))"

definition gateway_script :: "string \<Rightarrow> string" where
  "gateway_script family =
     ''Get-NetRoute -DestinationPrefix '' @ squoted family @ '' -ErrorAction SilentlyContinue | '' @
     ''Where-Object { $_.NextHop -ne '' @ squoted ''0.0.0.0'' @ '' -and $_.NextHop -ne '' @
     squoted ''::'' @ '' } | Sort-Object RouteMetric | Select-Object -First 1 | ForEach-Object { '' @
     dq @ ''$($_.NextHop)'' @ backtick @ ''t$($_.ifIndex)'' @ dq @ '' }''"

text \<open>The first line of the answer, as a gateway and an interface index.\<close>

definition gateway_of :: "bool \<Rightarrow> string \<Rightarrow> (string \<times> string \<times> bool) list" where
  "gateway_of v6 txt =
     (case str_lines txt of
        [] \<Rightarrow> []
      | line # _ \<Rightarrow>
     (case split_on (CHR 0x09) line of
        g # i # _ \<Rightarrow>
          (let gateway = trim g; index = trim i in
           if gateway \<noteq> [] \<and> index \<noteq> [] then [(gateway, index, v6)] else [])
      | _ \<Rightarrow> []))"

definition win_gateways :: "'w win \<Rightarrow> 'w wsys \<Rightarrow> (string \<times> string \<times> bool) list \<times> 'w wsys" where
  "win_gateways os s0 =
     (case win_ps os (gateway_script ''0.0.0.0/0'') s0 of
        (t4, s1) \<Rightarrow>
     (case win_ps os (gateway_script ''::/0'') s1 of
        (t6, s2) \<Rightarrow>
          ((case t4 of None \<Rightarrow> [] | Some t \<Rightarrow> gateway_of False t) @
           (case t6 of None \<Rightarrow> [] | Some t \<Rightarrow> gateway_of True t), s2)))"

definition routes_script :: string where
  "routes_script =
     ''Get-NetRoute -ErrorAction SilentlyContinue | ForEach-Object { '' @ dq @
     ''$($_.DestinationPrefix)'' @ backtick @ ''t$($_.ifIndex)'' @ backtick @ ''t$($_.InterfaceAlias)'' @
     dq @ '' }''"

definition win_vpn_line :: "string \<Rightarrow> string \<Rightarrow> string set \<times> route list \<Rightarrow> string set \<times> route list" where
  "win_vpn_line our_interface line acc =
     (case acc of (seen, out) \<Rightarrow>
      (case map trim (split_on (CHR 0x09) line) of
         destination # index # alias # _ \<Rightarrow>
           (let lower = to_ascii_lowercase alias in
            if destination = ''0.0.0.0/0'' \<or> destination = ''::/0'' then acc
            else if list_ex (starts_with destination) NEVER_MIRROR then acc
            else if str_contains lower (to_ascii_lowercase our_interface) then acc
            else if \<not> list_ex (str_contains lower) VPN_ALIASES then acc
            else if destination \<in> seen then acc
            else (insert destination seen,
                  out @ [\<lparr>rt_destination = destination, rt_via = Device index\<rparr>]))
       | _ \<Rightarrow> acc))"

definition win_other_vpns :: "'w win \<Rightarrow> string \<Rightarrow> 'w wsys \<Rightarrow> route list \<times> 'w wsys" where
  "win_other_vpns os our_interface s0 =
     (case win_ps os routes_script s0 of
        (None, s1) \<Rightarrow> ([], s1)
      | (Some t, s1) \<Rightarrow> (snd (fold (win_vpn_line our_interface) (str_lines t) ({}, [])), s1))"

definition win_resolve :: "'w win \<Rightarrow> string \<Rightarrow> 'w wsys \<Rightarrow> ipaddr list \<times> 'w wsys" where
  "win_resolve os host s =
     (case wn_resolve os host (ws_world s) of
        (r, w) \<Rightarrow> ((case r of Some as \<Rightarrow> as | None \<Rightarrow> []), s\<lparr>ws_world := w\<rparr>))"

definition exists_script :: "route \<Rightarrow> string" where
  "exists_script r =
     ''Get-NetRoute -DestinationPrefix '' @ squoted (route_prefix r) @
     '' -ErrorAction SilentlyContinue | Select-Object -First 1 | ForEach-Object { '' @
     squoted ''yes'' @ '' }''"

definition win_route_exists :: "'w win \<Rightarrow> route \<Rightarrow> 'w wsys \<Rightarrow> bool \<times> 'w wsys" where
  "win_route_exists os r s =
     (case win_ps os (exists_script r) s of
        (t, s1) \<Rightarrow> ((case t of None \<Rightarrow> False | Some txt \<Rightarrow> trim txt = ''yes''), s1))"

definition route_index :: "route \<Rightarrow> string" where
  "route_index r = (case rt_via r of Device i \<Rightarrow> i | Gateway _ i \<Rightarrow> i)"

definition netsh_args :: "route \<Rightarrow> string \<Rightarrow> string list \<Rightarrow> string list" where
  "netsh_args r verb extra =
     [''interface'', (if route_is_v6 r then ''ipv6'' else ''ipv4''), verb, ''route'',
      ''prefix='' @ route_prefix r, ''interface='' @ route_index r] @ extra"

definition netsh :: "'w win \<Rightarrow> route \<Rightarrow> string \<Rightarrow> string list \<Rightarrow> 'w wsys \<Rightarrow> bool \<times> 'w wsys" where
  "netsh os r verb extra s =
     (case wcommand os ''netsh'' (netsh_args r verb extra) s of (a, s1) \<Rightarrow> (wexit_ok a, s1))"

definition win_add :: "'w win \<Rightarrow> route \<Rightarrow> 'w wsys \<Rightarrow> bool \<times> 'w wsys" where
  "win_add os r =
     netsh os r ''add''
       ((case rt_via r of Gateway g _ \<Rightarrow> [''nexthop='' @ g] | Device _ \<Rightarrow> []) @ [''store=active''])"

definition win_del :: "'w win \<Rightarrow> route \<Rightarrow> 'w wsys \<Rightarrow> bool \<times> 'w wsys" where
  "win_del os r = netsh os r ''delete'' [''store=active'']"

definition win_plan :: "'w win \<Rightarrow> bypass_request \<Rightarrow> 'w wsys \<Rightarrow> route list \<times> 'w wsys" where
  "win_plan os = plan_with (win_other_vpns os) (win_gateways os) (win_resolve os)"

definition win_install :: "'w win \<Rightarrow> route list \<Rightarrow> route list \<Rightarrow> 'w wsys \<Rightarrow> route list \<times> 'w wsys" where
  "win_install os = install_with (win_route_exists os) (win_add os)"

definition win_remove :: "'w win \<Rightarrow> route list \<Rightarrow> 'w wsys \<Rightarrow> route list \<times> 'w wsys" where
  "win_remove os = remove_with (win_del os)"

section \<open>Lemmas\<close>

lemma wemit_sel [simp]:
  "ws_world (wemit e w s) = w"
  "ws_trace (wemit e w s) = ws_trace s @ [e]"
  by (simp_all add: wemit_def)

lemma wquery_trace: "wquery os prog args s = (r, s') \<Longrightarrow> ws_trace s' = ws_trace s"
  by (auto simp: wquery_def split: prod.splits)

lemma wcommand_trace:
  "wcommand os prog args s = (r, s') \<Longrightarrow> ws_trace s' = ws_trace s @ [WvRun prog args (wexit_ok r)]"
  by (auto simp: wcommand_def split: prod.splits)

lemma wmkdir_trace: "wmkdir os p s = (r, s') \<Longrightarrow> ws_trace s' = ws_trace s @ [WvMkdir p (r = None)]"
  by (auto simp: wmkdir_def split: prod.splits)

lemma wwrite_trace: "wwrite os p c s = (r, s') \<Longrightarrow> ws_trace s' = ws_trace s @ [WvWrite p c (r = None)]"
  by (auto simp: wwrite_def split: prod.splits)

lemma wunlink_trace: "wunlink os p s = (r, s') \<Longrightarrow> ws_trace s' = ws_trace s @ [WvUnlink p (r = None)]"
  by (auto simp: wunlink_def split: prod.splits)

text \<open>The events of a run that only touch routes.\<close>

fun is_netsh :: "wevent \<Rightarrow> bool" where
  "is_netsh (WvRun p a ok) \<longleftrightarrow> p = ''netsh''"
| "is_netsh _ \<longleftrightarrow> False"

definition wextends :: "'w wsys \<Rightarrow> wevent list \<Rightarrow> 'w wsys \<Rightarrow> bool" where
  "wextends s es s' \<longleftrightarrow> ws_trace s' = ws_trace s @ es"

lemma wextends_refl: "wextends s [] s"
  by (simp add: wextends_def)

lemma wextends_trans: "wextends s es s' \<Longrightarrow> wextends s' es' s'' \<Longrightarrow> wextends s (es @ es') s''"
  by (simp add: wextends_def)

lemma win_ps_quiet: "win_ps os script s = (r, s') \<Longrightarrow> wextends s [] s'"
  by (auto simp: win_ps_def wextends_def split: prod.splits dest: wquery_trace)

lemma win_exists_quiet: "win_route_exists os r s = (b, s') \<Longrightarrow> wextends s [] s'"
  by (auto simp: win_route_exists_def split: prod.splits dest: win_ps_quiet)

lemma netsh_event:
  "netsh os r verb extra s = (ok, s') \<Longrightarrow> wextends s [WvRun ''netsh'' (netsh_args r verb extra) ok] s'"
  by (auto simp: netsh_def wextends_def split: prod.splits dest: wcommand_trace)

lemma win_plan_quiet: "win_plan os rq s = (rs, s') \<Longrightarrow> wextends s [] s'"
proof -
  have h: "hosts_with (win_resolve os) gws hs s = (rs, s') \<Longrightarrow> ws_trace s' = ws_trace s" for gws hs rs s s'
    by (induction hs arbitrary: s rs) (auto simp: win_resolve_def split: prod.splits)
  assume "win_plan os rq s = (rs, s')"
  then show ?thesis
    by (auto simp: win_plan_def plan_with_def win_other_vpns_def win_gateways_def wextends_def
        split: prod.splits if_splits option.splits dest!: h win_ps_quiet)
qed

lemma win_install_events:
  assumes "win_install os rs inst s = (inst', s')"
  shows "\<exists>es. list_all is_netsh es \<and> wextends s es s'"
  using assms unfolding win_install_def
proof (induction rs arbitrary: inst s)
  case Nil
  then have "s = s'" by simp
  then show ?case using wextends_refl [of s] by (intro exI [of _ "[]"]) simp
next
  case (Cons r rs)
  obtain b s1 where b: "win_route_exists os r s = (b, s1)" by fastforce
  note q = win_exists_quiet [OF b]
  show ?case
  proof (cases b)
    case True
    then have "install_with (win_route_exists os) (win_add os) rs inst s1 = (inst', s')"
      using Cons.prems b by simp
    from Cons.IH [OF this] show ?thesis using wextends_trans [OF q] by auto
  next
    case False
    obtain ok s2 where a: "win_add os r s1 = (ok, s2)" by fastforce
    then obtain args where "wextends s1 [WvRun ''netsh'' args ok] s2"
      by (auto simp: win_add_def dest: netsh_event)
    then have e: "wextends s [WvRun ''netsh'' args ok] s2" using wextends_trans [OF q] by simp
    have "install_with (win_route_exists os) (win_add os) rs (if ok then inst @ [r] else inst) s2 = (inst', s')"
      using Cons.prems b a False by simp
    from Cons.IH [OF this] obtain es where "list_all is_netsh es" "wextends s2 es s'" by blast
    then show ?thesis
      using wextends_trans [OF e] by (intro exI [of _ "[WvRun ''netsh'' args ok] @ es"]) simp
  qed
qed

lemma win_remove_events:
  assumes "win_remove os rs s = (rs', s')"
  shows "rs' = [] \<and> (\<exists>oks. length oks = length rs \<and>
    wextends s (map (\<lambda>(r, ok). WvRun ''netsh'' (netsh_args r ''delete'' [''store=active'']) ok) (zip rs oks)) s')"
  using assms unfolding win_remove_def
proof (induction rs arbitrary: s)
  case Nil
  then show ?case by (simp add: wextends_refl)
next
  case (Cons r rs)
  obtain ok s1 where d: "win_del os r s = (ok, s1)" by fastforce
  then have e: "wextends s [WvRun ''netsh'' (netsh_args r ''delete'' [''store=active'']) ok] s1"
    unfolding win_del_def by (rule netsh_event)
  have "remove_with (win_del os) rs s1 = (rs', s')" using Cons.prems d by simp
  from Cons.IH [OF this] obtain oks where "rs' = []" "length oks = length rs"
      "wextends s1 (map (\<lambda>(r, ok). WvRun ''netsh'' (netsh_args r ''delete'' [''store=active'']) ok) (zip rs oks)) s'"
    by blast
  then show ?case
    using wextends_trans [OF e] by (intro conjI exI [of _ "ok # oks"]) simp_all
qed

lemma win_remove_netsh:
  assumes "win_remove os rs s = (rs', s')"
  shows "\<exists>es. list_all is_netsh es \<and> wextends s es s'"
proof -
  obtain oks where "wextends s
      (map (\<lambda>(r, ok). WvRun ''netsh'' (netsh_args r ''delete'' [''store=active'']) ok) (zip rs oks)) s'"
    using win_remove_events [OF assms] by blast
  then show ?thesis by (intro exI conjI) (auto simp: list_all_iff)
qed

end
