(* ===== verification/Win_Killswitch.thy ===== *)
theory Win_Killswitch
  imports Win_Sys Killswitch
begin

text \<open>
  \<^verbatim>\<open>vpnmgr-tunnel/src/killswitch_windows.rs\<close>: the kill switch on Windows. Its script makes
  the default outbound action \<^verbatim>\<open>Block\<close> and adds rules that allow exceptions. The rules are
  given as data too, with the meaning Windows Firewall documents for them (an outbound
  packet leaves when some allow rule matches it, the default action deciding otherwise).
\<close>

section \<open>Definitions\<close>

definition GROUP :: string where "GROUP = ''vpnmgr''"
definition RULE_PREFIX :: string where "RULE_PREFIX = ''vpnmgr-allow''"
definition WLAN_V4 :: string where "WLAN_V4 = ''10.0.0.0/8,172.16.0.0/12,192.168.0.0/16''"
definition WLAN_V6 :: string where "WLAN_V6 = ''fc00::/7''"
definition WLINK_V4 :: string where "WLINK_V4 = ''169.254.0.0/16,224.0.0.0/4,255.255.255.255''"
definition WLINK_V6 :: string where "WLINK_V6 = ''fe80::/10,ff00::/8''"

definition restore_path :: "'w win \<Rightarrow> string" where
  "restore_path os = win_join (win_join (data_dir os) ''vpnmgr'') ''killswitch-restore.txt''"

record win_killswitch =
  wk_interface :: string
  wk_port :: u16
  wk_allow_lan :: bool
  wk_allowed :: "string list"

definition wk_new :: "string \<Rightarrow> u32 \<Rightarrow> bool \<Rightarrow> win_killswitch" where
  "wk_new i m lan = \<lparr>wk_interface = i, wk_port = 1637, wk_allow_lan = lan, wk_allowed = []\<rparr>"

definition wk_with_port :: "u16 \<Rightarrow> win_killswitch \<Rightarrow> win_killswitch" where
  "wk_with_port p k = k\<lparr>wk_port := p\<rparr>"

definition wk_allowing :: "string list \<Rightarrow> win_killswitch \<Rightarrow> win_killswitch" where
  "wk_allowing ds k = k\<lparr>wk_allowed := ds\<rparr>"

subsection \<open>The script\<close>

definition cleanup_line :: string where
  "cleanup_line =
     ''Get-NetFirewallRule -Group '' @ squoted GROUP @ '' -ErrorAction SilentlyContinue | '' @
     ''Remove-NetFirewallRule -ErrorAction SilentlyContinue'' @ nl"

definition save_lines :: "string \<Rightarrow> string" where
  "save_lines restore =
     ''$restore = '' @ squoted restore @ nl @
     ''New-Item -ItemType Directory -Force -Path (Split-Path -Parent $restore) | Out-Null'' @ nl @
     ''if (-not (Test-Path $restore)) {'' @ nl @
     ''  (Get-NetFirewallProfile -All | ForEach-Object { '' @ dq @
     ''$($_.Name)=$($_.DefaultOutboundAction)'' @ dq @ '' }) -join '' @ squoted '';'' @
     '' | Set-Content -Path $restore'' @ nl @ ''}'' @ nl"

definition rule_line :: "string \<Rightarrow> string \<Rightarrow> string" where
  "rule_line name extra =
     ''New-NetFirewallRule -DisplayName '' @ squoted (RULE_PREFIX @ ''-'' @ name) @
     '' -Group '' @ squoted GROUP @ '' -Direction Outbound -Action Allow -Profile Any '' @ extra @
     '' | Out-Null'' @ nl"

definition block_line :: string where
  "block_line = ''Set-NetFirewallProfile -All -DefaultOutboundAction Block'' @ nl"

definition wk_script :: "'w win \<Rightarrow> win_killswitch \<Rightarrow> string" where
  "wk_script os k =
     ''$ErrorActionPreference = '' @ squoted ''Stop'' @ nl @
     cleanup_line @ save_lines (restore_path os) @
     ''if (Get-NetAdapter -Name '' @ squoted (wk_interface k) @ '' -ErrorAction SilentlyContinue) {'' @ nl @
     ''  '' @ rule_line ''tunnel'' (''-InterfaceAlias '' @ squoted (wk_interface k)) @ ''}'' @ nl @
     rule_line ''wireguard'' (''-Protocol UDP -RemotePort '' @ show_nat (unat (wk_port k))) @
     rule_line ''link-v4'' (''-RemoteAddress '' @ WLINK_V4) @
     rule_line ''link-v6'' (''-RemoteAddress '' @ WLINK_V6) @
     rule_line ''dhcp'' ''-Protocol UDP -RemotePort 67,68'' @
     (if wk_allow_lan k
      then rule_line ''lan-v4'' (''-RemoteAddress '' @ WLAN_V4) @
           rule_line ''lan-v6'' (''-RemoteAddress '' @ WLAN_V6)
      else []) @
     (if wk_allowed k \<noteq> []
      then rule_line ''bypass'' (''-RemoteAddress '' @ str_join '','' (map squoted (wk_allowed k)))
      else []) @
     block_line"

definition wk_release_script :: "'w win \<Rightarrow> string" where
  "wk_release_script os =
     ''$ErrorActionPreference = '' @ squoted ''Continue'' @ nl @
     cleanup_line @
     ''$restore = '' @ squoted (restore_path os) @ nl @
     ''if (Test-Path $restore) {'' @ nl @
     ''  foreach ($entry in (Get-Content $restore) -split '' @ squoted '';'' @ '') {'' @ nl @
     ''    $parts = $entry -split '' @ squoted ''='' @ nl @
     ''    if ($parts.Count -eq 2) { Set-NetFirewallProfile -Name $parts[0] '' @
     ''-DefaultOutboundAction $parts[1] }'' @ nl @
     ''  }'' @ nl @
     ''  Remove-Item -Force $restore'' @ nl @
     ''} else {'' @ nl @
     ''  # No record: Allow is the Windows default, and leaving the machine'' @ nl @
     ''  # unable to reach anything would be worse than a wrong guess.'' @ nl @
     ''  Set-NetFirewallProfile -All -DefaultOutboundAction Allow'' @ nl @
     ''}'' @ nl"

subsection \<open>Running it\<close>

text \<open>\<^verbatim>\<open>run\<close> and \<^verbatim>\<open>run_output\<close>.\<close>

definition show_code :: "int option \<Rightarrow> string" where
  "show_code c =
     show_int (case c of Some n \<Rightarrow> n | None \<Rightarrow> - 1)"

definition first_reason :: "string \<Rightarrow> string" where
  "first_reason txt =
     (case find (\<lambda>l. l \<noteq> []) (map trim (str_lines txt)) of Some l \<Rightarrow> l | None \<Rightarrow> ''no output'')"

definition wk_run :: "'w win \<Rightarrow> string \<Rightarrow> 'w wsys \<Rightarrow> (string + unit) \<times> 'w wsys" where
  "wk_run os script s =
     (case wcommand os ''powershell'' (ps_args script) s of
        (r, s1) \<Rightarrow>
          ((case r of
              WSpawn e \<Rightarrow> Inl e
            | WExit ok code out err \<Rightarrow>
                if ok then Inr ()
                else Inl (''powershell exited '' @ show_code code @ '': '' @ first_reason err)), s1))"

definition wk_release :: "'w win \<Rightarrow> 'w wsys \<Rightarrow> (tunnel_error + unit) \<times> 'w wsys" where
  "wk_release os s =
     (case wk_run os (wk_release_script os) s of
        (Inl e, s1) \<Rightarrow> (Inl (KillswitchErr ''releasing'' e), s1)
      | (Inr _, s1) \<Rightarrow> (Inr (), s1))"

text \<open>A script that fails is rolled back by a release.\<close>

definition wk_engage :: "'w win \<Rightarrow> win_killswitch \<Rightarrow> 'w wsys \<Rightarrow> (tunnel_error + unit) \<times> 'w wsys" where
  "wk_engage os k s =
     (case wk_run os (wk_script os k) s of
        (Inl e, s1) \<Rightarrow> (Inl (KillswitchErr ''engaging'' e), snd (wk_release os s1))
      | (Inr _, s1) \<Rightarrow> (Inr (), s1))"

definition count_script :: string where
  "count_script =
     ''@(Get-NetFirewallRule -Group '' @ squoted GROUP @ '' -ErrorAction SilentlyContinue).Count''"

definition wk_is_engaged :: "'w win \<Rightarrow> 'w wsys \<Rightarrow> bool \<times> 'w wsys" where
  "wk_is_engaged os s =
     (case win_ps os count_script s of
        (r, s1) \<Rightarrow>
          ((case r of
              None \<Rightarrow> False
            | Some txt \<Rightarrow> (case parse_unsigned (2 ^ 32) (trim txt) of Some n \<Rightarrow> 0 < n | None \<Rightarrow> False)), s1))"

definition wk_dropped :: "'w wsys \<Rightarrow> u64 option \<times> 'w wsys" where
  "wk_dropped s = (None, s)"

definition wk_recovery_hint :: string where
  "wk_recovery_hint =
     ''outbound traffic is blocked by default. To restore it:'' @ nl @
     ''    vpnmgr killswitch off'' @ nl @
     ''  or, if the daemon is not running, from an elevated PowerShell:'' @ nl @
     ''    Get-NetFirewallRule -Group '' @ squoted GROUP @ '' | Remove-NetFirewallRule'' @ nl @
     ''    Set-NetFirewallProfile -All -DefaultOutboundAction Allow''"

section \<open>The rules as data\<close>

datatype allow_rule =
    AllowInterface string
  | AllowUdp "nat list"
  | AllowAddresses "string list"

definition allow_rules :: "win_killswitch \<Rightarrow> (string \<times> allow_rule) list" where
  "allow_rules k =
     [(''wireguard'', AllowUdp [unat (wk_port k)]),
      (''link-v4'', AllowAddresses (split_on (CHR '','') WLINK_V4)),
      (''link-v6'', AllowAddresses (split_on (CHR '','') WLINK_V6)),
      (''dhcp'', AllowUdp [67, 68])] @
     (if wk_allow_lan k
      then [(''lan-v4'', AllowAddresses PRIVATE_V4), (''lan-v6'', AllowAddresses PRIVATE_V6)] else []) @
     (if wk_allowed k \<noteq> [] then [(''bypass'', AllowAddresses (wk_allowed k))] else [])"

text \<open>How a rule is written; only the bypass list quotes its entries.\<close>

definition render_allow :: "string \<times> allow_rule \<Rightarrow> string" where
  "render_allow nr =
     (case nr of (name, r) \<Rightarrow> rule_line name
        (case r of
           AllowInterface i \<Rightarrow> ''-InterfaceAlias '' @ squoted i
         | AllowUdp ps \<Rightarrow> ''-Protocol UDP -RemotePort '' @ str_join '','' (map show_nat ps)
         | AllowAddresses ds \<Rightarrow>
             ''-RemoteAddress '' @ str_join '','' (if name = ''bypass'' then map squoted ds else ds)))"

text \<open>An outbound packet: the marks of the other platform play no part.\<close>

fun allows :: "allow_rule \<Rightarrow> packet \<Rightarrow> bool" where
  "allows (AllowInterface i) p \<longleftrightarrow> pk_oif p = i"
| "allows (AllowUdp ps) p \<longleftrightarrow> (\<exists>d. pk_udp_dport p = Some d \<and> d \<in> set ps)"
| "allows (AllowAddresses ds) p \<longleftrightarrow> (\<exists>d\<in>set ds. elem_matches d (pk_daddr p))"

definition win_lets_out :: "win_killswitch \<Rightarrow> packet \<Rightarrow> bool" where
  "win_lets_out k p \<longleftrightarrow>
     list_ex (\<lambda>(n, r). allows r p) ((''tunnel'', AllowInterface (wk_interface k)) # allow_rules k)"

section \<open>Lemmas\<close>

lemma wk_run_trace:
  "wk_run os script s = (r, s') \<Longrightarrow>
     wextends s [WvRun ''powershell'' (ps_args script) (r = Inr ())] s'"
  by (auto simp: wk_run_def wextends_def wexit_ok_def split: prod.splits win_out.splits if_splits
      dest!: wcommand_trace)

lemma wk_release_trace:
  "wk_release os s = (r, s') \<Longrightarrow>
     wextends s [WvRun ''powershell'' (ps_args (wk_release_script os)) (r = Inr ())] s'"
  by (auto simp: wk_release_def split: prod.splits sum.splits dest!: wk_run_trace)

lemma wk_engage_cases:
  assumes "wk_engage os k s = (r, s')"
  obtains "r = Inr ()" "wextends s [WvRun ''powershell'' (ps_args (wk_script os k)) True] s'"
  | e ok where "r = Inl e" "wextends s
      [WvRun ''powershell'' (ps_args (wk_script os k)) False,
       WvRun ''powershell'' (ps_args (wk_release_script os)) ok] s'"
proof -
  obtain r1 s1 where 1: "wk_run os (wk_script os k) s = (r1, s1)" by fastforce
  note e1 = wk_run_trace [OF 1]
  show ?thesis
  proof (cases r1)
    case (Inl e)
    obtain r2 s2 where 2: "wk_release os s1 = (r2, s2)" by fastforce
    have "s' = s2" "\<exists>x. r = Inl x" using assms 1 2 Inl by (auto simp: wk_engage_def)
    then show ?thesis
      using that(2) wextends_trans [OF e1 wk_release_trace [OF 2]] Inl by auto
  next
    case (Inr u)
    then show ?thesis using assms 1 e1 that(1) by (simp add: wk_engage_def)
  qed
qed

lemma wk_is_engaged_quiet: "wk_is_engaged os s = (b, s') \<Longrightarrow> wextends s [] s'"
  by (auto simp: wk_is_engaged_def split: prod.splits dest: win_ps_quiet)

text \<open>The script is the rules written out, between the cleanup and the change of default.\<close>

lemma link_lists:
  "split_on (CHR '','') WLINK_V4 = [''169.254.0.0/16'', ''224.0.0.0/4'', ''255.255.255.255'']"
  "split_on (CHR '','') WLINK_V6 = [''fe80::/10'', ''ff00::/8'']"
  by code_simp+

lemma wk_script_rules:
  "wk_script os k =
     (''$ErrorActionPreference = '' @ squoted ''Stop'' @ nl @ cleanup_line @ save_lines (restore_path os) @
      ''if (Get-NetAdapter -Name '' @ squoted (wk_interface k) @ '' -ErrorAction SilentlyContinue) {'' @ nl @
      ''  '' @ render_allow (''tunnel'', AllowInterface (wk_interface k)) @ ''}'' @ nl) @
     concat (map render_allow (allow_rules k)) @ block_line"
proof -
  have "str_join '','' [a, b] = a @ '','' @ b" "str_join '','' [a, b, c] = a @ '','' @ b @ '','' @ c"
      "str_join '','' [a] = a" for a b c
    by simp_all
  moreover have "show_nat 67 = ''67''" "show_nat 68 = ''68''" by code_simp+
  ultimately show ?thesis
    by (simp add: wk_script_def allow_rules_def render_allow_def link_lists WLINK_V4_def WLINK_V6_def
        WLAN_V4_def WLAN_V6_def PRIVATE_V4_def PRIVATE_V6_def)
qed

section \<open>Properties\<close>

text \<open>On Windows the script writes exactly one allow rule per exception
and changes the default outbound action to \<^verbatim>\<open>Block\<close> after all of them, its last step. With the
rules in force a packet leaves exactly when it goes out on the tunnel adapter, is UDP to the
WireGuard port or to the DHCP ports, or is addressed to a link-local, multicast or broadcast
range, to a private range (where the LAN is allowed) or to a destination of the bypass.\<close>

lemma windows_script_blocks_last:
  "(\<exists>before. wk_script os k = before @ concat (map render_allow (allow_rules k)) @ block_line) \<and>
   (win_lets_out k p \<longleftrightarrow>
      pk_oif p = wk_interface k \<or>
      (\<exists>port. pk_udp_dport p = Some port \<and> port \<in> {unat (wk_port k), 67, 68}) \<or>
      (\<exists>d\<in>set (link_v4 @ link_v6 @ (if wk_allow_lan k then PRIVATE_V4 @ PRIVATE_V6 else []) @ wk_allowed k).
         elem_matches d (pk_daddr p)))"
proof
  show "\<exists>before. wk_script os k = before @ concat (map render_allow (allow_rules k)) @ block_line"
    by (rule exI) (rule wk_script_rules)
  show "win_lets_out k p \<longleftrightarrow>
      pk_oif p = wk_interface k \<or>
      (\<exists>port. pk_udp_dport p = Some port \<and> port \<in> {unat (wk_port k), 67, 68}) \<or>
      (\<exists>d\<in>set (link_v4 @ link_v6 @ (if wk_allow_lan k then PRIVATE_V4 @ PRIVATE_V6 else []) @ wk_allowed k).
         elem_matches d (pk_daddr p))"
    by (auto simp: win_lets_out_def allow_rules_def link_lists link_v4_def link_v6_def)
qed

end
