(* ===== verification/Render.thy ===== *)
theory Render
  imports Wgconf
begin

text \<open>
  \<^verbatim>\<open>vpnmgr-core/src/render.rs\<close>: a complete \<^verbatim>\<open>.conf\<close> for a server, and the proof that the
  parser of \<open>Wgconf\<close> reads it back to the same credentials.
\<close>

section \<open>Definitions\<close>

definition eol :: string where "eol = [CHR 0x0A]"

definition to_conf :: "base64 \<Rightarrow> client_config \<Rightarrow> sockaddr \<Rightarrow> string" where
  "to_conf b64 c endpoint =
     (let dns = map show_ip (cc_dns c) @ cc_search_domains c in
      ''[Interface]'' @ eol @
      ''Address = '' @ str_join '', '' (map show_cidr (cc_addresses c)) @ eol @
      ''PrivateKey = '' @ secret_to_base64 b64 (cc_private_key c) @ eol @
      (if dns \<noteq> [] then ''DNS = '' @ str_join '', '' dns @ eol else []) @
      (case cc_mtu c of Some mtu \<Rightarrow> ''MTU = '' @ show_nat (unat mtu) @ eol | None \<Rightarrow> []) @
      eol @ ''[Peer]'' @ eol @
      ''PublicKey = '' @ public_to_base64 b64 (cc_peer_public_key c) @ eol @
      (case cc_preshared_key c of
         Some psk \<Rightarrow> ''PresharedKey = '' @ secret_to_base64 b64 psk @ eol | None \<Rightarrow> []) @
      ''Endpoint = '' @ show_sockaddr endpoint @ eol @
      ''AllowedIPs = '' @ str_join '', '' (map show_cidr (cc_allowed_ips c)) @ eol @
      (case cc_persistent_keepalive c of
         Some k \<Rightarrow> ''PersistentKeepalive = '' @ show_nat (unat k) @ eol | None \<Rightarrow> []))"

definition for_server :: "base64 \<Rightarrow> client_config \<Rightarrow> server \<Rightarrow> u16 \<Rightarrow> string" where
  "for_server b64 c s port = to_conf b64 c (wg_endpoint s port)"

section \<open>Characters of the pieces\<close>

text \<open>A character that neither separates nor ends anything in a \<^verbatim>\<open>.conf\<close>.\<close>

definition item_char :: "char \<Rightarrow> bool" where
  "item_char c \<longleftrightarrow> graph_char c \<and> c \<noteq> CHR ''#'' \<and> c \<noteq> CHR '';'' \<and> c \<noteq> CHR '',''"

definition item :: "string \<Rightarrow> bool" where
  "item s \<longleftrightarrow> s \<noteq> [] \<and> (\<forall>c\<in>set s. item_char c)"

lemma item_charD: "item_char c \<Longrightarrow> graph_char c"
  "\<not> item_char (CHR ''#'')" "\<not> item_char (CHR '';'')" "\<not> item_char (CHR '','')" "\<not> item_char (CHR 0x0A)"
  by (simp_all add: item_char_def graph_char_def)

lemma item_mem: "item s \<Longrightarrow> c \<in> set s \<Longrightarrow> item_char c"
  by (simp add: item_def)

lemma item_ends: "item s \<Longrightarrow> s \<noteq> [] \<and> graph_char (hd s) \<and> graph_char (last s)"
  using item_charD(1) item_mem [of s "hd s"] item_mem [of s "last s"] by (simp add: item_def)

lemma item_lacks:
  "item s \<Longrightarrow> CHR ''#'' \<notin> set s \<and> CHR '';'' \<notin> set s \<and> CHR '','' \<notin> set s \<and> CHR 0x0A \<notin> set s"
  using item_mem item_charD by blast

lemma item_append: "item s \<Longrightarrow> (\<forall>c\<in>set t. item_char c) \<Longrightarrow> item (s @ t)"
  by (auto simp: item_def)

lemma item_trim: "item s \<Longrightarrow> trim s = s"
  by (rule trim_id) (simp add: item_ends)

lemma digit_item: "is_digit_char c \<Longrightarrow> item_char c \<and> c \<noteq> CHR ''/''"
  by (auto simp: is_digit_char_def item_char_def graph_char_def)

lemma show_nat_item: "item (show_nat n)"
  using digit_item set_show_nat by (auto simp: item_def)

lemma set_str_join: "set (str_join sep ss) \<subseteq> set sep \<union> \<Union> (set ` set ss)"
  by (induction sep ss rule: str_join.induct) auto

definition addr_char :: "char \<Rightarrow> bool" where
  "addr_char c \<longleftrightarrow> item_char c \<and> c \<noteq> CHR ''/''"

lemma hex_char_addr: "n < 16 \<Longrightarrow> addr_char (hex_char n)"
  by (auto simp: hex_char_def addr_char_def item_char_def graph_char_def char_of_eq_iff
      take_bit_nat_def)

lemma show_hex_addr: "c \<in> set (show_hex n) \<Longrightarrow> addr_char c"
proof (induction n rule: show_hex.induct)
  case (1 n)
  then show ?case
    by (cases "n < 16") (auto simp: show_hex.simps [of n] hex_char_addr)
qed

lemma punct_addr: "addr_char (CHR '':'')" "addr_char (CHR ''.'')" "addr_char (CHR ''f'')"
  by (simp_all add: addr_char_def item_char_def graph_char_def)

lemma show_groups_addr: "c \<in> set (show_groups gs) \<Longrightarrow> addr_char c"
  using set_str_join [of "'':''" "map show_hex gs"]
  by (auto simp: show_groups_def punct_addr dest: show_hex_addr)

lemma show_v4_addr: "c \<in> set (show_v4 w) \<Longrightarrow> addr_char c"
proof -
  assume "c \<in> set (show_v4 w)"
  then have "c = CHR ''.'' \<or> (\<exists>n. c \<in> set (show_nat n))"
    using set_str_join [of "''.''" "map show_nat (octets w)"] by (auto simp: show_v4_def)
  then show ?thesis
    using punct_addr(2) digit_item set_show_nat by (auto simp: addr_char_def)
qed

lemma show_v6_addr: "c \<in> set (show_v6 w) \<Longrightarrow> addr_char c"
  by (auto simp: show_v6_def Let_def punct_addr split: if_splits prod.splits
      dest: show_v4_addr show_groups_addr)

lemma show_ip_addr: "c \<in> set (show_ip a) \<Longrightarrow> addr_char c"
  by (cases a) (auto dest: show_v4_addr show_v6_addr)

lemma show_ip_not_Nil: "show_ip a \<noteq> []"
proof
  assume "show_ip a = []"
  moreover have "parse_ip [] = None" by code_simp
  ultimately show False using parse_ip_show_ip [of a] by simp
qed

lemma show_ip_item: "item (show_ip a)"
  using show_ip_addr [of _ a] show_ip_not_Nil by (auto simp: item_def addr_char_def)

lemma show_cidr_item: "item (show_cidr c)"
  unfolding show_cidr_def
proof (rule item_append [OF show_ip_item])
  have "item_char (CHR ''/'')" by (simp add: item_char_def graph_char_def)
  then show "\<forall>x\<in>set (''/'' @ show_nat (unat (c_prefix c))). item_char x"
    using show_nat_item [of "unat (c_prefix c)"] by (simp add: item_def)
qed

section \<open>Reading pieces back\<close>

lemma max_prefix_le: "max_prefix a \<le> 128"
  by (simp add: max_prefix_def word_le_nat_alt)

lemma parse_cidr_show_cidr [round_trips]:
  assumes "cidr_ok c"
  shows "parse_cidr (show_cidr c) = Inr c"
proof -
  have "unat (c_prefix c) < 256" using unsigned_less [of "c_prefix c"] by simp
  then have n: "parse_unsigned 256 (trim (show_nat (unat (c_prefix c)))) = Some (unat (c_prefix c))"
    by (simp add: item_trim show_nat_item parse_unsigned_show_nat)
  have s: "split_once (\<lambda>c. c = CHR ''/'') (show_cidr c) =
      Some (show_ip (c_addr c), show_nat (unat (c_prefix c)))"
    using split_once_first [of "show_ip (c_addr c)" "\<lambda>c. c = CHR ''/''" "CHR ''/''"]
      show_ip_addr [of _ "c_addr c"]
    by (auto simp: show_cidr_def addr_char_def)
  have "\<not> max_prefix (c_addr c) < c_prefix c"
    using assms by (simp add: cidr_ok_def)
  then show ?thesis
    using n s by (simp add: parse_cidr_def item_trim show_cidr_item show_ip_item round_trips)
qed

lemma split_join_items:
  assumes "\<forall>i\<in>set is. item i" and "is \<noteq> []"
  shows "map trim (split_on (CHR '','') (str_join '', '' is)) = is"
  using assms
proof (induction "'', ''" "is" rule: str_join.induct)
  case (2 s)
  then have "CHR '','' \<notin> set s" using item_lacks [of s] by simp
  then show ?case using 2 by (simp add: split_on_no_sep item_trim)
next
  case (3 s t ss)
  then have s: "CHR '','' \<notin> set s" using item_lacks [of s] by simp
  obtain p ps where ps: "split_on (CHR '','') (str_join '', '' (t # ss)) = p # ps"
    by (cases "split_on (CHR '','') (str_join '', '' (t # ss))") auto
  have "split_on (CHR '','') (str_join '', '' (s # t # ss)) = s # (CHR '' '' # p) # ps"
    using split_on_append [OF s] ps by simp
  moreover have "map trim (p # ps) = t # ss" using 3 ps by simp
  ultimately show ?case using 3 by (simp add: item_trim trim_space_front)
qed simp

lemma parse_items_trim: "parse_items bad d n (map trim xs) = parse_items bad d n xs"
  by (induction xs) (auto simp: Let_def split: sum.split)

lemma parse_items_cidrs: "\<forall>c\<in>set cs. cidr_ok c \<Longrightarrow> parse_items bad d n (map show_cidr cs) = Inr cs"
proof (induction cs)
  case (Cons c cs)
  then show ?case
    using show_cidr_item [of c] by (simp add: item_trim item_def [of "show_cidr c"] parse_cidr_show_cidr)
qed simp

lemma parse_joined_cidrs:
  assumes "\<forall>c\<in>set cs. cidr_ok c" and "cs \<noteq> []"
  shows "parse_items bad d n (split_on (CHR '','') (str_join '', '' (map show_cidr cs))) = Inr cs"
proof -
  have "map trim (split_on (CHR '','') (str_join '', '' (map show_cidr cs))) = map show_cidr cs"
    by (rule split_join_items) (use assms in \<open>auto simp: show_cidr_item\<close>)
  then show ?thesis
    using parse_items_cidrs [OF assms(1), of bad d n] parse_items_trim by metis
qed

section \<open>Reading lines back\<close>

text \<open>A line that \<^verbatim>\<open>lines\<close> gives back as it is.\<close>

definition line_ok :: "string \<Rightarrow> bool" where
  "line_ok l \<longleftrightarrow> CHR 0x0A \<notin> set l \<and> (l = [] \<or> last l \<noteq> CHR 0x0D)"

lemma str_lines_concat:
  "\<forall>l\<in>set ls. line_ok l \<Longrightarrow> str_lines (concat (map (\<lambda>l. l @ eol) ls)) = ls"
proof (induction ls)
  case Nil
  then show ?case by (simp add: str_lines_def)
next
  case (Cons l ls)
  obtain p ps where ps: "split_on (CHR 0x0A) (concat (map (\<lambda>l. l @ eol) ls)) = p # ps"
    by (cases "split_on (CHR 0x0A) (concat (map (\<lambda>l. l @ eol) ls))") auto
  have "CHR 0x0A \<notin> set l" using Cons.prems by (simp add: line_ok_def)
  then have "split_on (CHR 0x0A) (concat (map (\<lambda>l. l @ eol) (l # ls))) = l # p # ps"
    using split_on_append ps by (simp add: eol_def)
  then have "str_lines (concat (map (\<lambda>l. l @ eol) (l # ls))) = strip_cr l # ls"
    using Cons ps by (simp add: str_lines_def)
  then show ?case using Cons.prems by (auto simp: strip_cr_def line_ok_def)
qed

text \<open>A setting's key and value, and the line \<^verbatim>\<open>to_conf\<close> writes for it.\<close>

definition setting_line :: "string \<times> string \<Rightarrow> string" where
  "setting_line kv = fst kv @ '' = '' @ snd kv"

definition key_part :: "string \<Rightarrow> bool" where
  "key_part k \<longleftrightarrow> item k \<and> hd k \<noteq> CHR ''['' \<and> CHR ''='' \<notin> set k"

definition val_part :: "string \<Rightarrow> bool" where
  "val_part v \<longleftrightarrow> v \<noteq> [] \<and> graph_char (hd v) \<and> graph_char (last v) \<and>
     (\<forall>c\<in>set v. c \<noteq> CHR ''#'' \<and> c \<noteq> CHR '';'' \<and> c \<noteq> CHR 0x0A)"

definition setting_ok :: "string \<times> string \<Rightarrow> bool" where
  "setting_ok kv \<longleftrightarrow> key_part (fst kv) \<and> val_part (snd kv)"

lemma item_val: "item v \<Longrightarrow> val_part v"
  using item_ends [of v] item_lacks [of v] by (auto simp: val_part_def)

lemma hd_str_join: "\<forall>s\<in>set ss. s \<noteq> [] \<Longrightarrow> ss \<noteq> [] \<Longrightarrow>
    str_join sep ss \<noteq> [] \<and> hd (str_join sep ss) = hd (hd ss) \<and> last (str_join sep ss) = last (last ss)"
  by (induction sep ss rule: str_join.induct) auto

lemma joined_val:
  assumes "\<forall>i\<in>set is. item i" and "is \<noteq> []"
  shows "val_part (str_join '', '' is)"
proof -
  have ne: "\<forall>i\<in>set is. i \<noteq> []" using assms(1) by (auto simp: item_def)
  have "graph_char (hd (hd is))" "graph_char (last (last is))"
    using item_ends [of "hd is"] item_ends [of "last is"] assms by simp_all
  moreover have "\<forall>c\<in>set (str_join '', '' is). c \<noteq> CHR ''#'' \<and> c \<noteq> CHR '';'' \<and> c \<noteq> CHR 0x0A"
  proof
    fix c
    assume "c \<in> set (str_join '', '' is)"
    then have "c = CHR '','' \<or> c = CHR '' '' \<or> (\<exists>i\<in>set is. c \<in> set i)"
      using set_str_join [of "'', ''" "is"] by auto
    then show "c \<noteq> CHR ''#'' \<and> c \<noteq> CHR '';'' \<and> c \<noteq> CHR 0x0A"
      using item_lacks assms(1) by auto
  qed
  ultimately show ?thesis using hd_str_join [OF ne assms(2), of "'', ''"] by (simp add: val_part_def)
qed

lemma setting_line_props:
  assumes "setting_ok kv"
  shows "trim (strip_comment (setting_line kv)) = setting_line kv"
    and "bracketed (setting_line kv) = None"
    and "split_once (\<lambda>c. c = CHR ''='') (setting_line kv) = Some (fst kv @ '' '', '' '' @ snd kv)"
    and "trim (fst kv @ '' '') = fst kv" and "trim ('' '' @ snd kv) = snd kv"
    and "setting_line kv \<noteq> []" and "line_ok (setting_line kv)"
proof -
  obtain k v where kv: "kv = (k, v)" by (cases kv)
  have k: "item k" "hd k \<noteq> CHR ''[''" "CHR ''='' \<notin> set k" "k \<noteq> []" "graph_char (hd k)"
    and v: "v \<noteq> []" "graph_char (hd v)" "graph_char (last v)"
      "\<forall>c\<in>set v. c \<noteq> CHR ''#'' \<and> c \<noteq> CHR '';'' \<and> c \<noteq> CHR 0x0A"
    using assms kv item_ends [of k] by (simp_all add: setting_ok_def key_part_def val_part_def)
  have "split_once (\<lambda>c. c = CHR ''#'' \<or> c = CHR '';'') (setting_line kv) = None"
    unfolding split_once_None_iff using item_lacks [OF k(1)] v(4)
    by (auto simp: setting_line_def kv)
  then have c: "strip_comment (setting_line kv) = setting_line kv"
    by (simp add: strip_comment_def)
  show "trim (strip_comment (setting_line kv)) = setting_line kv"
    unfolding c by (rule trim_id) (use k v in \<open>simp add: setting_line_def kv\<close>)
  show "bracketed (setting_line kv) = None"
    using k by (cases k) (auto simp: bracketed_def setting_line_def kv)
  show "split_once (\<lambda>c. c = CHR ''='') (setting_line kv) = Some (fst kv @ '' '', '' '' @ snd kv)"
    using split_once_first [of "k @ '' ''" "\<lambda>c. c = CHR ''=''" "CHR ''=''" "'' '' @ v"] k(3)
    by (auto simp: setting_line_def kv)
  show "trim (fst kv @ '' '') = fst kv"
    using trim_space_back [OF k(4,5)] item_trim [OF k(1)] by (simp add: kv)
  show "trim ('' '' @ snd kv) = snd kv"
    using trim_id [of v] v by (simp add: kv trim_space_front)
  show "setting_line kv \<noteq> []" by (simp add: setting_line_def)
  have "CHR 0x0A \<notin> set k" using item_lacks [OF k(1)] by simp
  moreover have "last v \<noteq> CHR 0x0D" using v(3) by (auto simp: graph_char_def)
  ultimately show "line_ok (setting_line kv)" using v by (auto simp: line_ok_def setting_line_def kv)
qed

text \<open>The entries a block of settings leaves in its section.\<close>

fun entries :: "nat \<Rightarrow> (string \<times> string) list \<Rightarrow> wg_section" where
  "entries n [] = []"
| "entries n ((k, v) # kvs) = (to_ascii_lowercase k, v, n + 1) # entries (n + 1) kvs"

lemma parse_lines_append:
  "parse_lines bad n (xs @ ys) st =
     (case parse_lines bad n xs st of Inl e \<Rightarrow> Inl e | Inr st' \<Rightarrow> parse_lines bad (n + length xs) ys st')"
  by (induction xs arbitrary: n st) (auto split: sum.split)

lemma parse_interface_lines:
  "\<forall>kv\<in>set kvs. setting_ok kv \<Longrightarrow> ps_current st = InInterface \<Longrightarrow>
     parse_lines bad n (map setting_line kvs) st =
       Inr (st\<lparr>ps_interface := ps_interface st @ entries n kvs\<rparr>)"
proof (induction kvs arbitrary: n st)
  case (Cons kv kvs)
  obtain k v where kv: "kv = (k, v)" by (cases kv)
  have ok: "setting_ok kv" using Cons.prems(1) by simp
  have "parse_line bad (n + 1) (setting_line kv) st =
      Inr (st\<lparr>ps_interface := section_set (ps_interface st) k v (n + 1)\<rparr>)"
    using setting_line_props [OF ok] Cons.prems(2) unfolding kv parse_line_def
    by (simp add: Let_def)
  then show ?case
    using Cons by (simp add: kv section_set_def)
qed simp

lemma parse_peer_lines:
  "\<forall>kv\<in>set kvs. setting_ok kv \<Longrightarrow> ps_current st = InPeer \<Longrightarrow> ps_peers st = [p] \<Longrightarrow>
     parse_lines bad n (map setting_line kvs) st = Inr (st\<lparr>ps_peers := [p @ entries n kvs]\<rparr>)"
proof (induction kvs arbitrary: n st p)
  case Nil
  then have "st = st\<lparr>ps_peers := [p]\<rparr>" by simp
  then show ?case by simp
next
  case (Cons kv kvs)
  obtain k v where kv: "kv = (k, v)" by (cases kv)
  have ok: "setting_ok kv" using Cons.prems(1) by simp
  have "parse_line bad (n + 1) (setting_line kv) st =
      Inr (st\<lparr>ps_peers := [section_set p k v (n + 1)]\<rparr>)"
    using setting_line_props [OF ok] Cons.prems(2,3) unfolding kv parse_line_def
    by (simp add: Let_def)
  then show ?case
    using Cons.prems Cons.IH [of "st\<lparr>ps_peers := [section_set p k v (n + 1)]\<rparr>"]
    by (simp add: kv section_set_def)
qed

section \<open>The round trip\<close>

text \<open>Credentials the format can carry: what \<^verbatim>\<open>wg_parse\<close> itself produces, but for odd domains.\<close>

definition conf_ok :: "client_config \<Rightarrow> bool" where
  "conf_ok c \<longleftrightarrow>
     length (secret_expose (cc_private_key c)) = KEY_LEN \<and>
     length (public_bytes (cc_peer_public_key c)) = KEY_LEN \<and>
     (\<forall>k. cc_preshared_key c = Some k \<longrightarrow> length (secret_expose k) = KEY_LEN) \<and>
     cc_addresses c \<noteq> [] \<and> (\<forall>a\<in>set (cc_addresses c). cidr_ok a) \<and>
     cc_allowed_ips c \<noteq> [] \<and> (\<forall>a\<in>set (cc_allowed_ips c). cidr_ok a) \<and>
     (\<forall>d\<in>set (cc_search_domains c). item d \<and> parse_ip d = None)"

definition opt_setting :: "string \<Rightarrow> string option \<Rightarrow> (string \<times> string) list" where
  "opt_setting k v = (case v of None \<Rightarrow> [] | Some x \<Rightarrow> [(k, x)])"

definition dns_texts :: "client_config \<Rightarrow> string list" where
  "dns_texts c = map show_ip (cc_dns c) @ cc_search_domains c"

definition interface_settings :: "base64 \<Rightarrow> client_config \<Rightarrow> (string \<times> string) list" where
  "interface_settings b64 c =
     [(''Address'', str_join '', '' (map show_cidr (cc_addresses c))),
      (''PrivateKey'', secret_to_base64 b64 (cc_private_key c))] @
     opt_setting ''DNS'' (if dns_texts c = [] then None else Some (str_join '', '' (dns_texts c))) @
     opt_setting ''MTU'' (map_option (\<lambda>m. show_nat (unat m)) (cc_mtu c))"

definition peer_settings :: "base64 \<Rightarrow> client_config \<Rightarrow> sockaddr \<Rightarrow> (string \<times> string) list" where
  "peer_settings b64 c endpoint =
     [(''PublicKey'', public_to_base64 b64 (cc_peer_public_key c))] @
     opt_setting ''PresharedKey'' (map_option (secret_to_base64 b64) (cc_preshared_key c)) @
     [(''Endpoint'', show_sockaddr endpoint),
      (''AllowedIPs'', str_join '', '' (map show_cidr (cc_allowed_ips c)))] @
     opt_setting ''PersistentKeepalive'' (map_option (\<lambda>k. show_nat (unat k)) (cc_persistent_keepalive c))"

lemma to_conf_lines:
  "to_conf b64 c endpoint = concat (map (\<lambda>l. l @ eol)
     ([''[Interface]''] @ map setting_line (interface_settings b64 c) @ [[], ''[Peer]''] @
      map setting_line (peer_settings b64 c endpoint)))"
  unfolding to_conf_def interface_settings_def peer_settings_def Let_def dns_texts_def [symmetric]
  by (cases "dns_texts c = []"; cases "cc_mtu c"; cases "cc_preshared_key c";
      cases "cc_persistent_keepalive c")
    (simp_all add: opt_setting_def setting_line_def)

lemma show_sockaddr_item: "item (show_sockaddr a)"
proof -
  have p: "item_char (CHR '':'')" "item_char (CHR ''['')" "item_char (CHR '']'')"
    by (simp_all add: item_char_def graph_char_def)
  have "\<forall>c\<in>set (show_sockaddr a). item_char c"
    using p item_mem [OF show_ip_item, of _ "sa_ip a"] item_mem [OF show_nat_item]
    by (cases "sa_ip a") (auto simp: show_sockaddr_def)
  moreover have "show_sockaddr a \<noteq> []" by (cases "sa_ip a") (simp_all add: show_sockaddr_def)
  ultimately show ?thesis by (simp add: item_def)
qed

lemma encode_item:
  assumes "base64_ok b64" and "length bs = KEY_LEN"
  shows "item (b64_encode b64 bs)"
proof -
  have "bs \<noteq> []" using assms(2) by (auto simp: KEY_LEN_def)
  then show ?thesis
    using assms(1) unfolding base64_ok_def item_def b64_char_def item_char_def by blast
qed

lemma dns_texts_items: "conf_ok c \<Longrightarrow> \<forall>i\<in>set (dns_texts c). item i"
  by (auto simp: conf_ok_def dns_texts_def show_ip_item)

lemma cidrs_val: "cs \<noteq> [] \<Longrightarrow> val_part (str_join '', '' (map show_cidr cs))"
  by (rule joined_val) (auto simp: show_cidr_item)

lemma key_parts:
  "key_part ''Address''" "key_part ''PrivateKey''" "key_part ''DNS''" "key_part ''MTU''"
  "key_part ''PublicKey''" "key_part ''PresharedKey''" "key_part ''Endpoint''"
  "key_part ''AllowedIPs''" "key_part ''PersistentKeepalive''"
  by (simp_all add: key_part_def item_def item_char_def graph_char_def)

lemma opt_setting_ok: "key_part k \<Longrightarrow> (\<And>x. v = Some x \<Longrightarrow> val_part x) \<Longrightarrow>
    \<forall>kv\<in>set (opt_setting k v). setting_ok kv"
  by (auto simp: opt_setting_def setting_ok_def split: option.splits)

lemma settings_all_ok:
  assumes "base64_ok b64" and "conf_ok c"
  shows "\<forall>kv\<in>set (interface_settings b64 c). setting_ok kv"
    and "\<forall>kv\<in>set (peer_settings b64 c endpoint). setting_ok kv"
proof -
  have keys: "val_part (secret_to_base64 b64 (cc_private_key c))"
      "val_part (public_to_base64 b64 (cc_peer_public_key c))"
      "cc_preshared_key c = Some k \<Longrightarrow> val_part (secret_to_base64 b64 k)" for k
    using assms encode_item item_val
    by (auto simp: conf_ok_def secret_to_base64_def public_to_base64_def)
  have lists: "val_part (str_join '', '' (map show_cidr (cc_addresses c)))"
      "val_part (str_join '', '' (map show_cidr (cc_allowed_ips c)))"
      "dns_texts c \<noteq> [] \<Longrightarrow> val_part (str_join '', '' (dns_texts c))"
    using assms(2) cidrs_val joined_val [OF dns_texts_items [OF assms(2)]] by (auto simp: conf_ok_def)
  have ep: "val_part (show_sockaddr endpoint)" "val_part (show_nat n)" for n
    by (rule item_val, rule show_sockaddr_item, rule item_val, rule show_nat_item)
  show "\<forall>kv\<in>set (interface_settings b64 c). setting_ok kv"
    unfolding interface_settings_def set_append ball_Un
    by (intro conjI opt_setting_ok key_parts)
      (use keys lists ep in \<open>auto simp: setting_ok_def key_parts split: if_splits\<close>)
  show "\<forall>kv\<in>set (peer_settings b64 c endpoint). setting_ok kv"
    unfolding peer_settings_def set_append ball_Un
    by (intro conjI opt_setting_ok key_parts)
      (use keys lists ep in \<open>auto simp: setting_ok_def key_parts split: if_splits\<close>)
qed

text \<open>The parse of the rendered lines, up to the assembly of the two sections.\<close>

lemma parse_headers:
  "parse_line bad n ''[Interface]'' st = Inr (st\<lparr>ps_current := InInterface\<rparr>)"
  "parse_line bad n ''[Peer]'' st = Inr (st\<lparr>ps_peers := ps_peers st @ [[]], ps_current := InPeer\<rparr>)"
  "parse_line bad n [] st = Inr st"
proof -
  have "trim (strip_comment ''[Interface]'') = ''[Interface]''" "bracketed ''[Interface]'' = Some ''Interface''"
      "to_ascii_lowercase (trim ''Interface'') = ''interface''"
      "trim (strip_comment ''[Peer]'') = ''[Peer]''" "bracketed ''[Peer]'' = Some ''Peer''"
      "to_ascii_lowercase (trim ''Peer'') = ''peer''" "trim (strip_comment []) = []"
    by code_simp+
  then show "parse_line bad n ''[Interface]'' st = Inr (st\<lparr>ps_current := InInterface\<rparr>)"
      "parse_line bad n ''[Peer]'' st = Inr (st\<lparr>ps_peers := ps_peers st @ [[]], ps_current := InPeer\<rparr>)"
      "parse_line bad n [] st = Inr st"
    by (simp_all add: parse_line_def Let_def)
qed

lemma parse_rendered:
  assumes "base64_ok b64" and "conf_ok c"
  shows "\<exists>m. parse_lines bad 0 (str_lines (to_conf b64 c endpoint)) parse_init =
    Inr \<lparr>ps_interface = entries 1 (interface_settings b64 c),
         ps_peers = [entries m (peer_settings b64 c endpoint)], ps_current = InPeer\<rparr>"
proof -
  note ok = settings_all_ok [OF assms]
  define ls where "ls = [''[Interface]''] @ map setting_line (interface_settings b64 c) @ [[], ''[Peer]''] @
      map setting_line (peer_settings b64 c endpoint)"
  have "\<forall>l\<in>set ls. line_ok l"
    using ok setting_line_props(7) unfolding ls_def by (auto simp: line_ok_def [of "[]"] line_ok_def [of "_ # _"])
  then have "str_lines (to_conf b64 c endpoint) = ls"
    unfolding to_conf_lines ls_def [symmetric] by (rule str_lines_concat)
  then show ?thesis
    using parse_interface_lines [OF ok(1), of "parse_init\<lparr>ps_current := InInterface\<rparr>" bad 1]
      parse_peer_lines [OF ok(2)]
    by (simp add: ls_def parse_headers parse_lines_append parse_init_def) blast
qed

text \<open>Looking the settings up again.\<close>

lemma lower_keys:
  "to_ascii_lowercase ''Address'' = ''address''" "to_ascii_lowercase ''PrivateKey'' = ''privatekey''"
  "to_ascii_lowercase ''DNS'' = ''dns''" "to_ascii_lowercase ''MTU'' = ''mtu''"
  "to_ascii_lowercase ''PublicKey'' = ''publickey''"
  "to_ascii_lowercase ''PresharedKey'' = ''presharedkey''"
  "to_ascii_lowercase ''Endpoint'' = ''endpoint''" "to_ascii_lowercase ''AllowedIPs'' = ''allowedips''"
  "to_ascii_lowercase ''PersistentKeepalive'' = ''persistentkeepalive''"
  by code_simp+

lemmas lookup_simps = section_get_def section_get_all_def opt_setting_def lower_keys

lemma interface_lookup:
  fixes n b64 c
  defines "sec \<equiv> entries n (interface_settings b64 c)"
  shows "\<exists>l. section_get sec ''privatekey'' = Some (secret_to_base64 b64 (cc_private_key c), l)"
    and "\<exists>l. section_get_all sec ''address'' = [(str_join '', '' (map show_cidr (cc_addresses c)), l)]"
    and "\<exists>l. section_get_all sec ''dns'' =
      (if dns_texts c = [] then [] else [(str_join '', '' (dns_texts c), l)])"
    and "\<exists>l. section_get sec ''mtu'' = map_option (\<lambda>m. (show_nat (unat m), l)) (cc_mtu c)"
  by (cases "dns_texts c = []"; cases "cc_mtu c";
      simp add: sec_def interface_settings_def lookup_simps)+

lemma peer_lookup:
  fixes n b64 c endpoint
  defines "sec \<equiv> entries n (peer_settings b64 c endpoint)"
  shows "\<exists>l. section_get sec ''publickey'' = Some (public_to_base64 b64 (cc_peer_public_key c), l)"
    and "\<exists>l. section_get sec ''presharedkey'' =
      map_option (\<lambda>k. (secret_to_base64 b64 k, l)) (cc_preshared_key c)"
    and "\<exists>l. section_get_all sec ''allowedips'' =
      [(str_join '', '' (map show_cidr (cc_allowed_ips c)), l)]"
    and "\<exists>l. section_get sec ''persistentkeepalive'' =
      map_option (\<lambda>k. (show_nat (unat k), l)) (cc_persistent_keepalive c)"
  by (cases "cc_preshared_key c"; cases "cc_persistent_keepalive c";
      simp add: sec_def peer_settings_def lookup_simps)+

lemma secret_round [round_trips]: "base64_ok b64 \<Longrightarrow> length (secret_expose k) = KEY_LEN \<Longrightarrow>
    secret_from_base64 b64 (secret_to_base64 b64 k) = Inr k"
  by (cases k) (simp add: secret_from_base64_def secret_to_base64_def key_decode_encode)

lemma public_round [round_trips]: "base64_ok b64 \<Longrightarrow> length (public_bytes k) = KEY_LEN \<Longrightarrow>
    public_from_base64 b64 (public_to_base64 b64 k) = Inr k"
  by (cases k) (simp add: public_from_base64_def public_to_base64_def key_decode_encode)

lemma parse_list_round:
  assumes "\<exists>l. section_get_all sec key = [(str_join '', '' (map show_cidr cs), l)]"
    and "\<forall>c\<in>set cs. cidr_ok c" and "cs \<noteq> []"
  shows "parse_list sec key display bad = Inr cs"
  using assms parse_joined_cidrs [OF assms(2,3)] by (auto simp: parse_list_def)

lemma parse_scalar_round:
  fixes v :: "'a::len word option"
  assumes "\<exists>l. section_get sec key = map_option (\<lambda>m. (show_nat (unat m), l)) v"
    and "bound = 2 ^ LENGTH('a)"
  shows "parse_scalar bound sec key display bad = Inr v"
proof (cases v)
  case None
  then show ?thesis using assms(1) by (auto simp: parse_scalar_def)
next
  case (Some m)
  have "unat m < bound" using unsigned_less [of m] assms(2) by simp
  then show ?thesis using assms(1) Some by (auto simp: parse_scalar_def round_trips)
qed

lemma dns_round:
  assumes "\<exists>l. section_get_all sec ''dns'' = (if dns_texts c = [] then [] else [(str_join '', '' (dns_texts c), l)])"
    and "conf_ok c"
  shows "dns_ips (dns_items sec) = cc_dns c" and "dns_domains (dns_items sec) = cc_search_domains c"
proof -
  note items = dns_texts_items [OF assms(2)]
  have "filter (\<lambda>i. i \<noteq> []) (dns_texts c) = dns_texts c"
    using items item_ends by (auto simp: filter_id_conv)
  then have d: "dns_items sec = dns_texts c"
    using assms(1) split_join_items [OF items] by (auto simp: dns_items_def)
  have none: "\<forall>d\<in>set (cc_search_domains c). parse_ip d = None"
    using assms(2) by (auto simp: conf_ok_def)
  show "dns_ips (dns_items sec) = cc_dns c" "dns_domains (dns_items sec) = cc_search_domains c"
    using ip_text.read_mixed [OF none] by (simp_all add: d dns_ips_def dns_domains_def dns_texts_def)
qed

lemma wg_parse_to_conf:
  assumes b: "base64_ok b64" and c: "conf_ok c"
  shows "wg_parse b64 (to_conf b64 c endpoint) path = Inr c"
proof -
  define i where "i = entries 1 (interface_settings b64 c)"
  obtain m where m: "parse_lines (WgConf path) 0 (str_lines (to_conf b64 c endpoint)) parse_init =
      Inr \<lparr>ps_interface = i, ps_peers = [entries m (peer_settings b64 c endpoint)], ps_current = InPeer\<rparr>"
    using parse_rendered [OF b c] i_def by blast
  define p where "p = entries m (peer_settings b64 c endpoint)"
  note il = interface_lookup [of 1 b64 c, folded i_def]
  note pl = peer_lookup [of m b64 c endpoint, folded p_def]
  have keys: "secret_from_base64 b64 (secret_to_base64 b64 (cc_private_key c)) = Inr (cc_private_key c)"
      "public_from_base64 b64 (public_to_base64 b64 (cc_peer_public_key c)) = Inr (cc_peer_public_key c)"
      "cc_preshared_key c = Some k \<Longrightarrow> secret_from_base64 b64 (secret_to_base64 b64 k) = Inr k" for k
    using c b by (auto simp: conf_ok_def round_trips)
  have lists: "parse_list i ''address'' ''Address'' (WgConf path) = Inr (cc_addresses c)"
      "parse_list p ''allowedips'' ''AllowedIPs'' (WgConf path) = Inr (cc_allowed_ips c)"
    using c by (auto simp: conf_ok_def intro: parse_list_round [OF il(2)] parse_list_round [OF pl(3)])
  have scalars: "parse_scalar (2 ^ 32) i ''mtu'' ''MTU'' (WgConf path) = Inr (cc_mtu c)"
      "parse_scalar (2 ^ 16) p ''persistentkeepalive'' ''PersistentKeepalive'' (WgConf path) =
        Inr (cc_persistent_keepalive c)"
    by (auto intro: parse_scalar_round [OF il(4)] parse_scalar_round [OF pl(4)])
  obtain l1 l2 l3 where
      l: "section_get i ''privatekey'' = Some (secret_to_base64 b64 (cc_private_key c), l1)"
        "section_get p ''publickey'' = Some (public_to_base64 b64 (cc_peer_public_key c), l2)"
        "section_get p ''presharedkey'' = map_option (\<lambda>k. (secret_to_base64 b64 k, l3)) (cc_preshared_key c)"
    using il(1) pl(1,2) by blast
  have ne: "cc_addresses c \<noteq> []" "cc_allowed_ips c \<noteq> []" using c by (simp_all add: conf_ok_def)
  have psk: "(case section_get p ''presharedkey'' of
      None \<Rightarrow> Inr None
    | Some (raw, lineno) \<Rightarrow>
        map_sum (\<lambda>e. WgConf path (BadPresharedKey lineno e)) Some (secret_from_base64 b64 raw)) =
      Inr (cc_preshared_key c)"
    using l(3) keys(3) by (cases "cc_preshared_key c") auto
  have "assemble b64 (WgConf path) \<lparr>ps_interface = i, ps_peers = [p], ps_current = InPeer\<rparr> = Inr c"
    unfolding assemble_def using keys(1,2) lists scalars l(1,2) ne psk dns_round [OF il(3) c]
    by simp
  then show ?thesis using m by (simp add: wg_parse_def p_def)
qed

section \<open>Properties\<close>

lemma parse_cidr_ok: "parse_cidr s = Inr c \<Longrightarrow> cidr_ok c"
  by (auto simp: parse_cidr_def Let_def cidr_ok_def split: prod.splits option.splits if_splits)

text \<open>An address with a prefix length that fits its family is read back from
its printed form, and whatever the parser accepts is such an address.\<close>

lemma cidr_round_trip: "cidr_ok c \<longleftrightarrow> (\<exists>s. parse_cidr s = Inr c) \<and> parse_cidr (show_cidr c) = Inr c"
  using parse_cidr_show_cidr parse_cidr_ok by blast

text \<open>C16: rendering credentials as a WireGuard configuration for any server and
parsing the text again gives the same credentials: keys, addresses, nameservers and search
domains told apart again, MTU, allowed ranges and keepalive.\<close>

theorem conf_round_trip:
  assumes "base64_ok b64" and "conf_ok c"
  shows "wg_parse b64 (for_server b64 c s port) path = Inr c"
  unfolding for_server_def by (rule wg_parse_to_conf [OF assms])

lemma sample_domain: "item ''lan''" "parse_ip ''lan'' = None"
proof -
  show "item ''lan''" by (simp add: item_def item_char_def graph_char_def)
  have "parse_v4 ''lan'' = None" by (simp add: parse_v4_def parse_octet_def digit_val_def)
  moreover from this have "parse_v6 ''lan'' = None"
    by (simp add: parse_v6_def group_pieces_def parse_group_def hex_val_def)
  ultimately show "parse_ip ''lan'' = None" by (simp add: parse_ip_def)
qed

theorem conf_round_trip_witness:
  "wg_parse sample_engine (for_server sample_engine sample_client sample_server WG_PORT) ''x.conf''
     = Inr sample_client"
  by (rule conf_round_trip [OF sample_engine_ok])
    (simp add: conf_ok_def sample_client_def KEY_LEN_def cidr_ok_def max_prefix_def sample_domain)

text \<open>What a parse guarantees of its result.\<close>

lemma parse_items_ok: "parse_items bad d n xs = Inr cs \<Longrightarrow> \<forall>c\<in>set cs. cidr_ok c"
proof (induction xs arbitrary: cs)
  case (Cons x xs)
  show ?case
  proof (cases "trim x = []")
    case True
    then show ?thesis using Cons by simp
  next
    case False
    then obtain c cs' where "parse_cidr (trim x) = Inr c" "parse_items bad d n xs = Inr cs'" "cs = c # cs'"
      using Cons.prems by (cases "parse_items bad d n xs") (auto simp: Let_def split: sum.splits)
    then show ?thesis using Cons.IH parse_cidr_ok by auto
  qed
qed simp

lemma parse_values_ok: "parse_values bad d vs = Inr cs \<Longrightarrow> \<forall>c\<in>set cs. cidr_ok c"
proof (induction vs arbitrary: cs)
  case (Cons v vs)
  obtain val n where v: "v = (val, n)" by fastforce
  then obtain c1 c2 where "parse_items bad d n (split_on (CHR '','') val) = Inr c1"
      "parse_values bad d vs = Inr c2" "cs = c1 @ c2"
    using Cons.prems by (cases "parse_values bad d vs") (auto split: sum.splits)
  then show ?case using Cons.IH parse_items_ok by fastforce
qed simp

lemma key_decode_length: "key_decode b64 s = Inr bs \<Longrightarrow> length bs = KEY_LEN"
  by (auto simp: key_decode_def split: option.splits if_splits)

lemma secret_length: "secret_from_base64 b64 s = Inr k \<Longrightarrow> length (secret_expose k) = KEY_LEN"
  by (cases "key_decode b64 s") (auto simp: secret_from_base64_def dest: key_decode_length)

lemma public_length: "public_from_base64 b64 s = Inr k \<Longrightarrow> length (public_bytes k) = KEY_LEN"
  by (cases "key_decode b64 s") (auto simp: public_from_base64_def dest: key_decode_length)

definition credentials_ok :: "client_config \<Rightarrow> bool" where
  "credentials_ok c \<longleftrightarrow>
     length (secret_expose (cc_private_key c)) = KEY_LEN \<and>
     length (public_bytes (cc_peer_public_key c)) = KEY_LEN \<and>
     (\<forall>k. cc_preshared_key c = Some k \<longrightarrow> length (secret_expose k) = KEY_LEN) \<and>
     cc_addresses c \<noteq> [] \<and> (\<forall>a\<in>set (cc_addresses c). cidr_ok a) \<and>
     cc_allowed_ips c \<noteq> [] \<and> (\<forall>a\<in>set (cc_allowed_ips c). cidr_ok a)"

lemma default_allowed_ok: "default_allowed \<noteq> [] \<and> (\<forall>a\<in>set default_allowed. cidr_ok a)"
  by (simp add: default_allowed_def cidr_ok_def)

lemma map_sum_Inr: "map_sum f g x = Inr y \<longleftrightarrow> (\<exists>z. x = Inr z \<and> y = g z)"
  by (cases x) auto

lemma assemble_ok: "assemble b64 bad st = Inr c \<Longrightarrow> credentials_ok c"
  unfolding assemble_def credentials_ok_def parse_list_def
  by (auto split: list.splits option.splits prod.splits sum.splits if_splits
      dest: secret_length public_length parse_values_ok
      simp: default_allowed_ok map_sum_Inr)

lemma wg_parse_ok: "wg_parse b64 txt path = Inr c \<Longrightarrow> credentials_ok c"
  by (auto simp: wg_parse_def split: sum.splits dest: assemble_ok)

text \<open>C35: whatever text is imported, a parse that succeeds yields keys of 32
bytes, at least one tunnel address and at least one allowed range, every prefix length
fitting its address family.\<close>

theorem parsed_conf_is_usable:
  assumes "wg_parse b64 txt path = Inr c"
  shows "credentials_ok c"
  by (rule wg_parse_ok [OF assms])

theorem parsed_conf_is_usable_witness: "credentials_ok sample_client"
proof (rule parsed_conf_is_usable)
  show "wg_parse sample_engine (to_conf sample_engine sample_client (wg_endpoint sample_server WG_PORT))
      ''x.conf'' = Inr sample_client"
    by (rule wg_parse_to_conf [OF sample_engine_ok])
      (simp add: conf_ok_def sample_client_def KEY_LEN_def cidr_ok_def max_prefix_def sample_domain)
qed

end
