(* ===== verification/Sockaddr_Text.thy ===== *)
theory Sockaddr_Text
  imports Render
begin

text \<open>
  The text of socket addresses, which is read back from \<^verbatim>\<open>wg\<close>'s output on Windows and from the
  protocol's messages, and that printing one and reading it gives it back.
\<close>

section \<open>Reading\<close>

text \<open>
  \<^verbatim>\<open>SocketAddr::from_str\<close>: an IPv4 address or a bracketed IPv6 address, a colon and a
  decimal port without sign. No scope identifier is read.
\<close>

definition parse_port :: "string \<Rightarrow> u16 option" where
  "parse_port s =
     (if s = [] then None
      else (case read_digits 0 s of
              None \<Rightarrow> None
            | Some n \<Rightarrow> if n < 65536 then Some (of_nat n) else None))"

definition parse_sockaddr :: "string \<Rightarrow> sockaddr option" where
  "parse_sockaddr s =
     (case s of
        [] \<Rightarrow> None
      | c # r \<Rightarrow>
          if c = CHR ''[''
          then (case split_once (\<lambda>x. x = CHR '']'') r of
                  Some (a, d # p) \<Rightarrow>
                    (if d = CHR '':''
                     then (case (parse_v6 a, parse_port p) of
                             (Some v, Some n) \<Rightarrow> Some (mk_sockaddr (V6 v) n)
                           | _ \<Rightarrow> None)
                     else None)
                | _ \<Rightarrow> None)
          else (case split_once (\<lambda>x. x = CHR '':'') s of
                  Some (a, p) \<Rightarrow>
                    (case (parse_v4 a, parse_port p) of
                       (Some v, Some n) \<Rightarrow> Some (mk_sockaddr (V4 v) n)
                     | _ \<Rightarrow> None)
                | None \<Rightarrow> None))"

section \<open>Lemmas\<close>

definition ip_char :: "char \<Rightarrow> bool" where
  "ip_char c \<longleftrightarrow> hex_val c \<noteq> None \<or> c = CHR '':'' \<or> c = CHR ''.''"

lemma digit_ip_char: "is_digit_char c \<Longrightarrow> ip_char c"
  by (auto simp: is_digit_char_def ip_char_def hex_val_def)

lemma show_hex_ip_char: "c \<in> set (show_hex n) \<Longrightarrow> ip_char c"
proof (induction n rule: show_hex.induct)
  case (1 n)
  have "ip_char (hex_char k)" if "k < 16" for k using that by (simp add: ip_char_def)
  then show ?case using 1 by (cases "n < 16") (auto simp: show_hex.simps [of n])
qed

lemma show_v4_ip_char: "c \<in> set (show_v4 w) \<Longrightarrow> ip_char c"
  using set_str_join [of "''.''" "map show_nat (octets w)"] digit_ip_char set_show_nat
  by (auto simp: show_v4_def ip_char_def)

lemma show_groups_ip_char: "c \<in> set (show_groups gs) \<Longrightarrow> ip_char c"
  using set_str_join [of "'':''" "map show_hex gs"] show_hex_ip_char
  by (auto simp: show_groups_def ip_char_def)

lemma show_v6_ip_char: "c \<in> set (show_v6 w) \<Longrightarrow> ip_char c"
proof -
  have p: "ip_char (CHR '':'')" "ip_char (CHR ''f'')" by (simp_all add: ip_char_def hex_val_def)
  show "c \<in> set (show_v6 w) \<Longrightarrow> ip_char c"
    by (auto simp: show_v6_def Let_def p split: if_splits prod.splits
        dest: show_v4_ip_char show_groups_ip_char)
qed

lemma brackets_not_ip_char: "\<not> ip_char (CHR ''['')" "\<not> ip_char (CHR '']'')"
  by (simp_all add: ip_char_def hex_val_def)

lemma parse_port_show: "parse_port (show_nat (unat p)) = Some p" for p :: u16
proof -
  have "unat p < 65536" using unsigned_less [of p] by simp
  then show ?thesis by (simp add: parse_port_def read_digits_show_nat)
qed

lemma parse_sockaddr_show [round_trips]: "parse_sockaddr (show_sockaddr a) = Some a"
proof (cases "sa_ip a")
  case (V4 v)
  have "split_once (\<lambda>c. c = CHR '':'') (show_v4 v @ CHR '':'' # show_nat (unat (sa_port a)))
      = Some (show_v4 v, show_nat (unat (sa_port a)))"
    using parse_v4_no_colon [OF parse_v4_show_v4 [of v]] by (intro split_once_first) auto
  moreover have "\<exists>c r. show_v4 v = c # r \<and> c \<noteq> CHR ''[''"
    using show_ip_not_Nil [of "V4 v"] show_v4_ip_char [of _ v] brackets_not_ip_char(1)
    by (cases "show_v4 v") auto
  moreover obtain c r where "show_v4 v = c # r" "c \<noteq> CHR ''[''" using calculation(2) by blast
  ultimately show ?thesis
    using V4 parse_v4_show_v4 [of v]
    by (cases a) (auto simp: parse_sockaddr_def show_sockaddr_def parse_port_show mk_sockaddr_def
        simp del: split_once.simps)
next
  case (V6 v)
  have "split_once (\<lambda>c. c = CHR '']'') (show_v6 v @ CHR '']'' # CHR '':'' # show_nat (unat (sa_port a)))
      = Some (show_v6 v, CHR '':'' # show_nat (unat (sa_port a)))"
    using show_v6_ip_char [of _ v] brackets_not_ip_char(2) by (intro split_once_first) auto
  then show ?thesis
    using V6 by (cases a) (auto simp: parse_sockaddr_def show_sockaddr_def parse_port_show
        parse_v6_show_v6 mk_sockaddr_def)
qed

interpretation sockaddr_text: text_codec show_sockaddr parse_sockaddr
  by unfold_locales (rule parse_sockaddr_show)

end
