(* ===== verification/Win_Tunnel.thy ===== *)
theory Win_Tunnel
  imports Win_Killswitch Sockaddr_Text
begin

text \<open>
  \<^verbatim>\<open>vpnmgr-tunnel/src/windows.rs\<close>: the Windows backend, which drives the WireGuard tunnel
  service through \<^verbatim>\<open>wireguard.exe\<close> and \<^verbatim>\<open>wg.exe\<close> on the calls of \<open>Win_Sys\<close>. The lemmas say
  what a connect, a switch and a disconnect leave in the trace, and that the configuration on
  disk follows the tunnel.
\<close>

section \<open>Running programs\<close>

record command_error =
  ce_program :: string
  ce_status :: "int option"
  ce_stderr :: string

definition ce_denied :: "command_error \<Rightarrow> bool" where
  "ce_denied e \<longleftrightarrow>
     (let s = to_ascii_lowercase (ce_stderr e) in
      str_contains s ''access is denied'' \<or> str_contains s ''administrator'' \<or>
      str_contains s ''elevat'' \<or> ce_status e = Some 5)"

definition show_command_error :: "command_error \<Rightarrow> string" where
  "show_command_error e =
     ce_program e @
     (case ce_status e of Some c \<Rightarrow> '' exited '' @ show_int c | None \<Rightarrow> '' did not run'') @
     (if trim (ce_stderr e) \<noteq> [] then '': '' @ trim (ce_stderr e) else [])"

definition run_result :: "string \<Rightarrow> win_out \<Rightarrow> command_error + string" where
  "run_result program r =
     (case r of
        WSpawn e \<Rightarrow> Inl \<lparr>ce_program = program, ce_status = None, ce_stderr = e\<rparr>
      | WExit ok code out err \<Rightarrow>
          if \<not> ok then Inl \<lparr>ce_program = program, ce_status = code, ce_stderr = err\<rparr>
          else Inr out)"

text \<open>\<^verbatim>\<open>run\<close>, for a command and for a query.\<close>

definition wrun :: "'w win \<Rightarrow> string \<Rightarrow> string list \<Rightarrow> 'w wsys \<Rightarrow> (command_error + string) \<times> 'w wsys"
where
  "wrun os program args s =
     (case wcommand os program args s of (r, s1) \<Rightarrow> (run_result program r, s1))"

definition wask :: "'w win \<Rightarrow> string \<Rightarrow> string list \<Rightarrow> 'w wsys \<Rightarrow> (command_error + string) \<times> 'w wsys"
where
  "wask os program args s =
     (case wquery os program args s of (r, s1) \<Rightarrow> (run_result program r, s1))"

section \<open>State\<close>

definition INSTALL_DIR :: string where
  "INSTALL_DIR = ''C:'' @ backslash @ ''Program Files'' @ backslash @ ''WireGuard''"

definition config_dir :: "'w win \<Rightarrow> string" where
  "config_dir os = win_join (data_dir os) ''vpnmgr''"

definition wireguard_exe :: string where "wireguard_exe = win_join INSTALL_DIR ''wireguard.exe''"
definition wg_exe :: string where "wg_exe = win_join INSTALL_DIR ''wg.exe''"

record win_tunnel =
  wt_interface :: string
  wt_conf_path :: string
  wt_installed :: bool
  wt_bypass_plan :: "route list"
  wt_bypass :: "route list" \<comment> \<open>the routes \<^verbatim>\<open>Bypass\<close> has installed\<close>
  wt_killswitch :: "win_killswitch option"

definition wt_new :: "'w win \<Rightarrow> string \<Rightarrow> 'w wsys \<Rightarrow> (tunnel_error + win_tunnel) \<times> 'w wsys" where
  "wt_new os interface s =
     (if \<not> wn_exists os wireguard_exe (ws_world s)
      then (Inl (Wireguard ''locating wireguard.exe'' interface
              (wireguard_exe @ '' not found. Install WireGuard for Windows '' @
               ''(winget install WireGuard.WireGuard)'')), s)
      else (Inr \<lparr>wt_interface = interface,
                 wt_conf_path = win_join (config_dir os) (interface @ ''.conf''),
                 wt_installed = False, wt_bypass_plan = [], wt_bypass = [],
                 wt_killswitch = None\<rparr>, s))"

definition wt_with_bypass :: "route list \<Rightarrow> win_tunnel \<Rightarrow> win_tunnel" where
  "wt_with_bypass p t = t\<lparr>wt_bypass_plan := p\<rparr>"

definition wt_with_killswitch :: "win_killswitch \<Rightarrow> win_tunnel \<Rightarrow> win_tunnel" where
  "wt_with_killswitch k t = t\<lparr>wt_killswitch := Some k\<rparr>"

definition classify :: "win_tunnel \<Rightarrow> string \<Rightarrow> command_error \<Rightarrow> tunnel_error" where
  "classify t operation e =
     (if ce_denied e then PermissionDenied operation (wt_interface t)
      else Wireguard operation (wt_interface t) (show_command_error e))"

definition service_exists :: "'w win \<Rightarrow> win_tunnel \<Rightarrow> 'w wsys \<Rightarrow> bool \<times> 'w wsys" where
  "service_exists os t s =
     (case wask os wg_exe [''show'', wt_interface t] s of
        (r, s1) \<Rightarrow> ((case r of Inr _ \<Rightarrow> True | Inl _ \<Rightarrow> False), s1))"

definition remove_service :: "'w win \<Rightarrow> win_tunnel \<Rightarrow> 'w wsys \<Rightarrow> (tunnel_error + unit) \<times> 'w wsys" where
  "remove_service os t s =
     (case wrun os wireguard_exe [''/uninstalltunnelservice'', wt_interface t] s of
        (Inl e, s1) \<Rightarrow> (Inl (classify t ''removing the tunnel service'' e), s1)
      | (Inr _, s1) \<Rightarrow> (Inr (), s1))"

section \<open>The configuration on disk\<close>

text \<open>Default routes as two halves.\<close>

definition split_cidr :: "cidr \<Rightarrow> cidr list" where
  "split_cidr c =
     (case c_addr c of
        V4 a \<Rightarrow>
          if c_prefix c = 0 \<and> a = 0
          then [\<lparr>c_addr = V4 0, c_prefix = 1\<rparr>, \<lparr>c_addr = V4 (push_bit 31 1), c_prefix = 1\<rparr>]
          else [c]
      | V6 a \<Rightarrow>
          if c_prefix c = 0 \<and> a = 0
          then [\<lparr>c_addr = V6 0, c_prefix = 1\<rparr>, \<lparr>c_addr = V6 (push_bit 127 1), c_prefix = 1\<rparr>]
          else [c])"

definition split_default_routes :: "client_config \<Rightarrow> client_config" where
  "split_default_routes c = c\<lparr>cc_allowed_ips := concat (map split_cidr (cc_allowed_ips c))\<rparr>"

definition effective_client :: "win_tunnel \<Rightarrow> tunnel_spec \<Rightarrow> client_config" where
  "effective_client t spec =
     (if wt_bypass t = [] then tn_client spec else split_default_routes (tn_client spec))"

definition icacls_args :: "string \<Rightarrow> string list" where
  "icacls_args dir =
     [dir, ''/inheritance:r'', ''/grant:r'', ''*S-1-5-18:(OI)(CI)F'', ''/grant:r'',
      ''*S-1-5-32-544:(OI)(CI)F'']"

text \<open>A refused \<^verbatim>\<open>icacls\<close> is only logged.\<close>

definition write_config :: "'w win \<Rightarrow> win_tunnel \<Rightarrow> tunnel_spec \<Rightarrow> 'w wsys
    \<Rightarrow> (tunnel_error + unit) \<times> 'w wsys" where
  "write_config os t spec s0 =
     (case wmkdir os (config_dir os) s0 of
        (Some e, s1) \<Rightarrow> (Inl (KillswitchErr ''creating the configuration directory'' e), s1)
      | (None, s1) \<Rightarrow>
     (case wrun os ''icacls'' (icacls_args (config_dir os)) s1 of
        (_, s2) \<Rightarrow>
     (case wwrite os (wt_conf_path t)
             (to_conf (wn_b64 os) (effective_client t spec) (tn_endpoint spec)) s2 of
        (Some e, s3) \<Rightarrow> (Inl (KillswitchErr ''writing the tunnel configuration'' e), s3)
      | (None, s3) \<Rightarrow> (Inr (), s3))))"

section \<open>Operations\<close>

definition wt_up :: "'w win \<Rightarrow> win_tunnel \<Rightarrow> tunnel_spec \<Rightarrow> 'w wsys
    \<Rightarrow> (tunnel_error + unit) \<times> win_tunnel \<times> 'w wsys" where
  "wt_up os t spec s0 =
     (case spec_validate spec of
        Inl e \<Rightarrow> (Inl e, t, s0)
      | Inr _ \<Rightarrow>
     (case service_exists os t s0 of
        (stale, s1) \<Rightarrow>
     (let s2 = (if stale then snd (remove_service os t s1) else s1) in
      case win_install os (wt_bypass_plan t) (wt_bypass t) s2 of
        (rs, s3) \<Rightarrow>
     (let t1 = t\<lparr>wt_bypass := rs, wt_bypass_plan := []\<rparr> in
      case write_config os t1 spec s3 of
        (Inl e, s4) \<Rightarrow> (Inl e, t1, s4)
      | (Inr _, s4) \<Rightarrow>
     (case wrun os wireguard_exe [''/installtunnelservice'', wt_conf_path t1] s4 of
        (Inl e, s5) \<Rightarrow> (Inl (classify t1 ''installing the tunnel service'' e), t1, s5)
      | (Inr _, s5) \<Rightarrow>
     (case wt_killswitch t1 of
        None \<Rightarrow> (Inr (), t1\<lparr>wt_installed := True\<rparr>, s5)
      | Some k \<Rightarrow>
          (let k1 = wk_allowing (destinations rs) k in
           case wk_engage os k1 s5 of
             (Inl e, s6) \<Rightarrow> (Inl e, t1\<lparr>wt_killswitch := None\<rparr>, s6)
           | (Inr _, s6) \<Rightarrow>
               (Inr (), t1\<lparr>wt_killswitch := Some k1, wt_installed := True\<rparr>, s6))))))))"

definition wt_switch_endpoint :: "'w win \<Rightarrow> win_tunnel \<Rightarrow> tunnel_spec \<Rightarrow> 'w wsys
    \<Rightarrow> (tunnel_error + unit) \<times> win_tunnel \<times> 'w wsys" where
  "wt_switch_endpoint os t spec s0 =
     (case spec_validate spec of
        Inl e \<Rightarrow> (Inl e, t, s0)
      | Inr _ \<Rightarrow>
     (case wrun os wg_exe
             [''set'', wt_interface t, ''peer'',
              public_to_base64 (wn_b64 os) (cc_peer_public_key (tn_client spec)),
              ''endpoint'', show_sockaddr (tn_endpoint spec)] s0 of
        (Inl e, s1) \<Rightarrow> (Inl (classify t ''retargeting the peer'' e), t, s1)
      | (Inr _, s1) \<Rightarrow>
     (case wrun os wg_exe [''set'', wt_interface t, ''listen-port'', ''0''] s1 of
        (_, s2) \<Rightarrow>
     (case write_config os t spec s2 of (r, s3) \<Rightarrow> (r, t, s3)))))"

definition wt_down :: "'w win \<Rightarrow> win_tunnel \<Rightarrow> 'w wsys
    \<Rightarrow> (tunnel_error + unit) \<times> win_tunnel \<times> 'w wsys" where
  "wt_down os t s0 =
     (case remove_service os t s0 of
        (Inl e, s1) \<Rightarrow> (Inl e, t, s1)
      | (Inr _, s1) \<Rightarrow>
     (case (if wt_killswitch t \<noteq> None then wk_release os s1 else (Inr (), s1)) of
        (Inl e, s2) \<Rightarrow> (Inl e, t, s2)
      | (Inr _, s2) \<Rightarrow>
     (case win_remove os (wt_bypass t) s2 of
        (rs, s3) \<Rightarrow>
          (Inr (), t\<lparr>wt_bypass := rs, wt_installed := False\<rparr>, snd (wunlink os (wt_conf_path t) s3)))))"

text \<open>\<^verbatim>\<open>Drop\<close>: the body, then the drop of the \<^verbatim>\<open>Bypass\<close> field.\<close>

definition wt_drop :: "'w win \<Rightarrow> win_tunnel \<Rightarrow> 'w wsys \<Rightarrow> 'w wsys" where
  "wt_drop os t s =
     (case (if wt_installed t then snd (wt_down os t s) else (t, s)) of
        (t1, s1) \<Rightarrow> snd (win_remove os (wt_bypass t1) s1))"

section \<open>Status\<close>

definition wg_field :: "'w win \<Rightarrow> string \<Rightarrow> string \<Rightarrow> 'w wsys \<Rightarrow> (command_error + string) \<times> 'w wsys"
where
  "wg_field os interface field = wask os wg_exe [''show'', interface, field]"

definition peer_field :: "string \<Rightarrow> nat \<Rightarrow> string option" where
  "peer_field txt n =
     (case str_lines txt of
        [] \<Rightarrow> None
      | line # _ \<Rightarrow>
          (let fields = split_on (CHR 0x09) line in
           if n < length fields
           then (let s = trim (fields ! n) in
                 if s \<noteq> [] \<and> s \<noteq> ''(none)'' then Some s else None)
           else None))"

definition counter :: "string \<Rightarrow> nat \<Rightarrow> u64" where
  "counter txt n =
     (case Option.bind (peer_field txt n) (parse_unsigned (2 ^ 64)) of
        Some k \<Rightarrow> of_nat k
      | None \<Rightarrow> 0)"

definition answer_of :: "command_error + string \<Rightarrow> string option" where
  "answer_of r = (case r of Inl _ \<Rightarrow> None | Inr txt \<Rightarrow> Some txt)"

text \<open>
  Four queries; an absent interface is a state. A handshake is in seconds since the epoch,
  zero standing for none. (\<^verbatim>\<open>UNIX_EPOCH + secs\<close> overflows only past the year 30000.)
\<close>

definition wt_status :: "'w win \<Rightarrow> win_tunnel \<Rightarrow> 'w wsys \<Rightarrow> (tunnel_error + tunnel_status) \<times> 'w wsys"
where
  "wt_status os t s0 =
     (let interface = wt_interface t in
      case wg_field os interface ''listen-port'' s0 of
        (Inl _, s1) \<Rightarrow>
          (Inr \<lparr>tst_interface = interface, tst_up = False, tst_endpoint = None,
                tst_last_handshake = None, tst_tx_bytes = 0, tst_rx_bytes = 0,
                tst_listen_port = 0, tst_fwmark = None\<rparr>, s1)
      | (Inr listen_port, s1) \<Rightarrow>
     (case wg_field os interface ''endpoints'' s1 of
        (endpoints, s2) \<Rightarrow>
     (case wg_field os interface ''latest-handshakes'' s2 of
        (handshakes, s3) \<Rightarrow>
     (case wg_field os interface ''transfer'' s3 of
        (r4, s4) \<Rightarrow>
     (let transfer = (case r4 of Inr x \<Rightarrow> x | Inl _ \<Rightarrow> []) in
      (Inr \<lparr>tst_interface = interface, tst_up = True,
            tst_endpoint =
              Option.bind (Option.bind (answer_of endpoints) (\<lambda>x. peer_field x 1)) parse_sockaddr,
            tst_last_handshake =
              (case Option.bind (Option.bind (answer_of handshakes) (\<lambda>x. peer_field x 1))
                      (parse_unsigned (2 ^ 64)) of
                 Some secs \<Rightarrow> if 0 < secs then Some (from_secs secs) else None
               | None \<Rightarrow> None),
            tst_tx_bytes = counter transfer 2,
            tst_rx_bytes = counter transfer 1,
            tst_listen_port =
              (case parse_unsigned (2 ^ 16) (trim listen_port) of Some n \<Rightarrow> of_nat n | None \<Rightarrow> 0),
            tst_fwmark = None\<rparr>, s4))))))"

section \<open>Lemmas\<close>

subsection \<open>Splitting keeps the addresses\<close>

definition carried :: "client_config \<Rightarrow> ipaddr \<Rightarrow> bool" where
  "carried c a \<longleftrightarrow> (\<exists>k\<in>set (cc_allowed_ips c). in_prefix (c_addr k) (unat (c_prefix k)) a)"

lemma drop_top_bit:
  fixes w :: "('a::len) word"
  assumes "LENGTH('a) = Suc n"
  shows "drop_bit n w = 0 \<or> drop_bit n w = 1"
proof -
  have "unat w < 2 ^ Suc n" using unsigned_less [of w, where ?'a = nat] assms by simp
  then have "unat w div 2 ^ n < 2" by (simp add: div_less_iff_less_mult)
  then have "unat (drop_bit n w) < 2" by (simp add: unat_drop_bit_eq drop_bit_nat_def)
  then consider "unat (drop_bit n w) = 0" | "unat (drop_bit n w) = 1" by linarith
  then show ?thesis by cases (simp_all add: word_unat_eq_iff)
qed

lemma split_cidr_covers:
  "(\<exists>k\<in>set (split_cidr c). in_prefix (c_addr k) (unat (c_prefix k)) a) \<longleftrightarrow>
     in_prefix (c_addr c) (unat (c_prefix c)) a"
proof (cases "split_cidr c = [c]")
  case False
  have h4: "drop_bit 31 (push_bit 31 1 :: 32 word) = 1" by (rule word_unat_eq_iff [THEN iffD2]) simp
  have h6: "drop_bit 127 (push_bit 127 1 :: 128 word) = 1" by (rule word_unat_eq_iff [THEN iffD2]) simp
  have 1: "unat (c_prefix c) = 0" using False by (auto simp: split_cidr_def split: ipaddr.splits if_splits)
  have d: "drop_bit 32 w = 0" "drop_bit 128 v = 0" for w :: "32 word" and v :: "128 word"
    using drop_bit_all [of w] drop_bit_all [of v] by simp_all
  show ?thesis
    using False 1 drop_top_bit [where 'a = 32 and n = 31] drop_top_bit [where 'a = 128 and n = 127] h4 h6
    by (cases a) (auto simp: split_cidr_def d split: ipaddr.splits if_splits)
qed simp

lemma split_carried: "carried (split_default_routes c) a = carried c a"
  using split_cidr_covers by (fastforce simp: carried_def split_default_routes_def)

lemma split_cidr_ok: "cidr_ok c \<Longrightarrow> \<forall>k\<in>set (split_cidr c). cidr_ok k"
  by (auto simp: split_cidr_def cidr_ok_def max_prefix_def word_le_nat_alt split: ipaddr.split)

lemma split_conf_ok: "conf_ok c \<Longrightarrow> conf_ok (split_default_routes c)"
proof -
  have "split_cidr k \<noteq> []" for k by (auto simp: split_cidr_def split: ipaddr.split)
  then have "concat (map split_cidr ks) \<noteq> []" if "ks \<noteq> []" for ks
    using that by (cases ks) auto
  then show "conf_ok c \<Longrightarrow> conf_ok (split_default_routes c)"
    using split_cidr_ok by (auto simp: conf_ok_def split_default_routes_def)
qed

lemma effective_client:
  "carried (effective_client t spec) a = carried (tn_client spec) a"
  "conf_ok (tn_client spec) \<Longrightarrow> conf_ok (effective_client t spec)"
  by (auto simp: effective_client_def split_carried split_conf_ok)

subsection \<open>Traces\<close>

lemma program_names:
  "wireguard_exe \<noteq> ''powershell''" "wg_exe \<noteq> ''powershell''" "wireguard_exe \<noteq> ''netsh''"
  "wg_exe \<noteq> ''netsh''" "wireguard_exe \<noteq> ''icacls''" "wg_exe \<noteq> ''icacls''"
  by (code_simp)+

text \<open>Events that neither run \<^verbatim>\<open>powershell\<close> nor touch a file.\<close>

fun plain_ev :: "wevent \<Rightarrow> bool" where
  "plain_ev (WvRun p a ok) \<longleftrightarrow> p \<noteq> ''powershell''"
| "plain_ev _ \<longleftrightarrow> False"

fun no_ps :: "wevent \<Rightarrow> bool" where
  "no_ps (WvRun p a ok) \<longleftrightarrow> p \<noteq> ''powershell''"
| "no_ps _ \<longleftrightarrow> True"

lemma plain_no_ps: "list_all plain_ev es \<Longrightarrow> list_all no_ps es"
proof (induction es)
  case (Cons e es)
  then show ?case by (cases e) simp_all
qed simp

lemma plain_netsh: "list_all is_netsh es \<Longrightarrow> list_all plain_ev es"
proof (induction es)
  case (Cons e es)
  then show ?case by (cases e) simp_all
qed simp

lemma wrun_event:
  "wrun os p args s = (r, s') \<Longrightarrow> \<exists>ok. wextends s [WvRun p args ok] s' \<and> (ok \<longleftrightarrow> (\<exists>x. r = Inr x))"
  by (auto simp: wrun_def wextends_def run_result_def wexit_ok_def split: prod.splits win_out.splits
      if_splits dest!: wcommand_trace)

lemma wask_quiet: "wask os p args s = (r, s') \<Longrightarrow> wextends s [] s'"
  by (auto simp: wask_def wextends_def split: prod.splits dest: wquery_trace)

lemma service_exists_quiet: "service_exists os t s = (b, s') \<Longrightarrow> wextends s [] s'"
  by (auto simp: service_exists_def split: prod.splits dest: wask_quiet)

lemma remove_service_event:
  assumes "remove_service os t s = (r, s')"
  shows "\<exists>ok. wextends s [WvRun wireguard_exe [''/uninstalltunnelservice'', wt_interface t] ok] s'
    \<and> (ok \<longleftrightarrow> r = Inr ())"
  using assms
  by (auto simp: remove_service_def split: prod.splits sum.splits dest!: wrun_event)

text \<open>The configuration is written last, after the directory was made and locked down.\<close>

definition config_events :: "'w win \<Rightarrow> win_tunnel \<Rightarrow> tunnel_spec \<Rightarrow> bool \<Rightarrow> bool \<Rightarrow> wevent list" where
  "config_events os t spec locked ok =
     [WvMkdir (config_dir os) True, WvRun ''icacls'' (icacls_args (config_dir os)) locked,
      WvWrite (wt_conf_path t) (to_conf (wn_b64 os) (effective_client t spec) (tn_endpoint spec)) ok]"

lemma write_config_events:
  assumes "write_config os t spec s = (r, s')"
  shows "if r = Inr () then \<exists>l. wextends s (config_events os t spec l True) s'
    else wextends s [WvMkdir (config_dir os) False] s' \<or> (\<exists>l. wextends s (config_events os t spec l False) s')"
proof -
  obtain r1 s1 where 1: "wmkdir os (config_dir os) s = (r1, s1)" by fastforce
  have e1: "wextends s [WvMkdir (config_dir os) (r1 = None)] s1"
    using wmkdir_trace [OF 1] by (simp add: wextends_def)
  show ?thesis
  proof (cases r1)
    case (Some e)
    then show ?thesis using assms 1 e1 by (auto simp: write_config_def)
  next
    case None
    obtain r2 s2 where 2: "wrun os ''icacls'' (icacls_args (config_dir os)) s1 = (r2, s2)" by fastforce
    obtain l where e2: "wextends s1 [WvRun ''icacls'' (icacls_args (config_dir os)) l] s2"
      using wrun_event [OF 2] by blast
    obtain r3 s3 where 3: "wwrite os (wt_conf_path t)
        (to_conf (wn_b64 os) (effective_client t spec) (tn_endpoint spec)) s2 = (r3, s3)" by fastforce
    have e3: "wextends s (config_events os t spec l (r3 = None)) s3"
      using wextends_trans [OF wextends_trans [OF e1 e2]] wwrite_trace [OF 3] None
      by (simp add: wextends_def config_events_def)
    show ?thesis
      using assms 1 2 3 None e3 by (cases r3) (auto simp: write_config_def)
  qed
qed

lemma write_config_ok:
  assumes "write_config os t spec s = (Inr (), s')"
  obtains l where "wextends s (config_events os t spec l True) s'"
  using write_config_events [OF assms] by auto

text \<open>
  What a connect does before it engages the kill switch, when that much succeeds: a stale
  service and the bypass routes first, then the configuration and the service.
\<close>

definition before_engage :: "'w win \<Rightarrow> win_tunnel \<Rightarrow> win_tunnel \<Rightarrow> tunnel_spec \<Rightarrow> wevent list \<Rightarrow> bool" where
  "before_engage os t t1 spec es \<longleftrightarrow>
     (\<exists>pre l. list_all plain_ev pre \<and>
        es = pre @ config_events os t1 spec l True @
             [WvRun wireguard_exe [''/installtunnelservice'', wt_conf_path t] True])"

lemma clear_stale:
  assumes "service_exists os t s = (stale, s1)"
  shows "\<exists>pre. list_all plain_ev pre \<and> wextends s pre (if stale then snd (remove_service os t s1) else s1)"
proof (cases stale)
  case True
  obtain r0 s0 where r0: "remove_service os t s1 = (r0, s0)" by fastforce
  obtain ok where "wextends s1 [WvRun wireguard_exe [''/uninstalltunnelservice'', wt_interface t] ok] s0"
    using remove_service_event [OF r0] by blast
  from wextends_trans [OF service_exists_quiet [OF assms] this] show ?thesis
    using True r0 by (intro exI conjI) (auto simp: program_names)
next
  case False
  then show ?thesis using service_exists_quiet [OF assms] by (intro exI [of _ "[]"]) simp
qed

lemma before_engageI:
  assumes pre: "list_all plain_ev pre" "wextends s pre s2"
    and 3: "win_install os (wt_bypass_plan t) (wt_bypass t) s2 = (rs, s3)"
    and 4: "write_config os (t\<lparr>wt_bypass := rs, wt_bypass_plan := []\<rparr>) spec s3 = (Inr (), s4)"
    and 5: "wrun os wireguard_exe [''/installtunnelservice'', wt_conf_path t] s4 = (Inr x, s5)"
  obtains es where "wextends s es s5"
    and "\<And>t2. wt_bypass t2 = rs \<Longrightarrow> wt_conf_path t2 = wt_conf_path t \<Longrightarrow> before_engage os t t2 spec es"
proof -
  define t1 where "t1 = t\<lparr>wt_bypass := rs, wt_bypass_plan := []\<rparr>"
  obtain ins where ins: "list_all is_netsh ins" "wextends s2 ins s3" using win_install_events [OF 3] by blast
  obtain l where cfg: "wextends s3 (config_events os t1 spec l True) s4"
    using write_config_ok [OF 4 [folded t1_def]] .
  have svc: "wextends s4 [WvRun wireguard_exe [''/installtunnelservice'', wt_conf_path t] True] s5"
    using wrun_event [OF 5] by auto
  show ?thesis
  proof (rule that [OF wextends_trans [OF wextends_trans [OF wextends_trans [OF pre(2) ins(2)] cfg] svc]])
    fix t2 :: win_tunnel assume "wt_bypass t2 = rs" "wt_conf_path t2 = wt_conf_path t"
    then show "before_engage os t t2 spec (((pre @ ins) @ config_events os t1 spec l True) @
        [WvRun wireguard_exe [''/installtunnelservice'', wt_conf_path t] True])"
      using pre(1) plain_netsh [OF ins(1)]
      unfolding before_engage_def
      by (intro exI [of _ "pre @ ins"] exI [of _ l])
        (simp add: config_events_def effective_client_def t1_def)
  qed
qed

lemma wt_up_cases:
  assumes "wt_up os t spec s = (r, t', s')"
  obtains
    (refused) e where "r = Inl e" "wt_installed t' = wt_installed t" "wt_killswitch t' = wt_killswitch t"
  | (no_firewall) rs es where "r = Inr ()" "wt_killswitch t = None"
      "t' = t\<lparr>wt_bypass := rs, wt_bypass_plan := [], wt_installed := True\<rparr>"
      "before_engage os t t' spec es" "wextends s es s'"
  | (firewall) k rs es where "r = Inr ()" "wt_killswitch t = Some k"
      "t' = t\<lparr>wt_bypass := rs, wt_bypass_plan := [],
              wt_killswitch := Some (wk_allowing (destinations rs) k), wt_installed := True\<rparr>"
      "before_engage os t t' spec es"
      "wextends s (es @ [WvRun ''powershell'' (ps_args (wk_script os (wk_allowing (destinations rs) k))) True]) s'"
  | (no_engage) k e rs es ok where "r = Inl e" "wt_killswitch t = Some k"
      "t' = t\<lparr>wt_bypass := rs, wt_bypass_plan := [], wt_killswitch := None\<rparr>"
      "before_engage os t t' spec es"
      "wextends s (es @
         [WvRun ''powershell'' (ps_args (wk_script os (wk_allowing (destinations rs) k))) False,
          WvRun ''powershell'' (ps_args (wk_release_script os)) ok]) s'"
proof (cases "spec_validate spec")
  case (Inl e)
  then show ?thesis using assms by (intro refused [of e]) (simp_all add: wt_up_def)
next
  case valid: (Inr u)
  obtain stale s1 where 1: "service_exists os t s = (stale, s1)" by fastforce
  define s2 where "s2 = (if stale then snd (remove_service os t s1) else s1)"
  obtain pre where pre: "list_all plain_ev pre" "wextends s pre s2"
    using clear_stale [OF 1] by (auto simp: s2_def)
  obtain rs s3 where 3: "win_install os (wt_bypass_plan t) (wt_bypass t) s2 = (rs, s3)" by fastforce
  define t1 where "t1 = t\<lparr>wt_bypass := rs, wt_bypass_plan := []\<rparr>"
  obtain r4 s4 where 4: "write_config os t1 spec s3 = (r4, s4)" by fastforce
  note step = assms [unfolded wt_up_def Let_def, simplified valid 1, simplified, folded s2_def,
      simplified 3, simplified, folded t1_def, simplified 4, simplified]
  show ?thesis
  proof (cases r4)
    case (Inl e)
    then show ?thesis using step refused by (auto simp: t1_def)
  next
    case (Inr u)
    obtain r5 s5 where 5: "wrun os wireguard_exe [''/installtunnelservice'', wt_conf_path t] s4 = (r5, s5)"
      by fastforce
    have t1: "wt_conf_path t1 = wt_conf_path t" "wt_killswitch t1 = wt_killswitch t" by (simp_all add: t1_def)
    show ?thesis
    proof (cases r5)
      case (Inl e)
      then show ?thesis using step Inr 5 t1 refused by (auto simp: t1_def)
    next
      case five: (Inr v)
      obtain es where es: "wextends s es s5"
        and be: "\<And>t2. wt_bypass t2 = rs \<Longrightarrow> wt_conf_path t2 = wt_conf_path t \<Longrightarrow> before_engage os t t2 spec es"
        using before_engageI [OF pre 3 _ 5 [unfolded five]] 4 Inr by (auto simp: t1_def)
      show ?thesis
      proof (cases "wt_killswitch t")
        case None
        then show ?thesis
          using step Inr 5 five t1 es no_firewall [where rs = rs and es = es] be by (auto simp: t1_def)
      next
        case (Some k)
        obtain r6 s6 where 6: "wk_engage os (wk_allowing (destinations rs) k) s5 = (r6, s6)" by fastforce
        from 6 show ?thesis
        proof (cases rule: wk_engage_cases)
          case 1
          then show ?thesis
            using step Inr 5 five t1 6 Some wextends_trans [OF es 1(2)]
              firewall [where rs = rs and es = es and k = k] be by (auto simp: t1_def)
        next
          case (2 e ok)
          then show ?thesis
            using step Inr 5 five t1 6 Some wextends_trans [OF es 2(2)]
              no_engage [where rs = rs and es = es and k = k] be by (auto simp: t1_def)
        qed
      qed
    qed
  qed
qed

text \<open>A switch talks to \<^verbatim>\<open>wg.exe\<close> and rewrites the configuration; it leaves the handle alone.\<close>

lemma wt_switch_cases:
  assumes "wt_switch_endpoint os t spec s = (r, t', s')"
  obtains es where "t' = t" "list_all no_ps es" "wextends s es s'"
    and "r = Inr () \<Longrightarrow> \<exists>ok l. es =
      [WvRun wg_exe [''set'', wt_interface t, ''peer'',
         public_to_base64 (wn_b64 os) (cc_peer_public_key (tn_client spec)),
         ''endpoint'', show_sockaddr (tn_endpoint spec)] True,
       WvRun wg_exe [''set'', wt_interface t, ''listen-port'', ''0''] ok] @ config_events os t spec l True"
proof (cases "spec_validate spec")
  case (Inl e)
  then show ?thesis
    using assms by (intro that [of "[]"]) (auto simp: wt_switch_endpoint_def wextends_refl)
next
  case valid: (Inr u)
  define a1 where "a1 = [''set'', wt_interface t, ''peer'',
     public_to_base64 (wn_b64 os) (cc_peer_public_key (tn_client spec)),
     ''endpoint'', show_sockaddr (tn_endpoint spec)]"
  define a2 where "a2 = [''set'', wt_interface t, ''listen-port'', ''0'']"
  obtain r1 s1 where 1: "wrun os wg_exe a1 s = (r1, s1)" by fastforce
  obtain ok1 where e1: "wextends s [WvRun wg_exe a1 ok1] s1" "ok1 \<longleftrightarrow> (\<exists>x. r1 = Inr x)"
    using wrun_event [OF 1] by blast
  obtain r2 s2 where 2: "wrun os wg_exe a2 s1 = (r2, s2)" by fastforce
  obtain ok2 where e2: "wextends s1 [WvRun wg_exe a2 ok2] s2" using wrun_event [OF 2] by blast
  obtain r3 s3 where 3: "write_config os t spec s2 = (r3, s3)" by fastforce
  obtain c where c: "wextends s2 c s3" "list_all no_ps c"
      "r3 = Inr () \<Longrightarrow> \<exists>l. c = config_events os t spec l True"
    using write_config_events [OF 3] that by (fastforce simp: config_events_def split: if_splits)
  note d = assms [unfolded wt_switch_endpoint_def, simplified valid, simplified, folded a1_def a2_def,
      simplified 1 2 3, simplified]
  show ?thesis
  proof (cases r1)
    case (Inl e)
    then show ?thesis
      using d 1 that [of "[WvRun wg_exe a1 ok1]"] e1 by (auto simp: program_names)
  next
    case (Inr x)
    then show ?thesis
      using d 1 2 3 that [of "[WvRun wg_exe a1 ok1, WvRun wg_exe a2 ok2] @ c"] e1 c
        wextends_trans [OF wextends_trans [OF e1(1) e2] c(1)]
      by (auto simp: program_names a1_def a2_def)
  qed
qed

subsection \<open>The file on disk\<close>

text \<open>What a run leaves in a file, as far as it is known: a write that failed leaves it unknown.\<close>

fun file_after :: "string \<Rightarrow> string option \<Rightarrow> wevent list \<Rightarrow> string option" where
  "file_after path f [] = f"
| "file_after path f (WvWrite p c ok # es) =
     file_after path (if p = path then (if ok then Some c else None) else f) es"
| "file_after path f (WvUnlink p ok # es) =
     file_after path (if p = path \<and> ok then None else f) es"
| "file_after path f (e # es) = file_after path f es"

definition on_disk :: "string \<Rightarrow> 'w wsys \<Rightarrow> string option" where
  "on_disk path s = file_after path None (ws_trace s)"

lemma file_after_append: "file_after p f (es @ es') = file_after p (file_after p f es) es'"
  by (induction p f es rule: file_after.induct) auto

lemma file_after_plain: "list_all plain_ev es \<Longrightarrow> file_after p f es = f"
  by (induction p f es rule: file_after.induct) auto

lemma file_after_config [simp]:
  "file_after (wt_conf_path t) f (config_events os t spec l True)
     = Some (to_conf (wn_b64 os) (effective_client t spec) (tn_endpoint spec))"
  by (simp add: config_events_def)

lemma on_disk_extends: "wextends s es s' \<Longrightarrow> on_disk p s' = file_after p (on_disk p s) es"
  by (simp add: on_disk_def wextends_def file_after_append)

lemma before_engage_file:
  assumes "before_engage os t t1 spec es" and "wt_conf_path t1 = wt_conf_path t"
  shows "file_after (wt_conf_path t) f (es @ [WvRun p a ok])
      = Some (to_conf (wn_b64 os) (effective_client t1 spec) (tn_endpoint spec))"
    and "file_after (wt_conf_path t) f es
      = Some (to_conf (wn_b64 os) (effective_client t1 spec) (tn_endpoint spec))"
proof -
  obtain pre l where "list_all plain_ev pre" "es = pre @ config_events os t1 spec l True @
      [WvRun wireguard_exe [''/installtunnelservice'', wt_conf_path t] True]"
    using assms(1) by (auto simp: before_engage_def)
  then show "file_after (wt_conf_path t) f es
      = Some (to_conf (wn_b64 os) (effective_client t1 spec) (tn_endpoint spec))"
    by (simp add: file_after_append file_after_plain assms(2) [symmetric])
  then show "file_after (wt_conf_path t) f (es @ [WvRun p a ok])
      = Some (to_conf (wn_b64 os) (effective_client t1 spec) (tn_endpoint spec))"
    by (simp add: file_after_append)
qed

lemma wt_up_disk:
  assumes "wt_up os t spec s = (Inr (), t', s')"
  shows "on_disk (wt_conf_path t') s'
    = Some (to_conf (wn_b64 os) (effective_client t' spec) (tn_endpoint spec))"
  using assms
proof (cases rule: wt_up_cases)
  case (no_firewall rs es)
  then show ?thesis using before_engage_file(2) on_disk_extends by fastforce
next
  case (firewall k rs es)
  have "wt_conf_path t' = wt_conf_path t" by (simp add: firewall(3))
  then show ?thesis
    using on_disk_extends [OF firewall(5)] before_engage_file(1) [OF firewall(4)] by simp
qed simp_all

lemma wt_switch_disk:
  assumes "wt_switch_endpoint os t spec s = (Inr (), t', s')"
  shows "on_disk (wt_conf_path t') s'
    = Some (to_conf (wn_b64 os) (effective_client t' spec) (tn_endpoint spec))"
  using assms
proof (cases rule: wt_switch_cases)
  case (1 es)
  then obtain ok l where es: "es = [WvRun wg_exe [''set'', wt_interface t, ''peer'',
         public_to_base64 (wn_b64 os) (cc_peer_public_key (tn_client spec)),
         ''endpoint'', show_sockaddr (tn_endpoint spec)] True,
       WvRun wg_exe [''set'', wt_interface t, ''listen-port'', ''0''] ok] @ config_events os t spec l True"
    by blast
  show ?thesis using on_disk_extends [OF 1(3)] 1(1) by (simp add: es)
qed

section \<open>Properties\<close>

text \<open>Writing default routes as two halves, which the Windows
backend does to keep WireGuard from installing its own filters, changes nothing else and
carries the same addresses: every address is in the allowed ranges before exactly when it is
after. No default route to the unspecified address is left.\<close>

lemma halves_cover_the_same_addresses:
  "carried (split_default_routes c) a = carried c a \<and>
   (split_default_routes c)\<lparr>cc_allowed_ips := cc_allowed_ips c\<rparr> = c \<and>
   \<not> list_ex (\<lambda>k. is_default_route k \<and> c_addr k \<in> {V4 0, V6 0}) (cc_allowed_ips (split_default_routes c))"
proof (intro conjI)
  show "carried (split_default_routes c) a = carried c a" by (rule split_carried)
  show "(split_default_routes c)\<lparr>cc_allowed_ips := cc_allowed_ips c\<rparr> = c"
    by (simp add: split_default_routes_def)
  have "\<not> (is_default_route k \<and> c_addr k \<in> {V4 0, V6 0})" if "k \<in> set (split_cidr x)" for k x
    using that by (auto simp: split_cidr_def is_default_route_def split: ipaddr.splits if_splits)
  then show "\<not> list_ex (\<lambda>k. is_default_route k \<and> c_addr k \<in> {V4 0, V6 0})
      (cc_allowed_ips (split_default_routes c))"
    by (auto simp: list_ex_iff split_default_routes_def)
qed

text \<open>Whenever the Windows backend reports a connect or a switch
as done, the configuration the tunnel service replays after a restart is on disk and names
the endpoint the tunnel was given. Parsing it gives credentials that carry the same
addresses as the daemon's, and the daemon's own where no route bypasses the tunnel.\<close>

lemma windows_config_follows_the_tunnel:
  assumes "wt_up os t spec s = (Inr (), t', s') \<or> wt_switch_endpoint os t spec s = (Inr (), t', s')"
    and "base64_ok (wn_b64 os)" and "conf_ok (tn_client spec)"
  shows "\<exists>txt c. on_disk (wt_conf_path t') s' = Some txt \<and>
    txt = to_conf (wn_b64 os) c (tn_endpoint spec) \<and> wg_parse (wn_b64 os) txt path = Inr c \<and>
    (\<forall>a. carried c a = carried (tn_client spec) a) \<and> (wt_bypass t' = [] \<longrightarrow> c = tn_client spec)"
proof -
  have "on_disk (wt_conf_path t') s'
    = Some (to_conf (wn_b64 os) (effective_client t' spec) (tn_endpoint spec))"
    using assms(1) wt_up_disk wt_switch_disk by metis
  moreover have "wg_parse (wn_b64 os)
      (to_conf (wn_b64 os) (effective_client t' spec) (tn_endpoint spec)) path = Inr (effective_client t' spec)"
    by (rule wg_parse_to_conf [OF assms(2) effective_client(2) [OF assms(3)]])
  ultimately show ?thesis
    using effective_client(1) [of t' spec]
    by (intro exI [of _ "effective_client t' spec"] exI) (simp add: effective_client_def)
qed

text \<open>
  A machine on which every call succeeds and every program prints nothing, except that
  \<^verbatim>\<open>powershell\<close> may be told to fail.
\<close>

definition sample_win_with :: "bool \<Rightarrow> unit win" where
  "sample_win_with ps =
     \<lparr>wn_program_data = None,
      wn_run = \<lambda>p a w. (if p = ''powershell'' \<and> \<not> ps then WExit False (Some 1) [] ''refused''
                        else WExit True (Some 0) [] [], w),
      wn_resolve = \<lambda>h w. (Some [], w), wn_exists = \<lambda>p w. True, wn_mkdir = \<lambda>p w. (None, w),
      wn_write = \<lambda>p c w. (None, w), wn_unlink = \<lambda>p w. (None, w), wn_b64 = sample_engine\<rparr>"

definition sample_win :: "unit win" where
  "sample_win = sample_win_with True"

definition sample_wsys :: "unit wsys" where
  "sample_wsys = \<lparr>ws_world = (), ws_trace = []\<rparr>"

definition sample_spec :: tunnel_spec where
  "sample_spec = spec_new sample_client \<lparr>sa_ip = V4 16909060, sa_port = 1637\<rparr>"

lemma sample_wrun:
  "p \<noteq> ''powershell'' \<Longrightarrow>
     wrun (sample_win_with b) p a s = (Inr [], wemit (WvRun p a True) (ws_world s) s)"
  by (simp add: wrun_def wcommand_def sample_win_with_def run_result_def wexit_ok_def)

lemma sample_files_ok:
  "wmkdir (sample_win_with b) p s = (None, wemit (WvMkdir p True) (ws_world s) s)"
  "wwrite (sample_win_with b) p c s = (None, wemit (WvWrite p c True) (ws_world s) s)"
  by (simp_all add: wmkdir_def wwrite_def sample_win_with_def)

lemma sample_write_config: "\<exists>s'. write_config (sample_win_with b) t spec s = (Inr (), s')"
  by (simp add: write_config_def sample_wrun sample_files_ok)

lemma sample_engage:
  "\<exists>r s'. wk_engage (sample_win_with b) k s = (r, s') \<and> (if b then r = Inr () else (\<exists>e. r = Inl e))"
  by (simp add: wk_engage_def wk_run_def wcommand_def sample_win_with_def)

lemma sample_win_up:
  assumes "spec_validate spec = Inr ()"
  shows "\<exists>r t' s'. wt_up (sample_win_with b) t spec s = (r, t', s') \<and>
    (if b \<or> wt_killswitch t = None then r = Inr () else (\<exists>e. r = Inl e) \<and> wt_killswitch t' = None)"
proof -
  let ?os = "sample_win_with b"
  obtain stale s1 where 1: "service_exists ?os t s = (stale, s1)" by fastforce
  define s2 where "s2 = (if stale then snd (remove_service ?os t s1) else s1)"
  obtain rs s3 where 3: "win_install ?os (wt_bypass_plan t) (wt_bypass t) s2 = (rs, s3)" by fastforce
  obtain s4 where 4: "write_config ?os (t\<lparr>wt_bypass := rs, wt_bypass_plan := []\<rparr>) spec s3 = (Inr (), s4)"
    using sample_write_config by blast
  note up = wt_up_def assms 1 s2_def [symmetric] 3 4 sample_wrun program_names Let_def
  show ?thesis
  proof (cases "wt_killswitch t")
    case None
    then show ?thesis by (simp add: up)
  next
    case (Some k)
    obtain r s6 where "wk_engage ?os (wk_allowing (destinations rs) k)
        (wemit (WvRun wireguard_exe [''/installtunnelservice'', wt_conf_path t] True) (ws_world s4) s4)
        = (r, s6)" "if b then r = Inr () else (\<exists>e. r = Inl e)"
      using sample_engage by blast
    then show ?thesis using Some by (cases r) (auto simp: up split: if_splits)
  qed
qed

lemma sample_conf_ok: "conf_ok sample_client"
  by (simp add: conf_ok_def sample_client_def KEY_LEN_def cidr_ok_def max_prefix_def sample_domain)

definition sample_win_tunnel :: win_tunnel where
  "sample_win_tunnel =
     \<lparr>wt_interface = DEFAULT_INTERFACE, wt_conf_path = ''C:/vpnmgr/vpnmgr0.conf'', wt_installed = False,
      wt_bypass_plan = [], wt_bypass = [], wt_killswitch = None\<rparr>"

lemma sample_spec_ok: "spec_validate sample_spec = Inr ()"
  by (simp add: sample_spec_def spec_validate_def spec_new_def DEFAULT_INTERFACE_def
      is_ascii_alphanumeric_def Let_def)

text \<open>On Windows a connect whose firewall fails after the tunnel
service was installed reports the error, but the handle it leaves does not know of the
service: dropping it, as the daemon then does, withdraws the routes at most and never
uninstalls the service. No kill switch is left with the handle either.\<close>

lemma failed_firewall_leaves_the_service:
  assumes "wt_up os t spec s = (Inl e, t', s')" and "wt_killswitch t = Some k"
    and "wt_killswitch t' = None" and "\<not> wt_installed t"
  shows "\<exists>es es'. wextends s es s' \<and>
    WvRun wireguard_exe [''/installtunnelservice'', wt_conf_path t] True \<in> set es \<and>
    wextends s' es' (wt_drop os t' s') \<and> list_all is_netsh es'"
  using assms(1)
proof (cases rule: wt_up_cases)
  case (no_engage k e rs es ok)
  obtain rs' s2 where r: "win_remove os (wt_bypass t') s' = (rs', s2)" by fastforce
  have "\<not> wt_installed t'" using no_engage(3) assms(4) by simp
  then have "wt_drop os t' s' = s2" using r by (simp add: wt_drop_def)
  then obtain es' where "list_all is_netsh es'" "wextends s' es' (wt_drop os t' s')"
    using win_remove_netsh [OF r] by blast
  moreover have "WvRun wireguard_exe [''/installtunnelservice'', wt_conf_path t] True \<in> set es"
    using no_engage(4) by (auto simp: before_engage_def)
  moreover note no_engage(5)
  ultimately show ?thesis by (intro exI [of _ es'] exI [of _ "es @ _"]) auto
qed (use assms in simp_all)

end
