(* ===== verification/Win_Backend.thy ===== *)
theory Win_Backend
  imports Host Win_Tunnel
begin

text \<open>
  The daemon over the Windows backend: the operations the daemon calls, filled with the
  functions of \<open>Win_Tunnel\<close>, \<open>Win_Sys\<close> and \<open>Win_Killswitch\<close>. The contract of a quiet backend
  is interpreted here. The stronger one of Linux fails on Windows, since a kill switch that
  can not be engaged is rolled back by releasing the one in force.
\<close>

section \<open>The backend\<close>

text \<open>
  The daemon names the interface, the mark and the LAN rule; the constructor of the platform
  makes its own kill switch of them.
\<close>

definition windows_ks :: "killswitch \<Rightarrow> win_killswitch" where
  "windows_ks k =
     wk_allowing (kw_bypass k) (wk_new (kw_interface k) (kw_fwmark k) (kw_allow_lan k))"

definition windows_backend :: "'w win \<Rightarrow> (win_tunnel, 'w wsys) backend" where
  "windows_backend os =
     \<lparr>tb_new = wt_new os, tb_with_bypass = wt_with_bypass,
      tb_with_killswitch = \<lambda>k. wt_with_killswitch (windows_ks k),
      tb_up = wt_up os, tb_switch_endpoint = wt_switch_endpoint os, tb_down = wt_down os,
      tb_status = wt_status os, tb_drop = wt_drop os, tb_plan = win_plan os,
      tb_ks_engage = \<lambda>k. wk_engage os (windows_ks k), tb_ks_release = wk_release os,
      tb_ks_is_engaged = wk_is_engaged os, tb_ks_dropped = \<lambda>s. map_prod (map_option unat) id (wk_dropped s)\<rparr>"

definition windows_env :: "'w win \<Rightarrow> 'w host \<Rightarrow> (win_tunnel, 'w wsys) env" where
  "windows_env os h = host_env ws_world (\<lambda>w s. s\<lparr>ws_world := w\<rparr>) h (windows_backend os)"

lemma windows_env_backend [simp]: "ev_backend (windows_env os h) = windows_backend os"
  by (simp add: windows_env_def host_env_def)

section \<open>The firewall in the trace\<close>

text \<open>
  The script known to be in force: the last \<^verbatim>\<open>powershell\<close> command, when it succeeded. One
  that failed may have run in part.
\<close>

fun wfw_after :: "string option \<Rightarrow> wevent list \<Rightarrow> string option" where
  "wfw_after f [] = f"
| "wfw_after f (WvRun p a ok # es) =
     wfw_after (if p = ''powershell'' then (if ok then Some (last a) else None) else f) es"
| "wfw_after f (e # es) = wfw_after f es"

definition win_in_force :: "'w wsys \<Rightarrow> string option" where
  "win_in_force s = wfw_after None (ws_trace s)"

definition windows_rules :: "bool \<Rightarrow> string list \<Rightarrow> win_killswitch" where
  "windows_rules lan ds = wk_allowing ds (wk_new DEFAULT_INTERFACE DEFAULT_FWMARK lan)"

definition win_engaged :: "'w win \<Rightarrow> 'w wsys \<Rightarrow> bool" where
  "win_engaged os s \<longleftrightarrow> (\<exists>lan ds. win_in_force s = Some (wk_script os (windows_rules lan ds)))"

definition win_guards :: "win_tunnel \<Rightarrow> bool" where
  "win_guards t \<longleftrightarrow> (\<exists>lan ds. wt_killswitch t = Some (windows_rules lan ds))"

lemma wfw_after_append: "wfw_after f (es @ es') = wfw_after (wfw_after f es) es'"
  by (induction f es rule: wfw_after.induct) auto

lemma wfw_after_no_ps: "list_all no_ps es \<Longrightarrow> wfw_after f es = f"
  by (induction f es rule: wfw_after.induct) auto

lemma win_in_force_extends: "wextends s es s' \<Longrightarrow> win_in_force s' = wfw_after (win_in_force s) es"
  by (simp add: win_in_force_def wextends_def wfw_after_append)

lemma win_engaged_quiet: "wextends s es s' \<Longrightarrow> list_all no_ps es \<Longrightarrow> win_engaged os s' = win_engaged os s"
  by (simp add: win_engaged_def win_in_force_extends wfw_after_no_ps)

lemma win_engaged_world [simp]: "win_engaged os (s\<lparr>ws_world := w\<rparr>) = win_engaged os s"
  by (simp add: win_engaged_def win_in_force_def)

lemma allowing_rules: "wk_allowing ds' (windows_rules lan ds) = windows_rules lan ds'"
  by (simp add: windows_rules_def wk_allowing_def)

lemma windows_ks_daemon: "windows_ks (ks_new DEFAULT_INTERFACE DEFAULT_FWMARK lan) = windows_rules lan []"
  by (simp add: windows_ks_def windows_rules_def ks_new_def)

lemma last_ps_args [simp]: "last (ps_args script) = script"
  by (simp add: ps_args_def)

lemma wt_up_engages:
  assumes "wt_up os t spec s = (Inr (), t', s')"
  shows "win_guards t' = win_guards t \<and> (win_guards t \<longrightarrow> win_engaged os s')"
  using assms
proof (cases rule: wt_up_cases)
  case (no_firewall rs es)
  then show ?thesis by (simp add: win_guards_def)
next
  case (firewall k rs es)
  have g: "win_guards t' = win_guards t"
    using firewall(2,3)
    by (cases k) (auto simp: win_guards_def allowing_rules windows_rules_def wk_allowing_def wk_new_def)
  have "win_in_force s' = Some (wk_script os (wk_allowing (destinations rs) k))"
    using win_in_force_extends [OF firewall(5)] by (simp add: wfw_after_append)
  then show ?thesis
    using g firewall(2) unfolding win_guards_def win_engaged_def
    by (metis allowing_rules option.inject)
qed simp_all

lemma wt_status_quiet: "wt_status os t s = (r, s') \<Longrightarrow> wextends s [] s'"
  by (auto simp: wt_status_def wg_field_def Let_def wextends_def split: prod.splits sum.splits
      dest!: wask_quiet [unfolded wextends_def])

interpretation windows: quiet_backend "windows_env os h" win_guards "win_engaged os" for os h
proof unfold_locales
  fix lan t
  show "win_guards (tb_with_killswitch (ev_backend (windows_env os h))
      (ks_new DEFAULT_INTERFACE DEFAULT_FWMARK lan) t)"
    by (auto simp: windows_backend_def win_guards_def wt_with_killswitch_def windows_ks_daemon)
next
  fix t spec w t' w'
  assume "tb_up (ev_backend (windows_env os h)) t spec w = (Inr (), t', w')"
  then show "win_guards t' = win_guards t \<and> (win_guards t \<longrightarrow> win_engaged os w')"
    using wt_up_engages by (simp add: windows_backend_def)
next
  fix t spec w r t' w'
  assume "tb_switch_endpoint (ev_backend (windows_env os h)) t spec w = (r, t', w')"
  then have "wt_switch_endpoint os t spec w = (r, t', w')" by (simp add: windows_backend_def)
  then show "win_guards t' = win_guards t \<and> win_engaged os w' = win_engaged os w"
    by (rule wt_switch_cases) (simp add: win_engaged_quiet)
next
  fix t w rs w'
  assume "tb_status (ev_backend (windows_env os h)) t w = (rs, w')"
  then show "win_engaged os w' = win_engaged os w"
    using win_engaged_quiet [OF wt_status_quiet] by (simp add: windows_backend_def)
next
  fix w b w'
  assume "tb_ks_is_engaged (ev_backend (windows_env os h)) w = (b, w')"
  then show "win_engaged os w' = win_engaged os w"
    using win_engaged_quiet [OF wk_is_engaged_quiet] by (simp add: windows_backend_def)
qed (auto simp: windows_env_def host_env_def windows_backend_def wk_dropped_def on_world_def
    split: prod.splits)

section \<open>Executions in which nobody changes the kill switch\<close>

inductive windows_run :: "'w win \<Rightarrow> 'w host \<Rightarrow> path \<Rightarrow> (win_tunnel, 'w wsys) dstate \<Rightarrow> bool"
  for os h path where
  start: "load (windows_env os h) path s = Inr st \<Longrightarrow> windows_run os h path st"
| request: "windows_run os h path st \<Longrightarrow> (\<And>on. rq \<noteq> ReqKillswitch (Some on)) \<Longrightarrow>
    windows_run os h path (snd (handle (windows_env os h) rq st))"
| wake: "windows_run os h path st \<Longrightarrow>
    windows_run os h path (snd (scheduler_wake (windows_env os h) st))"
| world: "windows_run os h path st \<Longrightarrow>
    windows_run os h path (st\<lparr>ds_world := (ds_world st)\<lparr>ws_world := w\<rparr>\<rparr>)"

lemma windows_run_safe: "windows_run os h path st \<Longrightarrow> windows.safe os st"
proof (induction rule: windows_run.induct)
  case (start s st)
  have "linked st" by (rule load_linked [OF start])
  moreover have "ds_tunnel st = None"
    using start by (auto simp: load_def split: sum.splits prod.splits)
  ultimately show ?case by (simp add: windows.safe_def windows.guarded_def)
next
  case (request st rq)
  then show ?case by (blast intro: windows.handle_other_safe)
next
  case (wake st)
  then show ?case by (blast intro: windows.wake_safe)
next
  case (world st w)
  then show ?case by (simp add: windows.safe_def windows.guarded_def linked_def)
qed

section \<open>Properties\<close>

text \<open>C2: over the Windows backend, as long as nobody changes the kill switch
by request, the daemon never leaves a tunnel that carries one without its firewall: the last
script that ran, to the end, is the one that blocks outbound traffic around the daemon's
adapter, however connects, switches, measurements and failures are interleaved.\<close>

theorem windows_kill_switch_holds:
  assumes "windows_run os h path st" and "ds_tunnel st = Some t" and "win_guards t"
  shows "\<exists>lan ds. win_in_force (ds_world st) = Some (wk_script os (windows_rules lan ds))"
  using windows_run_safe [OF assms(1)] assms(2,3)
  by (auto simp: windows.safe_def windows.guarded_def win_engaged_def)

theorem windows_kill_switch_holds_witness:
  "\<exists>lan ds. win_in_force (ds_world (snd (handle (windows_env sample_win sample_host)
     (ReqConnect (Some ''Achernar'') (Some False)) (guarded_start sample_wsys))))
     = Some (wk_script sample_win (windows_rules lan ds))"
proof -
  let ?b = "windows_backend sample_win"
  obtain t0 where new: "tb_new ?b DEFAULT_INTERFACE sample_wsys = (Inr t0, sample_wsys)"
    by (simp add: windows_backend_def wt_new_def sample_win_def sample_win_with_def)
  have up: "\<exists>t' s'. tb_up ?b t spec s = (Inr (), t', s')" if "spec_validate spec = Inr ()" for t spec s
    using sample_win_up [OF that, of True] by (auto simp: windows_backend_def sample_win_def)
  obtain t s t' spec s' where t: "ds_tunnel (snd (handle (windows_env sample_win sample_host)
        (ReqConnect (Some ''Achernar'') (Some False)) (guarded_start sample_wsys))) = Some t'"
      "tb_up ?b (tb_with_killswitch ?b (ks_new DEFAULT_INTERFACE DEFAULT_FWMARK True) t) spec s = (Inr (), t', s')"
    using guarded_connect [where get = ws_world and put = "\<lambda>w s. s\<lparr>ws_world := w\<rparr>", OF _ new up]
    unfolding windows_env_def by auto
  have k: "win_guards t'"
  proof -
    let ?t = "wt_with_killswitch (windows_rules True []) t"
    have "wt_up sample_win ?t spec s = (Inr (), t', s')"
      using t(2) by (simp add: windows_backend_def windows_ks_daemon)
    moreover have "win_guards ?t" unfolding win_guards_def wt_with_killswitch_def by auto
    ultimately show ?thesis using wt_up_engages by blast
  qed
  have "windows_run sample_win sample_host ''config.toml'' (snd (handle (windows_env sample_win sample_host)
      (ReqConnect (Some ''Achernar'') (Some False)) (guarded_start sample_wsys)))"
    by (rule windows_run.request [OF windows_run.start]) (simp_all add: windows_env_def guarded_load)
  from windows_kill_switch_holds [OF this t(1) k] show ?thesis .
qed

end
