(* ===== verification/Wire.thy ===== *)
theory Wire
  imports Samples
begin

text \<open>
  The protocol between \<^verbatim>\<open>vpnmgrd\<close> and its clients: the connection loop of
  \<^verbatim>\<open>vpnmgrd/src/main.rs\<close>, which reads one request per line and writes one reply, and the
  client of \<^verbatim>\<open>vpnmgr-ipc/src/client.rs\<close>. Bytes on the wire are characters. The JSON text
  serde derives is a parameter, and so is the text thiserror derives for an error. Sockets and
  pipes are records of functions on a world.
\<close>

section \<open>Lines\<close>

definition MAX_LINE :: nat where "MAX_LINE = 1024 * 1024"

definition lf :: char where "lf = CHR 0x0A"

text \<open>\<^verbatim>\<open>read_line\<close> on a stream cut by \<^verbatim>\<open>take(n)\<close>: the line with its newline, and the rest.\<close>

fun take_line :: "nat \<Rightarrow> string \<Rightarrow> string \<times> string" where
  "take_line n [] = ([], [])"
| "take_line n (c # s) =
     (if n = 0 then ([], c # s)
      else if c = lf then ([c], s)
      else (case take_line (n - 1) s of (l, r) \<Rightarrow> (c # l, r)))"

text \<open>Well-formed UTF-8, which \<^verbatim>\<open>read_line\<close> insists on.\<close>

definition in_bytes :: "nat \<Rightarrow> nat \<Rightarrow> char \<Rightarrow> bool" where
  "in_bytes lo hi c \<longleftrightarrow> lo \<le> of_char c \<and> of_char c \<le> (hi :: nat)"

definition utf8_cont :: "char \<Rightarrow> bool" where
  "utf8_cont = in_bytes 0x80 0xBF"

fun utf8_ok :: "string \<Rightarrow> bool" where
  "utf8_ok [] \<longleftrightarrow> True"
| "utf8_ok (a # s) \<longleftrightarrow>
     (if in_bytes 0 0x7F a then utf8_ok s
      else if in_bytes 0xC2 0xDF a then
        (case s of b # t \<Rightarrow> utf8_cont b \<and> utf8_ok t | _ \<Rightarrow> False)
      else if in_bytes 0xE0 0xEF a then
        (case s of b # c # t \<Rightarrow>
           (if a = CHR 0xE0 then in_bytes 0xA0 0xBF b
            else if a = CHR 0xED then in_bytes 0x80 0x9F b else utf8_cont b) \<and>
           utf8_cont c \<and> utf8_ok t
         | _ \<Rightarrow> False)
      else if in_bytes 0xF0 0xF4 a then
        (case s of b # c # d # t \<Rightarrow>
           (if a = CHR 0xF0 then in_bytes 0x90 0xBF b
            else if a = CHR 0xF4 then in_bytes 0x80 0x8F b else utf8_cont b) \<and>
           utf8_cont c \<and> utf8_cont d \<and> utf8_ok t
         | _ \<Rightarrow> False)
      else False)"

lemma take_line_append: "fst (take_line n s) @ snd (take_line n s) = s"
  by (induction n s rule: take_line.induct) (auto split: prod.splits)

lemma take_line_bound: "length (fst (take_line n s)) \<le> n"
  by (induction n s rule: take_line.induct) (auto split: prod.splits)

lemma take_line_some: "0 < n \<Longrightarrow> s \<noteq> [] \<Longrightarrow> fst (take_line n s) \<noteq> []"
  by (cases s) (auto split: prod.splits)

lemma take_line_rest: "0 < n \<Longrightarrow> s \<noteq> [] \<Longrightarrow> length (snd (take_line n s)) < length s"
  using take_line_append [of n s] take_line_some [of n s]
  by (metis append_eq_conv_conj length_append length_greater_0_conv less_add_same_cancel2)

lemma served_rest: "take_line MAX_LINE s = (l, r) \<Longrightarrow> l \<noteq> [] \<Longrightarrow> length r < length s"
  using take_line_rest [of MAX_LINE s] by (cases s) (auto simp: MAX_LINE_def)

lemma take_line_line: "lf \<notin> set a \<Longrightarrow> length a < n \<Longrightarrow> take_line n (a @ lf # b) = (a @ [lf], b)"
  by (induction a arbitrary: n) auto

lemma take_line_long:
  "lf \<notin> set a \<Longrightarrow> n \<le> length a \<Longrightarrow> take_line n (a @ b) = (take n a, drop n a @ b)"
proof (induction a arbitrary: n)
  case Nil
  then show ?case by (cases b) auto
next
  case (Cons c a)
  then show ?case by (cases n) auto
qed

section \<open>The connection loop\<close>

text \<open>
  What serde makes of the messages, each side, and the \<^verbatim>\<open>Display\<close> of the daemon's errors. An
  encoder or decoder that fails answers with its error text.
\<close>

record codec =
  cd_put_request :: "request \<Rightarrow> string + string"
  cd_get_request :: "string \<Rightarrow> string + request"
  cd_put_response :: "string response \<Rightarrow> string + string"
  cd_get_response :: "string \<Rightarrow> string + string response"
  cd_show_error :: "daemon_error \<Rightarrow> string"

definition dquote :: string where "dquote = [CHR 0x22]"

definition fallback_json :: "string \<Rightarrow> string" where
  "fallback_json e =
     ''{'' @ dquote @ ''response'' @ dquote @ '':'' @ dquote @ ''error'' @ dquote @ '','' @
     dquote @ ''message'' @ dquote @ '':'' @ dquote @ e @ dquote @ ''}''"

definition put_reply :: "codec \<Rightarrow> string response \<Rightarrow> string" where
  "put_reply cd r = (case cd_put_response cd r of Inr s \<Rightarrow> s | Inl e \<Rightarrow> fallback_json e) @ [lf]"

definition wire_response :: "codec \<Rightarrow> daemon_error response \<Rightarrow> string response" where
  "wire_response cd = map_response (cd_show_error cd)"

text \<open>One line: the bytes written back, and the state after the request.\<close>

definition serve_line :: "codec \<Rightarrow> ('t, 'w) env \<Rightarrow> string \<Rightarrow> ('t, 'w) dstate
    \<Rightarrow> string \<times> ('t, 'w) dstate" where
  "serve_line cd env line st =
     (case cd_get_request cd (trim_end line) of
        Inr rq \<Rightarrow> (case handle env rq st of (r, st1) \<Rightarrow> (put_reply cd (wire_response cd r), st1))
      | Inl e \<Rightarrow> (put_reply cd (RespError (''malformed request: '' @ e)), st))"

datatype serve_end = Eof | BadUtf8

text \<open>The loop, on everything a client sends before it closes its side.\<close>

function serve :: "codec \<Rightarrow> ('t, 'w) env \<Rightarrow> string \<Rightarrow> ('t, 'w) dstate
    \<Rightarrow> serve_end \<times> string \<times> ('t, 'w) dstate" where
  "serve cd env inp st =
     (case take_line MAX_LINE inp of
        (line, rest) \<Rightarrow>
          if line = [] then (Eof, [], st)
          else if \<not> utf8_ok line then (BadUtf8, [], st)
          else (case serve_line cd env line st of
                  (out, st1) \<Rightarrow>
                    (case serve cd env rest st1 of (e, outs, st2) \<Rightarrow> (e, out @ outs, st2))))"
  by pat_completeness auto
termination
  by (relation "measure (\<lambda>(cd, env, inp, st). length inp)") (auto dest: served_rest [OF sym])

declare serve.simps [simp del]

section \<open>The daemon and its connections\<close>

text \<open>
  A connection holds what the client has sent and the daemon has not read, what the daemon
  has written, and whether either side ended it. A line is read once it is complete: it ends
  in a newline, has the length limit, or the client closed its side.
\<close>

record conn =
  cx_in :: string
  cx_eof :: bool
  cx_out :: string
  cx_open :: bool

definition line_ready :: "conn \<Rightarrow> bool" where
  "line_ready c \<longleftrightarrow>
     cx_open c \<and> (lf \<in> set (cx_in c) \<or> MAX_LINE \<le> length (cx_in c) \<or> cx_eof c)"

definition serve_conn :: "codec \<Rightarrow> ('t, 'w) env \<Rightarrow> conn \<Rightarrow> ('t, 'w) dstate \<Rightarrow> conn \<times> ('t, 'w) dstate" where
  "serve_conn cd env c st =
     (case take_line MAX_LINE (cx_in c) of
        (line, rest) \<Rightarrow>
          if line = [] \<or> \<not> utf8_ok line then (c\<lparr>cx_in := rest, cx_open := False\<rparr>, st)
          else (case serve_line cd env line st of
                  (out, st1) \<Rightarrow> (c\<lparr>cx_in := rest, cx_out := cx_out c @ out\<rparr>, st1)))"

definition new_conn :: conn where
  "new_conn = \<lparr>cx_in = [], cx_eof = False, cx_out = [], cx_open = True\<rparr>"

text \<open>
  Every connection has its own task; the lock on the state is held for a whole request, so
  requests of several connections, scheduled passes and the outside world interleave as
  steps.
\<close>

inductive server_step :: "codec \<Rightarrow> ('t, 'w) env \<Rightarrow> conn list \<times> ('t, 'w) dstate
    \<Rightarrow> conn list \<times> ('t, 'w) dstate \<Rightarrow> bool" for cd env where
  accept: "server_step cd env (cs, st) (cs @ [new_conn], st)"
| receive: "i < length cs \<Longrightarrow> \<not> cx_eof (cs ! i) \<Longrightarrow>
    server_step cd env (cs, st) (cs[i := (cs ! i)\<lparr>cx_in := cx_in (cs ! i) @ bytes, cx_eof := ended\<rparr>], st)"
| serve_next: "i < length cs \<Longrightarrow> line_ready (cs ! i) \<Longrightarrow> serve_conn cd env (cs ! i) st = (c, st') \<Longrightarrow>
    server_step cd env (cs, st) (cs[i := c], st')"
| scheduled: "server_step cd env (cs, st) (cs, snd (scheduler_wake env st))"
| outside: "server_step cd env (cs, st) (cs, st\<lparr>ds_world := w\<rparr>)"

inductive server_reach :: "codec \<Rightarrow> ('t, 'w) env \<Rightarrow> path \<Rightarrow> conn list \<times> ('t, 'w) dstate \<Rightarrow> bool"
  for cd env path where
  boot: "load env path w = Inr st \<Longrightarrow> server_reach cd env path ([], st)"
| more: "server_reach cd env path s \<Longrightarrow> server_step cd env s s' \<Longrightarrow> server_reach cd env path s'"

inductive_cases server_stepE: "server_step cd env (cs, st) (cs', st')"

lemma serve_line_step:
  assumes "serve_line cd env line st = (out, st')"
  shows "st' = st \<or> (\<exists>rq. st' = snd (handle env rq st))"
  using assms by (auto simp: serve_line_def split: sum.splits prod.splits) (metis snd_conv)

lemma serve_conn_step:
  assumes "serve_conn cd env c st = (c', st')"
  shows "st' = st \<or> (\<exists>rq. st' = snd (handle env rq st))"
  using assms serve_line_step
  by (auto simp: serve_conn_def split: prod.splits if_splits) blast

lemma server_step_daemon:
  assumes "server_step cd env (cs, st) (cs', st')"
  shows "st' = st \<or> daemon_step env st st'"
  using assms
  by (rule server_stepE) (auto dest!: serve_conn_step intro: daemon_step.intros)

lemma server_reach_daemon: "server_reach cd env path s \<Longrightarrow> daemon_reach env path (snd s)"
proof (induction rule: server_reach.induct)
  case (boot w st)
  then show ?case by (simp add: daemon_reach.start)
next
  case (more s s')
  then show ?case
    using server_step_daemon [of cd env "fst s" "snd s" "fst s'" "snd s'"]
    by (auto intro: daemon_reach.step)
qed

section \<open>The client\<close>

datatype io_error = IoDenied string | IoOther string \<comment> \<open>the kind, and the text\<close>

fun io_text :: "io_error \<Rightarrow> string" where
  "io_text (IoDenied e) = e"
| "io_text (IoOther e) = e"

datatype ipc_error =
    IpcConnect path string
  | IpcPermissionDenied path
  | IpcIo string
  | IpcProtocol string
  | IpcClosed

text \<open>\<^verbatim>\<open>transport\<close>: opening the endpoint and the stream it gives.\<close>

record 'w wire =
  wr_connect :: "path \<Rightarrow> 'w \<Rightarrow> io_error option \<times> 'w"
  wr_write :: "string \<Rightarrow> 'w \<Rightarrow> io_error option \<times> 'w"
  wr_flush :: "'w \<Rightarrow> io_error option \<times> 'w"
  wr_read_line :: "'w \<Rightarrow> (io_error + string) \<times> 'w"

definition client_connect :: "'w wire \<Rightarrow> path \<Rightarrow> 'w \<Rightarrow> ipc_error option \<times> 'w" where
  "client_connect wr path w =
     (case wr_connect wr path w of
        (None, w1) \<Rightarrow> (None, w1)
      | (Some (IoDenied _), w1) \<Rightarrow> (Some (IpcPermissionDenied path), w1)
      | (Some (IoOther e), w1) \<Rightarrow> (Some (IpcConnect path e), w1))"

definition client_send :: "codec \<Rightarrow> 'w wire \<Rightarrow> request \<Rightarrow> 'w \<Rightarrow> (ipc_error + string response) \<times> 'w" where
  "client_send cd wr rq w =
     (case cd_put_request cd rq of
        Inl e \<Rightarrow> (Inl (IpcProtocol e), w)
      | Inr line \<Rightarrow>
     (case wr_write wr (line @ [lf]) w of
        (Some e, w1) \<Rightarrow> (Inl (IpcIo (io_text e)), w1)
      | (None, w1) \<Rightarrow>
     (case wr_flush wr w1 of
        (Some e, w2) \<Rightarrow> (Inl (IpcIo (io_text e)), w2)
      | (None, w2) \<Rightarrow>
     (case wr_read_line wr w2 of
        (Inl e, w3) \<Rightarrow> (Inl (IpcIo (io_text e)), w3)
      | (Inr answer, w3) \<Rightarrow>
          if answer = [] then (Inl IpcClosed, w3)
          else (case cd_get_response cd (trim_end answer) of
                  Inl e \<Rightarrow> (Inl (IpcProtocol e), w3)
                | Inr r \<Rightarrow> (Inr r, w3))))))"

definition client_request :: "codec \<Rightarrow> 'w wire \<Rightarrow> path \<Rightarrow> request \<Rightarrow> 'w
    \<Rightarrow> (ipc_error + string response) \<times> 'w" where
  "client_request cd wr path rq w =
     (case client_connect wr path w of
        (Some e, w1) \<Rightarrow> (Inl e, w1)
      | (None, w1) \<Rightarrow> client_send cd wr rq w1)"

subsection \<open>Failures to reach the daemon\<close>

datatype platform = Unix | Windows

fun DAEMON_HINT :: "platform \<Rightarrow> string" where
  "DAEMON_HINT Unix = ''is the daemon running? try: systemctl status vpnmgrd''"
| "DAEMON_HINT Windows = ''is the daemon running? try: sc query vpnmgrd''"

fun ACCESS_HINT :: "platform \<Rightarrow> string" where
  "ACCESS_HINT Unix =
     ''add yourself to the 'vpnmgr' group: sudo usermod -aG vpnmgr $USER'' @ [lf] @
     ''then log out and back in''"
| "ACCESS_HINT Windows =
     ''the daemon only accepts administrators and users logged in at this machine, '' @
     ''and never remote clients''"

fun ipc_error_text :: "platform \<Rightarrow> ipc_error \<Rightarrow> string" where
  "ipc_error_text p (IpcConnect path e) =
     ''cannot reach vpnmgrd at '' @ path @ '': '' @ e @ [lf] @ DAEMON_HINT p"
| "ipc_error_text p (IpcPermissionDenied path) =
     ''permission denied opening '' @ path @ [lf] @ ACCESS_HINT p"
| "ipc_error_text p (IpcIo e) = ''talking to vpnmgrd: '' @ e"
| "ipc_error_text p (IpcProtocol e) = ''vpnmgrd sent something unparseable: '' @ e"
| "ipc_error_text p IpcClosed = ''vpnmgrd closed the connection without replying''"

subsection \<open>What the encodings promise\<close>

text \<open>
  serde reads back what it wrote, for the requests and for the responses whose numbers JSON
  can carry (it has no infinity and no NaN, and the reals of the model are more than the
  doubles), so the law is stated of a message. Its text is one line of well-formed UTF-8
  that neither starts nor ends in white space.
\<close>

definition wire_text :: "string \<Rightarrow> bool" where
  "wire_text s \<longleftrightarrow> s \<noteq> [] \<and> lf \<notin> set s \<and> utf8_ok s \<and> graph_char (hd s) \<and> graph_char (last s)"

definition carries_request :: "codec \<Rightarrow> request \<Rightarrow> bool" where
  "carries_request cd rq \<longleftrightarrow>
     (\<exists>s. cd_put_request cd rq = Inr s \<and> wire_text s \<and> length s < MAX_LINE \<and> cd_get_request cd s = Inr rq)"

definition carries_response :: "codec \<Rightarrow> string response \<Rightarrow> bool" where
  "carries_response cd r \<longleftrightarrow>
     (\<exists>s. cd_put_response cd r = Inr s \<and> wire_text s \<and> cd_get_response cd s = Inr r)"

lemma utf8_ok_append: "utf8_ok s \<Longrightarrow> utf8_ok t \<Longrightarrow> utf8_ok (s @ t)"
proof (induction s rule: utf8_ok.induct)
  case (2 a s)
  then show ?case by (auto split: if_splits list.splits)
qed simp

lemma utf8_ok_lf: "utf8_ok s \<Longrightarrow> utf8_ok (s @ [lf])"
  by (rule utf8_ok_append) (simp_all add: in_bytes_def lf_def)

lemma trim_end_lf:
  assumes "wire_text s"
  shows "trim_end (s @ [lf]) = s"
proof -
  have "strip_with (map rev ws_chars) (lf # rev s) = strip_with (map rev ws_chars) (rev s)"
    by (subst strip_with.simps) (simp add: ws_chars_def lf_def)
  then show ?thesis
    using assms by (simp add: trim_end_def wire_text_def strip_with_id no_lead_graph_rev)
qed

section \<open>Client and daemon together\<close>

definition request_line :: "codec \<Rightarrow> request \<Rightarrow> string" where
  "request_line cd rq = (case cd_put_request cd rq of Inr s \<Rightarrow> s @ [lf] | Inl _ \<Rightarrow> [])"

fun handle_all :: "('t, 'w) env \<Rightarrow> request list \<Rightarrow> ('t, 'w) dstate
    \<Rightarrow> daemon_error response list \<times> ('t, 'w) dstate" where
  "handle_all env [] st = ([], st)"
| "handle_all env (rq # rqs) st =
     (case handle env rq st of (r, st1) \<Rightarrow>
        (case handle_all env rqs st1 of (rs, st2) \<Rightarrow> (r # rs, st2)))"

lemma serve_request:
  assumes "carries_request cd rq"
  shows "serve cd env (request_line cd rq @ later) st =
    (case handle env rq st of (r, st1) \<Rightarrow>
      (case serve cd env later st1 of (e, outs, st2) \<Rightarrow> (e, put_reply cd (wire_response cd r) @ outs, st2)))"
proof -
  obtain s where s: "cd_put_request cd rq = Inr s" "wire_text s" "length s < MAX_LINE"
      "cd_get_request cd s = Inr rq"
    using assms by (auto simp: carries_request_def)
  have "take_line MAX_LINE (request_line cd rq @ later) = (s @ [lf], later)"
    using take_line_line [of s MAX_LINE later] s by (simp add: request_line_def wire_text_def)
  moreover have "utf8_ok (s @ [lf])" using s(2) utf8_ok_lf by (simp add: wire_text_def)
  moreover have "serve_line cd env (s @ [lf]) st =
      (case handle env rq st of (r, st1) \<Rightarrow> (put_reply cd (wire_response cd r), st1))"
    by (simp add: serve_line_def trim_end_lf [OF s(2)] s(4))
  ultimately show ?thesis
    by (subst serve.simps) (simp split: prod.split)
qed

lemma serve_end [simp]: "serve cd env [] st = (Eof, [], st)"
  by (subst serve.simps) simp

lemma serve_requests:
  assumes "\<forall>rq\<in>set rqs. carries_request cd rq"
  shows "serve cd env (concat (map (request_line cd) rqs)) st =
    (Eof, concat (map (\<lambda>r. put_reply cd (wire_response cd r)) (fst (handle_all env rqs st))),
     snd (handle_all env rqs st))"
  using assms by (induction rqs arbitrary: st) (auto simp: serve_request split: prod.split)

text \<open>
  The stream of a client connected to a daemon that serves it alone: what was sent and not
  yet served, what was answered and not yet read, and the daemon's state. Reading waits for
  the daemon to serve what it was sent.
\<close>

definition daemon_wire :: "codec \<Rightarrow> ('t, 'w) env \<Rightarrow> (string \<times> string \<times> ('t, 'w) dstate) wire" where
  "daemon_wire cd env =
     \<lparr>wr_connect = \<lambda>path w. (None, w),
      wr_write = \<lambda>bytes (i, out, st). (None, (i @ bytes, out, st)),
      wr_flush = \<lambda>w. (None, w),
      wr_read_line = \<lambda>(i, out, st).
        (case serve cd env i st of
           (_, new, st1) \<Rightarrow>
             (case take_line (length (out @ new)) (out @ new) of
                (l, rest) \<Rightarrow> (Inr l, ([], rest, st1))))\<rparr>"

lemma client_daemon:
  assumes "carries_request cd rq"
    and "carries_response cd (wire_response cd (fst (handle env rq st)))"
  shows "client_request cd (daemon_wire cd env) path rq ([], [], st) =
    (Inr (wire_response cd (fst (handle env rq st))), ([], [], snd (handle env rq st)))"
proof -
  obtain s where s: "cd_put_request cd rq = Inr s" using assms(1) by (auto simp: carries_request_def)
  obtain t where t: "cd_put_response cd (wire_response cd (fst (handle env rq st))) = Inr t"
      "wire_text t" "cd_get_response cd t = Inr (wire_response cd (fst (handle env rq st)))"
    using assms(2) by (auto simp: carries_response_def)
  have "serve cd env (s @ [lf]) st = (Eof, t @ [lf], snd (handle env rq st))"
    using serve_request [OF assms(1), of env "[]" st] s t(1)
    by (simp add: request_line_def put_reply_def split: prod.splits)
  moreover have "take_line (length (t @ [lf])) (t @ [lf]) = (t @ [lf], [])"
    using take_line_line [of t "length (t @ [lf])" "[]"] t(2) by (simp add: wire_text_def)
  ultimately show ?thesis
    using trim_end_lf [OF t(2)] t(3)
    by (simp add: client_request_def client_connect_def client_send_def daemon_wire_def s)
qed

section \<open>Properties\<close>

text \<open>A client that connects and sends one request gets back exactly the
daemon's answer to that request, errors as their text, and the daemon ends in exactly the
state the request leads to, whenever the two messages survive their encoding and the
request fits the line limit.\<close>

lemma client_sees_the_daemon:
  assumes "carries_request cd rq"
    and "carries_response cd (wire_response cd (fst (handle env rq st)))"
  shows "client_request cd (daemon_wire cd env) path rq ([], [], st) =
    (Inr (wire_response cd (fst (handle env rq st))), ([], [], snd (handle env rq st)))"
  by (rule client_daemon [OF assms])

text \<open>Requests sent on one connection, one per line, are
handled one after the other and answered in that order, each by exactly one line, until the
client closes its side.\<close>

lemma pipelined_requests_are_answered_in_order:
  assumes "\<forall>rq\<in>set rqs. carries_request cd rq"
  shows "serve cd env (concat (map (request_line cd) rqs)) st =
    (Eof, concat (map (\<lambda>r. put_reply cd (wire_response cd r)) (fst (handle_all env rqs st))),
     snd (handle_all env rqs st))"
  by (rule serve_requests [OF assms])


text \<open>A codec that knows one request and one response, for the witnesses.\<close>

definition sample_codec :: codec where
  "sample_codec =
     \<lparr>cd_put_request = \<lambda>_. Inr ''dismiss'', cd_get_request = \<lambda>s. Inr ReqDismiss,
      cd_put_response = \<lambda>_. Inr ''refused'', cd_get_response = \<lambda>s. Inr (RespError ''nothing''),
      cd_show_error = \<lambda>e. ''nothing''\<rparr>"

lemma sample_codec_carries:
  "carries_request sample_codec ReqDismiss" "carries_response sample_codec (RespError ''nothing'')"
  by (simp_all add: carries_request_def carries_response_def sample_codec_def wire_text_def
      graph_char_def lf_def MAX_LINE_def in_bytes_def)

lemma sample_dismiss: "handle sample_env ReqDismiss sample_start = (RespError NoPendingSwitch, sample_start)"
  by (simp add: dismiss_def reply_def sample_start_def)

lemma sample_codec_error: "wire_response sample_codec (RespError e) = RespError ''nothing''"
  by (simp add: wire_response_def sample_codec_def)

text \<open>No line the daemon parses is longer than the limit, which bounds what a
client can make it buffer. A longer line is not refused: its first part is answered as a
request of its own and the rest is read as the next line.\<close>

lemma long_lines_are_cut:
  assumes "lf \<notin> set a" and "MAX_LINE \<le> length a" and "utf8_ok (take MAX_LINE a)"
  shows "length (fst (take_line MAX_LINE s)) \<le> MAX_LINE \<and>
    serve cd env (a @ b) st =
      (case serve_line cd env (take MAX_LINE a) st of (out, st1) \<Rightarrow>
        (case serve cd env (drop MAX_LINE a @ b) st1 of (e, outs, st2) \<Rightarrow> (e, out @ outs, st2)))"
proof
  show "length (fst (take_line MAX_LINE s)) \<le> MAX_LINE" by (rule take_line_bound)
  have "take MAX_LINE a \<noteq> []" using assms(2) by (auto simp: MAX_LINE_def)
  then show "serve cd env (a @ b) st =
      (case serve_line cd env (take MAX_LINE a) st of (out, st1) \<Rightarrow>
        (case serve cd env (drop MAX_LINE a @ b) st1 of (e, outs, st2) \<Rightarrow> (e, out @ outs, st2)))"
    using take_line_long [OF assms(1,2), of b] assms(3)
    by (subst serve.simps) (simp split: prod.split)
qed


end
