(* ===== verification/Daemon_Awaits.thy ===== *)
theory Daemon_Awaits
  imports Daemon_Safety
begin

text \<open>
  Where a scheduled pass of \<^verbatim>\<open>vpnmgrd/src/state.rs\<close> can be aborted: the states at its awaits, in
  their order, along the functions of \<open>Daemon_State\<close> and \<open>Daemon_Main\<close>. It awaits the fetch of
  the server list and the probes; what brings a tunnel up, moves it or takes it down does not
  await.
\<close>

section \<open>Awaits\<close>

text \<open>The fetch, when the list is stale.\<close>

definition server_list_awaits :: "('t, 'w) env \<Rightarrow> ('t, 'w) dstate \<Rightarrow> ('t, 'w) dstate list" where
  "server_list_awaits env st =
     (if list_is_stale env st
      then (case client_new (ev_http_client env (ds_world st)) of Inl _ \<Rightarrow> [] | Inr _ \<Rightarrow> [st])
      else [])"

definition probe_current_awaits :: "('t, 'w) env \<Rightarrow> string \<Rightarrow> ('t, 'w) dstate \<Rightarrow> ('t, 'w) dstate list" where
  "probe_current_awaits env name st =
     server_list_awaits env st @
     (case server_list env st of
        (Inl _, st1) \<Rightarrow> []
      | (Inr l, st1) \<Rightarrow> (case get_server l name of None \<Rightarrow> [] | Some _ \<Rightarrow> [st1]))"

definition sweep_awaits :: "('t, 'w) env \<Rightarrow> string option \<Rightarrow> ('t, 'w) dstate \<Rightarrow> ('t, 'w) dstate list" where
  "sweep_awaits env country st =
     server_list_awaits env st @
     (case server_list env st of
        (Inl _, st1) \<Rightarrow> []
      | (Inr l, st1) \<Rightarrow>
          (if sel_is_empty (filter_apply l (sweep_filters (cf_filters (ds_config st)) country)) then [] else [st1]))"

text \<open>\<^verbatim>\<open>probe_named\<close> awaits where \<^verbatim>\<open>probe_current\<close> does.\<close>

definition switch_awaits :: "('t, 'w) env \<Rightarrow> string \<Rightarrow> ('t, 'w) dstate \<Rightarrow> ('t, 'w) dstate list" where
  "switch_awaits env name st =
     (case ds_current st of None \<Rightarrow> [] | Some _ \<Rightarrow> probe_current_awaits env name st)"

definition carry_out_awaits :: "('t, 'w) env \<Rightarrow> decision \<Rightarrow> ('t, 'w) dstate \<Rightarrow> ('t, 'w) dstate list" where
  "carry_out_awaits env d st =
     (case (if is_actionable d then decision_target d else None) of
        Some s \<Rightarrow> switch_awaits env (rk_name s) st
      | None \<Rightarrow> [])"

definition autotune_awaits :: "('t, 'w) env \<Rightarrow> ('t, 'w) dstate \<Rightarrow> ('t, 'w) dstate list" where
  "autotune_awaits env st0 =
     (let st = st0\<lparr>ds_last_tune_at := Some (now env st0)\<rparr> in
      case ds_current st of
        None \<Rightarrow> []
      | Some c \<Rightarrow>
          probe_current_awaits env (cn_server c) st @
     (case probe_current env (cn_server c) st of
        (rtt, st1) \<Rightarrow>
     (case (case rtt of
              Some r \<Rightarrow> if r \<le> limit_ms (cf_autotune (ds_config st1)) then Some r else None
            | None \<Rightarrow> None) of
        Some r \<Rightarrow> []
      | None \<Rightarrow>
          sweep_awaits env None st1 @
     (case sweep env None st1 of
        (Inl _, st2) \<Rightarrow> []
      | (Inr ranked, st2) \<Rightarrow>
          carry_out_awaits env (decide (assess env c rtt ranked st2) (cf_autotune (ds_config st2))) st2))))"

text \<open>
  Where the daemon can be when its scheduler is aborted: between requests and passes, or in a
  pass that is due, at one of its awaits, with the world as it happens to be.
\<close>

definition stop_point :: "('t, 'w) env \<Rightarrow> ('t, 'w) dstate \<Rightarrow> ('t, 'w) dstate \<Rightarrow> bool" where
  "stop_point env st here \<longleftrightarrow>
     here = st \<or> time_until_next_tune env st = 0 \<and> (\<exists>x\<in>set (autotune_awaits env st). \<exists>w. here = x\<lparr>ds_world := w\<rparr>)"

section \<open>The connection at an await\<close>

definition same_link :: "('t, 'w) dstate \<Rightarrow> ('t, 'w) dstate \<Rightarrow> bool" where
  "same_link st st' \<longleftrightarrow> ds_tunnel st' = ds_tunnel st \<and> ds_current st' = ds_current st"

lemma same_link_conn: "same_conn st st' \<Longrightarrow> same_link st st'"
  by (simp add: same_link_def same_conn_def)

lemma same_link_trans: "same_link st st' \<Longrightarrow> same_link st' st'' \<Longrightarrow> same_link st st''"
  by (simp add: same_link_def)

lemma same_link_simps [simp]: "same_link st st" "same_link st (st'\<lparr>ds_world := w\<rparr>) = same_link st st'"
    "same_link st (st'\<lparr>ds_last_tune_at := t\<rparr>) = same_link st st'"
  by (simp_all add: same_link_def)

lemma server_list_awaits_link: "x \<in> set (server_list_awaits env st) \<Longrightarrow> x = st"
  by (cases "list_is_stale env st"; cases "client_new (ev_http_client env (ds_world st))")
    (simp_all add: server_list_awaits_def)

lemma probe_awaits_link:
  assumes "x \<in> set (probe_current_awaits env name st)"
  shows "same_link st x"
proof -
  obtain r st1 where l: "server_list env st = (r, st1)" by fastforce
  then show ?thesis
    using assms same_link_conn [OF server_list_frame(1) [OF l]]
    by (auto simp: probe_current_awaits_def dest: server_list_awaits_link split: sum.splits option.splits)
qed

lemma sweep_awaits_link:
  assumes "x \<in> set (sweep_awaits env country st)"
  shows "same_link st x"
proof -
  obtain r st1 where l: "server_list env st = (r, st1)" by fastforce
  then show ?thesis
    using assms same_link_conn [OF server_list_frame(1) [OF l]]
    by (auto simp: sweep_awaits_def dest: server_list_awaits_link split: sum.splits if_splits)
qed

lemma carry_out_awaits_link: "x \<in> set (carry_out_awaits env d st) \<Longrightarrow> same_link st x"
  by (auto simp: carry_out_awaits_def switch_awaits_def dest: probe_awaits_link split: option.splits if_splits)

lemma autotune_awaits_link:
  assumes "x \<in> set (autotune_awaits env st0)"
  shows "same_link st0 x"
proof -
  let ?st = "st0\<lparr>ds_last_tune_at := Some (now env st0)\<rparr>"
  obtain c where c: "ds_current ?st = Some c"
    using assms by (cases "ds_current st0") (auto simp: autotune_awaits_def Let_def)
  obtain rtt st1 where p: "probe_current env (cn_server c) ?st = (rtt, st1)" by fastforce
  obtain r st2 where w: "sweep env None st1 = (r, st2)" by fastforce
  have l1: "same_link ?st st1" by (rule same_link_conn [OF probe_current_frame [OF p]])
  have l2: "same_link ?st st2" by (rule same_link_trans [OF l1 same_link_conn [OF sweep_frame(1) [OF w]]])
  have "x \<in> set (probe_current_awaits env (cn_server c) ?st) \<or> x \<in> set (sweep_awaits env None st1) \<or>
      (\<exists>d. x \<in> set (carry_out_awaits env d st2))"
    using assms c p w by (auto simp: autotune_awaits_def Let_def split: option.splits if_splits sum.splits)
  then have "same_link ?st x"
    using probe_awaits_link sweep_awaits_link carry_out_awaits_link same_link_trans [OF l1] same_link_trans [OF l2]
    by blast
  then show ?thesis by (simp add: same_link_def)
qed

lemma stop_point_link: "stop_point env st here \<Longrightarrow> same_link st here"
  by (auto simp: stop_point_def dest: autotune_awaits_link)

end
