(* ===== verification/Daemon_Process.thy ===== *)
theory Daemon_Process
  imports Wire Daemon_Awaits
begin

text \<open>
  The process around the daemon's state: the Unix socket and who may open it
  (\<^verbatim>\<open>vpnmgr-ipc/src/transport.rs\<close>, \<^verbatim>\<open>socket_permissions\<close>), start-up, and the end of the process
  (\<^verbatim>\<open>run_daemon\<close> in \<^verbatim>\<open>vpnmgrd/src/main.rs\<close>). The file system calls are parameters and leave a
  trace, from which the socket's owner and mode follow.
\<close>

unbundle bit_operations_syntax

section \<open>The file system\<close>

record 'w posix =
  px_mkdirs :: "path \<Rightarrow> 'w \<Rightarrow> string option \<times> 'w" \<comment> \<open>the error, if any\<close>
  px_exists :: "path \<Rightarrow> 'w \<Rightarrow> bool"
  px_unlink :: "path \<Rightarrow> 'w \<Rightarrow> string option \<times> 'w"
  px_bind :: "path \<Rightarrow> 'w \<Rightarrow> string option \<times> 'w"
  px_chmod :: "path \<Rightarrow> u32 \<Rightarrow> 'w \<Rightarrow> string option \<times> 'w"
  px_chgrp :: "path \<Rightarrow> u32 \<Rightarrow> 'w \<Rightarrow> string option \<times> 'w"
  px_group :: "string \<Rightarrow> u32 option"

datatype pevent =
    PvMkdirs path bool
  | PvUnlink path bool
  | PvBind path bool
  | PvChmod path u32 bool
  | PvChgrp path u32 bool

record 'w psys =
  ps_world :: 'w
  ps_trace :: "pevent list"

text \<open>A call: its error, if any; whether it went well is in the trace.\<close>

definition pcall :: "('w \<Rightarrow> string option \<times> 'w) \<Rightarrow> (bool \<Rightarrow> pevent) \<Rightarrow> 'w psys \<Rightarrow> string option \<times> 'w psys" where
  "pcall f ev s =
     (case f (ps_world s) of (r, w) \<Rightarrow> (r, \<lparr>ps_world = w, ps_trace = ps_trace s @ [ev (r = None)]\<rparr>))"

text \<open>\<^verbatim>\<open>Path::parent\<close>, up to repeated separators.\<close>

definition path_parts :: "path \<Rightarrow> string list" where
  "path_parts p = filter (\<lambda>c. c \<noteq> []) (split_on (CHR ''/'') p)"

definition path_parent :: "path \<Rightarrow> path option" where
  "path_parent p =
     (if path_parts p = [] then None
      else Some ((if starts_with p ''/'' then ''/'' else []) @ str_join ''/'' (butlast (path_parts p))))"

section \<open>The socket\<close>

definition SOCKET_GROUP :: string where "SOCKET_GROUP = ''vpnmgr''"

text \<open>\<^verbatim>\<open>Listener::bind\<close> on Unix.\<close>

definition listener_bind :: "'w posix \<Rightarrow> path \<Rightarrow> 'w psys \<Rightarrow> (string + unit) \<times> 'w psys" where
  "listener_bind os path s0 =
     (case (case path_parent path of
              Some parent \<Rightarrow> pcall (px_mkdirs os parent) (PvMkdirs parent) s0
            | None \<Rightarrow> (None, s0)) of
        (Some e, s1) \<Rightarrow> (Inl e, s1)
      | (None, s1) \<Rightarrow>
     (case (if px_exists os path (ps_world s1) then pcall (px_unlink os path) (PvUnlink path) s1
            else (None, s1)) of
        (Some e, s2) \<Rightarrow> (Inl e, s2)
      | (None, s2) \<Rightarrow>
     (case pcall (px_bind os path) (PvBind path) s2 of
        (Some e, s3) \<Rightarrow> (Inl e, s3)
      | (None, s3) \<Rightarrow> (Inr (), s3))))"

text \<open>\<^verbatim>\<open>socket_permissions\<close>: whether the group exists. A path with a NUL byte cannot be changed.\<close>

definition socket_permissions :: "'w posix \<Rightarrow> path \<Rightarrow> 'w psys \<Rightarrow> (string + bool) \<times> 'w psys" where
  "socket_permissions os path s =
     (case px_group os SOCKET_GROUP of
        None \<Rightarrow>
          (case pcall (px_chmod os path 0x180) (PvChmod path 0x180) s of
             (Some e, s1) \<Rightarrow> (Inl e, s1)
           | (None, s1) \<Rightarrow> (Inr False, s1))
      | Some gid \<Rightarrow>
          (if CHR 0x00 \<in> set path then (Inl ''nul byte found in provided data'', s)
           else case pcall (px_chgrp os path gid) (PvChgrp path gid) s of
             (Some e, s1) \<Rightarrow> (Inl e, s1)
           | (None, s1) \<Rightarrow>
          (case pcall (px_chmod os path 0x1B0) (PvChmod path 0x1B0) s1 of
             (Some e, s2) \<Rightarrow> (Inl e, s2)
           | (None, s2) \<Rightarrow> (Inr True, s2))))"

text \<open>\<^verbatim>\<open>bind\<close>: a failure to set the permissions is logged only.\<close>

definition daemon_bind :: "'w posix \<Rightarrow> path \<Rightarrow> 'w psys \<Rightarrow> (string + unit) \<times> 'w psys" where
  "daemon_bind os path s =
     (case listener_bind os path s of
        (Inl e, s1) \<Rightarrow> (Inl e, s1)
      | (Inr _, s1) \<Rightarrow> (Inr (), snd (socket_permissions os path s1)))"

section \<open>Who may open it\<close>

text \<open>
  The socket at a path as the trace leaves it: its group and mode. A new socket belongs to
  the daemon's user and group, with the mode the process mask leaves of \<open>0777\<close>; to connect
  takes write permission.
\<close>

fun sock_step :: "path \<Rightarrow> u32 \<Rightarrow> (u32 \<times> u32) option \<Rightarrow> pevent \<Rightarrow> (u32 \<times> u32) option" where
  "sock_step p umask f (PvBind q ok) = (if q = p \<and> ok then Some (0, 0x1FF AND NOT umask) else f)"
| "sock_step p umask f (PvUnlink q ok) = (if q = p \<and> ok then None else f)"
| "sock_step p umask f (PvChmod q mode ok) = (if q = p \<and> ok then map_option (\<lambda>(g, _). (g, mode)) f else f)"
| "sock_step p umask f (PvChgrp q gid ok) = (if q = p \<and> ok then map_option (\<lambda>(_, m). (gid, m)) f else f)"
| "sock_step p umask f (PvMkdirs q ok) = f"

definition sock_after :: "path \<Rightarrow> u32 \<Rightarrow> pevent list \<Rightarrow> (u32 \<times> u32) option" where
  "sock_after p umask es = foldl (sock_step p umask) None es"

text \<open>Only root, and members of a group \<open>g\<close> if there is one, may connect.\<close>

fun guarded_sock :: "u32 option \<Rightarrow> (u32 \<times> u32) option \<Rightarrow> bool" where
  "guarded_sock g None \<longleftrightarrow> True"
| "guarded_sock g (Some (gid, mode)) \<longleftrightarrow>
     mode AND 0x02 = 0 \<and> (mode AND 0x10 \<noteq> 0 \<longrightarrow> g = Some gid)"

section \<open>Start and end of the process\<close>

text \<open>
  Start-up: the settings first, then the socket. The answer is the exit code of a process
  that could not start, or the state it serves.
\<close>

definition daemon_start :: "('t, 'w) env \<Rightarrow> 'p posix \<Rightarrow> path \<Rightarrow> path \<Rightarrow> 'w \<Rightarrow> 'p psys
    \<Rightarrow> (nat + ('t, 'w) dstate) \<times> 'p psys" where
  "daemon_start env os config socket w s =
     (case load env config w of
        Inl _ \<Rightarrow> (Inl 1, s)
      | Inr st \<Rightarrow>
     (case daemon_bind os socket s of
        (Inl _, s1) \<Rightarrow> (Inl 1, s1)
      | (Inr _, s1) \<Rightarrow> (Inr st, s1)))"

text \<open>The end: the tunnel is torn down, then the socket removed.\<close>

definition daemon_stop :: "('t, 'w) env \<Rightarrow> 'p posix \<Rightarrow> path \<Rightarrow> ('t, 'w) dstate \<Rightarrow> 'p psys
    \<Rightarrow> ('t, 'w) dstate \<times> 'p psys" where
  "daemon_stop env os socket st s =
     (shutdown env st, snd (pcall (px_unlink os socket) (PvUnlink socket) s))"

text \<open>
  A run of the process: it serves any number of connections and scheduled passes, as in
  \<open>server_step\<close>, until it is asked to stop. A request under way is waited for, because the end
  takes the lock; a scheduled pass is aborted where it awaits.
\<close>

datatype ('t, 'w, 'p) process =
    Running "conn list" "('t, 'w) dstate" "'p psys"
  | Stopped "('t, 'w) dstate" "'p psys"
  | Exited nat

inductive process_run :: "codec \<Rightarrow> ('t, 'w) env \<Rightarrow> 'p posix \<Rightarrow> path \<Rightarrow> path \<Rightarrow> ('t, 'w, 'p) process \<Rightarrow> bool"
  for cd env os config socket where
  exits: "daemon_start env os config socket w s = (Inl n, s') \<Longrightarrow> process_run cd env os config socket (Exited n)"
| serves: "daemon_start env os config socket w s = (Inr st, s') \<Longrightarrow> ps_trace s = [] \<Longrightarrow>
    process_run cd env os config socket (Running [] st s')"
| step: "process_run cd env os config socket (Running cs st s) \<Longrightarrow> server_step cd env (cs, st) (cs', st') \<Longrightarrow>
    process_run cd env os config socket (Running cs' st' s)"
| stops: "process_run cd env os config socket (Running cs st s) \<Longrightarrow> stop_point env st here \<Longrightarrow>
    daemon_stop env os socket here s = (st', s') \<Longrightarrow>
    process_run cd env os config socket (Stopped st' s')"

inductive_cases stoppedE: "process_run cd env os config socket (Stopped st s)"

section \<open>Lemmas\<close>

lemma pcall_trace: "pcall f ev s = (r, s') \<Longrightarrow> ps_trace s' = ps_trace s @ [ev (r = None)]"
  by (auto simp: pcall_def split: prod.splits)

text \<open>Every state of the socket along a trace.\<close>

fun always_guarded :: "u32 option \<Rightarrow> path \<Rightarrow> u32 \<Rightarrow> (u32 \<times> u32) option \<Rightarrow> pevent list \<Rightarrow> bool" where
  "always_guarded g p u f [] \<longleftrightarrow> guarded_sock g f"
| "always_guarded g p u f (e # es) \<longleftrightarrow> guarded_sock g f \<and> always_guarded g p u (sock_step p u f e) es"

lemma always_guarded_prefix:
  "always_guarded g p u f (es @ es') \<Longrightarrow> guarded_sock g (foldl (sock_step p u) f es)"
proof (induction es arbitrary: f)
  case Nil
  then show ?case by (cases es') auto
qed auto

lemma new_socket_mode:
  assumes "umask AND 0x12 = (0x12 :: u32)"
  shows "(0x1FF AND NOT umask) AND 0x02 = 0" and "(0x1FF AND NOT umask) AND 0x10 = 0"
proof -
  have "NOT umask AND 0x12 = NOT umask AND (umask AND 0x12)" using assms by simp
  then have n: "NOT umask AND 0x12 = 0" by (simp flip: and.assoc)
  have "(0x1FF AND NOT umask) AND 0x02 = 0x1FF AND ((NOT umask AND 0x12) AND 0x02)"
      "(0x1FF AND NOT umask) AND 0x10 = 0x1FF AND ((NOT umask AND 0x12) AND 0x10)"
    by (simp_all add: and.assoc)
  then show "(0x1FF AND NOT umask) AND 0x02 = 0" "(0x1FF AND NOT umask) AND 0x10 = 0"
    using n by simp_all
qed

text \<open>While it is being bound, the socket is its creator's alone.\<close>

fun is_bind_event :: "pevent \<Rightarrow> bool" where
  "is_bind_event (PvChmod _ _ _) \<longleftrightarrow> False"
| "is_bind_event (PvChgrp _ _ _) \<longleftrightarrow> False"
| "is_bind_event _ \<longleftrightarrow> True"

fun private_sock :: "(u32 \<times> u32) option \<Rightarrow> bool" where
  "private_sock None \<longleftrightarrow> True"
| "private_sock (Some (_, mode)) \<longleftrightarrow> mode AND 0x02 = 0 \<and> mode AND 0x10 = 0"

lemma private_guarded: "private_sock f \<Longrightarrow> guarded_sock g f"
  by (cases f) auto

lemma bind_event_private:
  "umask AND 0x12 = 0x12 \<Longrightarrow> is_bind_event e \<Longrightarrow> private_sock f \<Longrightarrow> private_sock (sock_step p umask f e)"
  by (cases e) (auto simp: new_socket_mode)

lemma bind_events_private:
  assumes "umask AND 0x12 = 0x12" and "list_all is_bind_event es" and "private_sock f"
  shows "always_guarded g p umask f es \<and> private_sock (foldl (sock_step p umask) f es)"
  using assms(2,3)
  by (induction es arbitrary: f) (auto simp: private_guarded bind_event_private [OF assms(1)])

lemma always_guarded_append:
  "always_guarded g p u f (es @ es') \<longleftrightarrow> always_guarded g p u f es \<and> always_guarded g p u (foldl (sock_step p u) f es) es'"
proof (induction es arbitrary: f)
  case Nil
  then show ?case by (cases es') auto
qed auto

lemma listener_bind_trace:
  assumes "listener_bind os p s = (r, s')"
  shows "\<exists>es. ps_trace s' = ps_trace s @ es \<and> list_all is_bind_event es"
proof -
  obtain e1 s1 where 1: "(case path_parent p of Some parent \<Rightarrow> pcall (px_mkdirs os parent) (PvMkdirs parent) s
      | None \<Rightarrow> (None, s)) = (e1, s1)" by fastforce
  obtain e2 s2 where 2: "(if px_exists os p (ps_world s1) then pcall (px_unlink os p) (PvUnlink p) s1
      else (None, s1)) = (e2, s2)" by fastforce
  obtain e3 s3 where 3: "pcall (px_bind os p) (PvBind p) s2 = (e3, s3)" by fastforce
  have t1: "ps_trace s1 = ps_trace s \<or> (\<exists>q ok. ps_trace s1 = ps_trace s @ [PvMkdirs q ok])"
    using 1 by (auto split: option.splits dest: pcall_trace)
  have t2: "ps_trace s2 = ps_trace s1 \<or> (\<exists>ok. ps_trace s2 = ps_trace s1 @ [PvUnlink p ok])"
    using 2 by (auto split: if_splits dest: pcall_trace)
  have t3: "\<exists>ok. ps_trace s3 = ps_trace s2 @ [PvBind p ok]" using pcall_trace [OF 3] by blast
  have "s' = s1 \<or> s' = s2 \<or> s' = s3"
    using assms 1 2 3 by (auto simp: listener_bind_def split: option.splits)
  then show ?thesis using t1 t2 t3 by (elim disjE exE) auto
qed

lemma socket_permissions_trace:
  assumes "socket_permissions os p s = (r, s')"
  shows "\<exists>es. ps_trace s' = ps_trace s @ es \<and>
    (es = [] \<or> (\<exists>ok. es = [PvChmod p 0x180 ok]) \<or>
     (\<exists>gid. px_group os SOCKET_GROUP = Some gid \<and>
        ((\<exists>ok. es = [PvChgrp p gid ok]) \<or> (\<exists>ok. es = [PvChgrp p gid True, PvChmod p 0x1B0 ok]))))"
proof (cases "px_group os SOCKET_GROUP")
  case None
  then have "\<exists>e. pcall (px_chmod os p 0x180) (PvChmod p 0x180) s = (e, s')"
    using assms by (auto simp: socket_permissions_def split: option.splits prod.splits)
  then obtain e where "pcall (px_chmod os p 0x180) (PvChmod p 0x180) s = (e, s')" by blast
  then show ?thesis using pcall_trace by blast
next
  case (Some gid)
  obtain e1 s1 where 1: "pcall (px_chgrp os p gid) (PvChgrp p gid) s = (e1, s1)" by fastforce
  obtain e2 s2 where 2: "pcall (px_chmod os p 0x1B0) (PvChmod p 0x1B0) s1 = (e2, s2)" by fastforce
  have "s' = s \<or> s' = s1 \<or> e1 = None \<and> s' = s2"
    using assms Some 1 2 by (auto simp: socket_permissions_def split: option.splits if_splits)
  then show ?thesis using Some pcall_trace [OF 1] pcall_trace [OF 2] by auto
qed

lemma permissions_guarded:
  assumes "socket_permissions os p s = (r, s')" and "private_sock f"
  obtains es where "ps_trace s' = ps_trace s @ es" and "always_guarded (px_group os SOCKET_GROUP) p u f es"
proof -
  from socket_permissions_trace [OF assms(1)] obtain es where t: "ps_trace s' = ps_trace s @ es"
      and es: "es = [] \<or> (\<exists>ok. es = [PvChmod p 0x180 ok]) \<or>
       (\<exists>gid. px_group os SOCKET_GROUP = Some gid \<and>
          ((\<exists>ok. es = [PvChgrp p gid ok]) \<or> (\<exists>ok. es = [PvChgrp p gid True, PvChmod p 0x1B0 ok])))"
    by blast
  have "always_guarded (px_group os SOCKET_GROUP) p u f es"
    using es assms(2) by (cases f) auto
  then show ?thesis using that t by blast
qed

lemma daemon_bind_guarded:
  assumes "daemon_bind os p s = (r, s')" and "ps_trace s = []" and "umask AND 0x12 = 0x12"
  shows "always_guarded (px_group os SOCKET_GROUP) p umask None (ps_trace s')"
proof -
  obtain r1 s1 where 1: "listener_bind os p s = (r1, s1)" by fastforce
  obtain r2 s2 where 2: "socket_permissions os p s1 = (r2, s2)" by fastforce
  from listener_bind_trace [OF 1] assms(2) have b: "list_all is_bind_event (ps_trace s1)" by auto
  note priv = bind_events_private [OF assms(3) b, of None "px_group os SOCKET_GROUP" p]
  obtain es where es: "ps_trace s2 = ps_trace s1 @ es"
      "always_guarded (px_group os SOCKET_GROUP) p umask (foldl (sock_step p umask) None (ps_trace s1)) es"
    using permissions_guarded [OF 2] priv by (metis private_sock.simps(1))
  have "s' = s1 \<or> s' = s2" using assms(1) 1 2 by (auto simp: daemon_bind_def split: sum.splits)
  then show ?thesis using priv es by (auto simp: always_guarded_append)
qed

lemma process_bound:
  assumes "process_run cd env os config socket (Running cs st s)"
  obtains s0 where "ps_trace s0 = []" and "\<exists>r. daemon_bind os socket s0 = (r, s)"
    and "server_reach cd env config (cs, st)"
proof -
  have "\<exists>s0 r. ps_trace s0 = [] \<and> daemon_bind os socket s0 = (r, s) \<and> server_reach cd env config (cs, st)"
    using assms
  proof (induction "Running cs st s" arbitrary: cs st s rule: process_run.induct)
    case (serves w s0 st s')
    then show ?case
      by (auto simp: daemon_start_def split: sum.splits prod.splits intro: server_reach.boot)
  next
    case (step cs st s cs' st')
    then show ?case by (meson server_reach.more)
  qed
  then show ?thesis using that by blast
qed

section \<open>Properties\<close>

text \<open>C6: from the moment it exists, while the daemon starts and for
as long as it serves, the socket can be opened by root and the members of the daemon's group
only, by nobody else when there is no such group; also when setting its owner or mode fails,
provided the process mask keeps writing from group and others.\<close>

theorem only_the_group_reaches_the_socket:
  assumes "process_run cd env os config socket (Running cs st s)" and "umask AND 0x12 = 0x12"
    and "ps_trace s = es @ es'"
  shows "guarded_sock (px_group os SOCKET_GROUP) (sock_after socket umask es)"
proof -
  obtain s0 r where "ps_trace s0 = []" "daemon_bind os socket s0 = (r, s)"
    using process_bound [OF assms(1)] by metis
  then show ?thesis
    using daemon_bind_guarded [OF _ _ assms(2)] always_guarded_prefix assms(3)
    unfolding sock_after_def by metis
qed


text \<open>A machine with the group on which every call succeeds.\<close>

definition sample_posix :: "unit posix" where
  "sample_posix =
     \<lparr>px_mkdirs = \<lambda>p w. (None, w), px_exists = \<lambda>p w. True, px_unlink = \<lambda>p w. (None, w),
      px_bind = \<lambda>p w. (None, w), px_chmod = \<lambda>p m w. (None, w), px_chgrp = \<lambda>p g w. (None, w),
      px_group = \<lambda>n. Some 7\<rparr>"

definition sample_events :: "pevent list" where
  "sample_events =
     [PvMkdirs ''/run/vpnmgr'' True, PvUnlink ''/run/vpnmgr/sock'' True, PvBind ''/run/vpnmgr/sock'' True,
      PvChgrp ''/run/vpnmgr/sock'' 7 True, PvChmod ''/run/vpnmgr/sock'' 0x1B0 True]"

lemma sample_process:
  "process_run sample_codec sample_env sample_posix ''config.toml'' ''/run/vpnmgr/sock''
     (Running [] sample_start \<lparr>ps_world = (), ps_trace = sample_events\<rparr>)"
proof -
  have parent: "path_parent ''/run/vpnmgr/sock'' = Some ''/run/vpnmgr''" by code_simp
  have bind: "daemon_bind sample_posix ''/run/vpnmgr/sock'' \<lparr>ps_world = (), ps_trace = []\<rparr>
      = (Inr (), \<lparr>ps_world = (), ps_trace = sample_events\<rparr>)"
    by (simp add: daemon_bind_def listener_bind_def parent socket_permissions_def sample_posix_def pcall_def
        sample_events_def)
  show ?thesis
    by (rule process_run.serves [where w = 0 and s = "\<lparr>ps_world = (), ps_trace = []\<rparr>"])
      (simp_all add: daemon_start_def sample_load bind)
qed

theorem only_the_group_reaches_the_socket_witness:
  "guarded_sock (Some 7) (sock_after ''/run/vpnmgr/sock'' 0x12 sample_events) \<and>
   sock_after ''/run/vpnmgr/sock'' 0x12 sample_events = Some (7, 0x1B0)"
  using only_the_group_reaches_the_socket [OF sample_process, where umask = "0x12" and es = sample_events and es' = "[]"]
  by (simp add: sample_posix_def) (simp add: sock_after_def sample_events_def)


end
