(* ===== verification/Win_Service.thy ===== *)
theory Win_Service
  imports Daemon_Process
begin

text \<open>
  \<^verbatim>\<open>vpnmgrd/src/service.rs\<close> and the start of \<^verbatim>\<open>main\<close>: the daemon as a Windows service. The
  control handler runs on a thread of the system's and can only signal; the daemon is
  signalled through a \<^verbatim>\<open>Notify\<close>, which wakes who is waiting and remembers nothing. The service
  manager is a parameter.
\<close>

section \<open>Registration\<close>

definition SERVICE_NAME :: string where "SERVICE_NAME = ''vpnmgrd''"

definition LOG_PATH :: string where
  "LOG_PATH = ''C:'' @ [CHR 0x5C] @ ''ProgramData'' @ [CHR 0x5C] @ ''vpnmgr-logs'' @ [CHR 0x5C] @ ''vpnmgrd.log''"

datatype svc_state = SvcStopped | SvcRunning | SvcOther

record service_info =
  si_name :: string
  si_display_name :: string
  si_auto_start :: bool
  si_executable :: path
  si_arguments :: "string list"
  si_account :: "string option"

record 'w scm =
  sc_connect :: "'w \<Rightarrow> string option \<times> 'w" \<comment> \<open>the error, if any\<close>
  sc_current_exe :: "string + path"
  sc_create :: "service_info \<Rightarrow> 'w \<Rightarrow> string option \<times> 'w"
  sc_describe :: "string \<Rightarrow> 'w \<Rightarrow> string option \<times> 'w"
  sc_open :: "string \<Rightarrow> 'w \<Rightarrow> string option \<times> 'w"
  sc_query :: "'w \<Rightarrow> (string + svc_state) \<times> 'w"
  sc_stop :: "'w \<Rightarrow> string option \<times> 'w"
  sc_sleep :: "duration \<Rightarrow> 'w \<Rightarrow> 'w"
  sc_delete :: "'w \<Rightarrow> string option \<times> 'w"

definition install_info :: "path \<Rightarrow> path \<Rightarrow> service_info" where
  "install_info exe config =
     \<lparr>si_name = SERVICE_NAME, si_display_name = ''vpnmgr WireGuard VPN manager'', si_auto_start = True,
      si_executable = exe,
      si_arguments = [''--service'', ''--config'', config, ''--log-file'', LOG_PATH],
      si_account = None\<rparr>"

definition service_install :: "'w scm \<Rightarrow> path \<Rightarrow> 'w \<Rightarrow> (string + unit) \<times> 'w" where
  "service_install m config w0 =
     (case sc_connect m w0 of
        (Some e, w1) \<Rightarrow> (Inl e, w1)
      | (None, w1) \<Rightarrow>
     (case sc_current_exe m of
        Inl e \<Rightarrow> (Inl e, w1)
      | Inr exe \<Rightarrow>
     (case sc_create m (install_info exe config) w1 of
        (Some e, w2) \<Rightarrow> (Inl e, w2)
      | (None, w2) \<Rightarrow>
     (case sc_describe m ''Keeps this machine on a fast AirVPN WireGuard server, re-testing periodically.'' w2 of
        (Some e, w3) \<Rightarrow> (Inl e, w3)
      | (None, w3) \<Rightarrow> (Inr (), w3)))))"

definition service_uninstall :: "'w scm \<Rightarrow> 'w \<Rightarrow> (string + unit) \<times> 'w" where
  "service_uninstall m w0 =
     (case sc_connect m w0 of
        (Some e, w1) \<Rightarrow> (Inl e, w1)
      | (None, w1) \<Rightarrow>
     (case sc_open m SERVICE_NAME w1 of
        (Some e, w2) \<Rightarrow> (Inl e, w2)
      | (None, w2) \<Rightarrow>
     (case sc_query m w2 of
        (q, w3) \<Rightarrow>
     (let w4 = (case q of
                  Inr state \<Rightarrow>
                    if state \<noteq> SvcStopped then sc_sleep m (from_secs 2) (snd (sc_stop m w3)) else w3
                | Inl _ \<Rightarrow> w3)
      in case sc_delete m w4 of
        (Some e, w5) \<Rightarrow> (Inl e, w5)
      | (None, w5) \<Rightarrow> (Inr (), w5)))))"

section \<open>The control handler\<close>

datatype control = CtlStop | CtlShutdown | CtlInterrogate | CtlOther

datatype control_reply = NoError | NotImplemented

text \<open>A \<^verbatim>\<open>Notify\<close> with the one waiter there is.\<close>

record notify =
  no_waiting :: bool
  no_woken :: bool

definition notify_new :: notify where
  "notify_new = \<lparr>no_waiting = False, no_woken = False\<rparr>"

definition notify_waiters :: "notify \<Rightarrow> notify" where
  "notify_waiters n = (if no_waiting n then \<lparr>no_waiting = False, no_woken = True\<rparr> else n)"

text \<open>\<^verbatim>\<open>stop_requested\<close>, the first time it is polled.\<close>

definition stop_requested :: "notify \<Rightarrow> notify" where
  "stop_requested n = n\<lparr>no_waiting := True\<rparr>"

fun control_handler :: "control \<Rightarrow> notify \<Rightarrow> control_reply \<times> notify" where
  "control_handler CtlInterrogate n = (NoError, n)"
| "control_handler CtlStop n = (NoError, notify_waiters n)"
| "control_handler CtlShutdown n = (NoError, notify_waiters n)"
| "control_handler CtlOther n = (NotImplemented, n)"

section \<open>The life of the service\<close>

text \<open>
  \<^verbatim>\<open>serve\<close>: the handler is registered, the service reported as running, the daemon run, the
  service reported as stopped. \<open>Loading\<close> is the daemon before its loop waits for the stop;
  a daemon that cannot start ends the process there and then.
\<close>

datatype phase = Registered | Loading | Looping | TornDown | Finished | Died

record ('t, 'w) service =
  sv_phase :: phase
  sv_notify :: notify
  sv_reported :: "svc_state option"
  sv_conns :: "conn list"
  sv_daemon :: "('t, 'w) dstate option"

definition service_new :: "('t, 'w) service" where
  "service_new =
     \<lparr>sv_phase = Registered, sv_notify = notify_new, sv_reported = None, sv_conns = [], sv_daemon = None\<rparr>"

inductive service_step :: "codec \<Rightarrow> ('t, 'w) env \<Rightarrow> path \<Rightarrow> ('t, 'w) service \<Rightarrow> ('t, 'w) service \<Rightarrow> bool"
  for cd env config where
  report_running: "sv_phase s = Registered \<Longrightarrow>
    service_step cd env config s (s\<lparr>sv_phase := Loading, sv_reported := Some SvcRunning\<rparr>)"
| fails: "sv_phase s = Loading \<Longrightarrow> service_step cd env config s (s\<lparr>sv_phase := Died\<rparr>)"
| ready: "sv_phase s = Loading \<Longrightarrow> load env config w = Inr st \<Longrightarrow>
    service_step cd env config s
      (s\<lparr>sv_phase := Looping, sv_daemon := Some st, sv_notify := stop_requested (sv_notify s)\<rparr>)"
| serves: "sv_phase s = Looping \<Longrightarrow> sv_daemon s = Some st \<Longrightarrow>
    server_step cd env (sv_conns s, st) (cs', st') \<Longrightarrow>
    service_step cd env config s (s\<lparr>sv_conns := cs', sv_daemon := Some st'\<rparr>)"
| tears_down: "sv_phase s = Looping \<Longrightarrow> no_woken (sv_notify s) \<Longrightarrow> sv_daemon s = Some st \<Longrightarrow>
    stop_point env st here \<Longrightarrow>
    service_step cd env config s (s\<lparr>sv_phase := TornDown, sv_daemon := Some (shutdown env here)\<rparr>)"
| report_stopped: "sv_phase s = TornDown \<Longrightarrow>
    service_step cd env config s (s\<lparr>sv_phase := Finished, sv_reported := Some SvcStopped\<rparr>)"
| control: "control_handler c (sv_notify s) = (r, n) \<Longrightarrow>
    service_step cd env config s (s\<lparr>sv_notify := n\<rparr>)"

inductive service_reach :: "codec \<Rightarrow> ('t, 'w) env \<Rightarrow> path \<Rightarrow> ('t, 'w) service \<Rightarrow> bool"
  for cd env config where
  start: "service_reach cd env config service_new"
| step: "service_reach cd env config s \<Longrightarrow> service_step cd env config s s' \<Longrightarrow> service_reach cd env config s'"

inductive_cases service_stepE: "service_step cd env config s s'"

section \<open>How the program is started\<close>

record flags =
  fl_install :: bool
  fl_uninstall :: bool
  fl_service :: bool
  fl_config :: path

datatype launch = LaunchInstall path | LaunchUninstall | LaunchService | LaunchDaemon

text \<open>\<^verbatim>\<open>main\<close> on Windows; elsewhere it runs the daemon.\<close>

definition launch_of :: "flags \<Rightarrow> launch" where
  "launch_of f =
     (if fl_install f then LaunchInstall (fl_config f)
      else if fl_uninstall f then LaunchUninstall
      else if fl_service f then LaunchService
      else LaunchDaemon)"

section \<open>Invariant\<close>

definition service_ok :: "('t, 'w) service \<Rightarrow> bool" where
  "service_ok s \<longleftrightarrow>
     (sv_phase s = Looping \<longrightarrow>
        (\<exists>st. sv_daemon s = Some st \<and> linked st) \<and> (no_waiting (sv_notify s) \<or> no_woken (sv_notify s))) \<and>
     (sv_phase s = TornDown \<or> sv_phase s = Finished \<longrightarrow>
        (\<exists>st. sv_daemon s = Some st \<and> ds_tunnel st = None \<and> ds_current st = None)) \<and>
     (sv_phase s = Registered \<or> sv_phase s = Loading \<longrightarrow> sv_daemon s = None \<and> sv_notify s = notify_new) \<and>
     (sv_reported s = Some SvcStopped \<longleftrightarrow> sv_phase s = Finished)"

lemma shutdown_down: "linked st \<Longrightarrow> ds_tunnel (shutdown env st) = None \<and> ds_current (shutdown env st) = None"
  by (auto simp: shutdown_def is_connected_def disconnect_def linked_def split: option.splits prod.splits)

lemma server_step_linked: "server_step cd env (cs, st) (cs', st') \<Longrightarrow> linked st \<Longrightarrow> linked st'"
  using server_step_daemon linked_inv.kept by blast

lemma handler_early: "control_handler c notify_new = (r, n) \<Longrightarrow> n = notify_new"
  by (cases c) (auto simp: notify_waiters_def notify_new_def)

lemma handler_heard:
  "control_handler c n = (r, n') \<Longrightarrow> no_waiting n \<or> no_woken n \<Longrightarrow> no_waiting n' \<or> no_woken n'"
  by (cases c) (auto simp: notify_waiters_def split: if_splits)

lemma service_step_ok:
  assumes "service_step cd env config s s'" and "service_ok s"
  shows "service_ok s'"
  using assms
proof (cases rule: service_step.cases)
  case (ready w st)
  then show ?thesis
    using assms(2) load_linked [of env config w st] by (auto simp: service_ok_def stop_requested_def)
next
  case (serves st cs' st')
  then show ?thesis using assms(2) server_step_linked by (auto simp: service_ok_def)
next
  case (tears_down st here)
  then have "linked here"
    using assms(2) stop_point_link [of env st here] by (auto simp: service_ok_def linked_def same_link_def)
  then show ?thesis using tears_down assms(2) shutdown_down by (auto simp: service_ok_def)
next
  case (control c r n)
  then show ?thesis using assms(2) handler_early handler_heard by (fastforce simp: service_ok_def)
qed (auto simp: service_ok_def)

lemma service_reach_ok: "service_reach cd env config s \<Longrightarrow> service_ok s"
proof (induction rule: service_reach.induct)
  case start
  then show ?case by (simp add: service_ok_def service_new_def)
next
  case (step s s')
  then show ?case using service_step_ok by blast
qed

section \<open>Properties\<close>



end
