(* ===== verification/Win_Pipe.thy ===== *)
theory Win_Pipe
  imports Rust_Str Net
begin

text \<open>
  The Windows half of \<^verbatim>\<open>vpnmgr-ipc/src/transport.rs\<close>: the named pipe the daemon serves, one
  instance per connection, and the access descriptor every instance carries. The conversion
  of the descriptor and the pipe calls are parameters; what the text of a descriptor grants
  is written out after the documentation of Windows.
\<close>

unbundle bit_operations_syntax

section \<open>The descriptor\<close>

definition SDDL :: string where
  "SDDL = ''D:P(A;;GA;;;SY)(A;;GA;;;BA)(A;;GRGW;;;IU)''"

text \<open>The entries of a descriptor: what stands between parentheses, its fields between semicolons.\<close>

fun paren_blocks :: "string \<Rightarrow> string list" where
  "paren_blocks [] = []"
| "paren_blocks (c # s) =
     (if c = CHR ''('' then takeWhile (\<lambda>d. d \<noteq> CHR '')'') s # paren_blocks s else paren_blocks s)"

definition sddl_aces :: "string \<Rightarrow> string list list" where
  "sddl_aces s = map (split_on (CHR '';'')) (paren_blocks s)"

text \<open>Rights, two letters each, and what the generic ones mean for a pipe.\<close>

definition FILE_CREATE_PIPE_INSTANCE :: u32 where "FILE_CREATE_PIPE_INSTANCE = 0x4"
definition FILE_READ_DATA :: u32 where "FILE_READ_DATA = 0x1"
definition FILE_WRITE_DATA :: u32 where "FILE_WRITE_DATA = 0x2"
definition WRITE_DAC :: u32 where "WRITE_DAC = 0x40000"

fun rights_mask :: "string \<Rightarrow> u32" where
  "rights_mask (a # b # s) =
     (if [a, b] = ''GA'' then 0x1F01FF else if [a, b] = ''GR'' then 0x120089
      else if [a, b] = ''GW'' then 0x120116 else 0) OR rights_mask s"
| "rights_mask _ = 0"

text \<open>Access of a caller, given the groups of its token; the descriptor has no deny entries.\<close>

fun ace_mask :: "string set \<Rightarrow> string list \<Rightarrow> u32" where
  "ace_mask groups [kind, flags, rights, obj, inherit, sid] =
     (if kind = ''A'' \<and> sid \<in> groups then rights_mask rights else 0)"
| "ace_mask groups _ = 0"

definition access :: "string \<Rightarrow> string set \<Rightarrow> u32" where
  "access sddl groups = foldr (\<lambda>a m. ace_mask groups a OR m) (sddl_aces sddl) 0"

section \<open>The listener\<close>

record pipe_instance =
  pi_name :: string
  pi_first :: bool
  pi_reject_remote :: bool
  pi_sddl :: string
  pi_inherit :: bool

record 'w pipe_os =
  po_convert :: "string \<Rightarrow> string option" \<comment> \<open>the error, if any\<close>
  po_create :: "pipe_instance \<Rightarrow> 'w \<Rightarrow> string option \<times> 'w"
  po_connect :: "pipe_instance \<Rightarrow> 'w \<Rightarrow> string option \<times> 'w"

record pipe_listener =
  pl_name :: string
  pl_next :: pipe_instance

definition pipe_create :: "'w pipe_os \<Rightarrow> string \<Rightarrow> bool \<Rightarrow> 'w \<Rightarrow> (string + pipe_instance) \<times> 'w" where
  "pipe_create os name first w =
     (case po_convert os SDDL of
        Some e \<Rightarrow> (Inl e, w)
      | None \<Rightarrow>
          (let p = \<lparr>pi_name = name, pi_first = first, pi_reject_remote = True, pi_sddl = SDDL, pi_inherit = False\<rparr>
           in case po_create os p w of
                (Some e, w1) \<Rightarrow> (Inl e, w1)
              | (None, w1) \<Rightarrow> (Inr p, w1)))"

definition pipe_bind :: "'w pipe_os \<Rightarrow> string \<Rightarrow> 'w \<Rightarrow> (string + pipe_listener) \<times> 'w" where
  "pipe_bind os name w =
     (case pipe_create os name True w of
        (Inl e, w1) \<Rightarrow> (Inl e, w1)
      | (Inr p, w1) \<Rightarrow> (Inr \<lparr>pl_name = name, pl_next = p\<rparr>, w1))"

text \<open>Accepting hands the waiting instance over and puts a new one in its place.\<close>

definition pipe_accept :: "'w pipe_os \<Rightarrow> pipe_listener \<Rightarrow> 'w
    \<Rightarrow> (string + pipe_instance) \<times> pipe_listener \<times> 'w" where
  "pipe_accept os l w =
     (case po_connect os (pl_next l) w of
        (Some e, w1) \<Rightarrow> (Inl e, l, w1)
      | (None, w1) \<Rightarrow>
     (case pipe_create os (pl_name l) False w1 of
        (Inl e, w2) \<Rightarrow> (Inl e, l, w2)
      | (Inr replacement, w2) \<Rightarrow> (Inr (pl_next l), l\<lparr>pl_next := replacement\<rparr>, w2)))"

text \<open>The daemon's loop: a failure to accept is logged and the loop goes on. The streams served.\<close>

fun accept_loop :: "'w pipe_os \<Rightarrow> nat \<Rightarrow> pipe_listener \<Rightarrow> 'w \<Rightarrow> pipe_instance list \<times> pipe_listener \<times> 'w" where
  "accept_loop os 0 l w = ([], l, w)"
| "accept_loop os (Suc n) l w =
     (case pipe_accept os l w of
        (Inl _, l1, w1) \<Rightarrow> accept_loop os n l1 w1
      | (Inr s, l1, w1) \<Rightarrow> (case accept_loop os n l1 w1 of (ss, l2, w2) \<Rightarrow> (s # ss, l2, w2)))"

section \<open>Lemmas\<close>

text \<open>The instance a daemon makes under a name.\<close>

definition own_instance :: "string \<Rightarrow> bool \<Rightarrow> pipe_instance" where
  "own_instance name first =
     \<lparr>pi_name = name, pi_first = first, pi_reject_remote = True, pi_sddl = SDDL, pi_inherit = False\<rparr>"

lemma pipe_create_own: "pipe_create os name first w = (Inr p, w') \<Longrightarrow> p = own_instance name first"
  by (auto simp: pipe_create_def own_instance_def Let_def split: option.splits prod.splits)

lemma pipe_bind_own:
  "pipe_bind os name w = (Inr l, w') \<Longrightarrow> l = \<lparr>pl_name = name, pl_next = own_instance name True\<rparr>"
  by (auto simp: pipe_bind_def split: prod.splits sum.splits dest: pipe_create_own)

text \<open>The instance waiting after \<open>k\<close> connections, and the streams handed out before.\<close>

lemma accept_loop_own:
  assumes "accept_loop os n \<lparr>pl_name = name, pl_next = own_instance name first\<rparr> w = (ss, l, w')"
  shows "ss = map (\<lambda>i. own_instance name (first \<and> i = 0)) [0..<length ss] \<and>
    l = \<lparr>pl_name = name, pl_next = own_instance name (first \<and> ss = [])\<rparr>"
  using assms
proof (induction n arbitrary: first w ss l w')
  case (Suc n)
  let ?l = "\<lparr>pl_name = name, pl_next = own_instance name first\<rparr>"
  obtain r l1 w1 where a: "pipe_accept os ?l w = (r, l1, w1)" by (cases "pipe_accept os ?l w") auto
  show ?case
  proof (cases r)
    case (Inl e)
    then have "l1 = ?l" using a by (auto simp: pipe_accept_def split: option.splits prod.splits sum.splits)
    then show ?thesis using Suc a Inl by simp
  next
    case (Inr s)
    then have l1: "s = own_instance name first" "l1 = \<lparr>pl_name = name, pl_next = own_instance name False\<rparr>"
      using a by (auto simp: pipe_accept_def split: option.splits prod.splits sum.splits dest: pipe_create_own)
    obtain ss1 l2 w2 where n: "accept_loop os n l1 w1 = (ss1, l2, w2)" by (cases "accept_loop os n l1 w1") auto
    have ss: "ss = s # ss1" "l = l2" using Suc.prems a Inr n by auto
    note IH = Suc.IH [OF n [unfolded l1]]
    have "map (\<lambda>i. own_instance name (first \<and> i = 0)) [0..<Suc (length ss1)] =
        own_instance name first # map (\<lambda>i. own_instance name False) [0..<length ss1]"
      by (subst upt_conv_Cons) (auto simp del: upt_Suc simp flip: map_Suc_upt)
    then show ?thesis using IH l1 ss by simp
  qed
qed simp

lemma sddl_entries:
  "sddl_aces SDDL =
     [[''A'', [], ''GA'', [], [], ''SY''], [''A'', [], ''GA'', [], [], ''BA''], [''A'', [], ''GRGW'', [], [], ''IU'']]"
  by code_simp

lemma sddl_access:
  "access SDDL groups =
     (if ''SY'' \<in> groups then 0x1F01FF else 0) OR (if ''BA'' \<in> groups then 0x1F01FF else 0) OR
     (if ''IU'' \<in> groups then 0x12019F else 0)"
  by (simp add: access_def sddl_entries)

text \<open>
  Generic write on a pipe includes the right to create instances of it, so a user who is
  logged in may serve the daemon's name beside the daemon.
\<close>

lemma interactive_user_may_serve: "access SDDL {''IU''} AND FILE_CREATE_PIPE_INSTANCE \<noteq> 0"
  by (simp add: sddl_access FILE_CREATE_PIPE_INSTANCE_def)

section \<open>Properties\<close>

text \<open>C7: on Windows the daemon's pipe refuses other machines and grants
something only to the system, to administrators and to users logged in at the machine, who
may read and write but not change who has access, on every instance handed to a connection
and on the one waiting for the next; there is always one waiting, and only the first claims
the name for itself.\<close>

theorem pipe_is_for_local_users:
  assumes "pipe_bind os name w = (Inr l0, w0)" and "accept_loop os n l0 w0 = (ss, l, w')"
  shows "\<forall>i\<le>length ss. \<exists>p. (ss @ [pl_next l]) ! i = p \<and> pi_name p = name \<and> pi_reject_remote p \<and>
    (pi_first p \<longleftrightarrow> i = 0) \<and>
    (groups \<inter> {''SY'', ''BA'', ''IU''} = {} \<longrightarrow> access (pi_sddl p) groups = 0) \<and>
    (groups \<inter> {''SY'', ''BA''} = {} \<longrightarrow> access (pi_sddl p) groups AND WRITE_DAC = 0) \<and>
    (''IU'' \<in> groups \<longrightarrow> access (pi_sddl p) groups AND FILE_READ_DATA \<noteq> 0 \<and>
       access (pi_sddl p) groups AND FILE_WRITE_DATA \<noteq> 0)"
proof (intro allI impI)
  fix i assume i: "i \<le> length ss"
  note l0 = pipe_bind_own [OF assms(1)]
  note own = accept_loop_own [OF assms(2) [unfolded l0]]
  have "(ss @ [pl_next l]) ! i = own_instance name (i = 0)"
  proof (cases "i = length ss")
    case True
    then show ?thesis using own by (simp add: nth_append)
  next
    case False
    then have k: "i < length ss" using i by simp
    then have "ss ! i = own_instance name (True \<and> i = 0)"
      by (subst conjunct1 [OF own]) (simp only: nth_map length_upt nth_upt diff_zero add_0)
    then show ?thesis using k by (simp add: nth_append)
  qed
  then show "\<exists>p. (ss @ [pl_next l]) ! i = p \<and> pi_name p = name \<and> pi_reject_remote p \<and>
    (pi_first p \<longleftrightarrow> i = 0) \<and>
    (groups \<inter> {''SY'', ''BA'', ''IU''} = {} \<longrightarrow> access (pi_sddl p) groups = 0) \<and>
    (groups \<inter> {''SY'', ''BA''} = {} \<longrightarrow> access (pi_sddl p) groups AND WRITE_DAC = 0) \<and>
    (''IU'' \<in> groups \<longrightarrow> access (pi_sddl p) groups AND FILE_READ_DATA \<noteq> 0 \<and>
       access (pi_sddl p) groups AND FILE_WRITE_DATA \<noteq> 0)"
    by (simp add: own_instance_def sddl_access WRITE_DAC_def FILE_READ_DATA_def FILE_WRITE_DATA_def)
qed

text \<open>Two users, one of whom is not logged in at the machine.\<close>

definition sample_pipes :: "unit pipe_os" where
  "sample_pipes = \<lparr>po_convert = \<lambda>_. None, po_create = \<lambda>_ w. (None, w), po_connect = \<lambda>_ w. (None, w)\<rparr>"

theorem pipe_is_for_local_users_witness:
  "\<exists>l ss l'. pipe_bind sample_pipes ''vpnmgr'' () = (Inr l, ()) \<and>
     accept_loop sample_pipes 1 l () = (ss, l', ()) \<and> length ss = 1 \<and>
     access (pi_sddl (pl_next l')) {''AU''} = 0 \<and> access (pi_sddl (hd ss)) {''IU''} AND FILE_READ_DATA \<noteq> 0"
proof -
  let ?p = "own_instance ''vpnmgr''"
  let ?l = "\<lambda>f. \<lparr>pl_name = ''vpnmgr'', pl_next = ?p f\<rparr>"
  have b: "pipe_bind sample_pipes ''vpnmgr'' () = (Inr (?l True), ())"
    by (simp add: pipe_bind_def pipe_create_def sample_pipes_def own_instance_def)
  have a: "accept_loop sample_pipes 1 (?l True) () = ([?p True], ?l False, ())"
    by (simp add: pipe_accept_def pipe_create_def sample_pipes_def own_instance_def)
  have "access (pi_sddl (?p False)) {''AU''} = 0"
    using pipe_is_for_local_users [OF b a, of "{''AU''}", rule_format, of 1] by simp
  moreover have "access (pi_sddl (?p True)) {''IU''} AND FILE_READ_DATA \<noteq> 0"
    using pipe_is_for_local_users [OF b a, of "{''IU''}", rule_format, of 0] by simp
  ultimately show ?thesis using a b
    by (intro exI [of _ "?l True"] exI [of _ "[?p True]"] exI [of _ "?l False"]) simp
qed

end
