(* ===== verification/Notify.thy ===== *)
theory Notify
  imports Daemon_Main
begin

text \<open>
  \<^verbatim>\<open>vpnmgrd/src/notify.rs\<close> on Linux: which desktop sessions there are and the commands that post
  a notification into them; and the scheduler's round with the notification it raises. The
  directory of sessions and running a command as a user are parameters.
\<close>

section \<open>Sessions\<close>

definition FIRST_HUMAN_UID :: u32 where "FIRST_HUMAN_UID = 1000"

definition urgency_text :: "urgency \<Rightarrow> string" where
  "urgency_text u = (case u of Normal \<Rightarrow> ''normal'' | Critical \<Rightarrow> ''critical'')"

text \<open>An entry of \<^verbatim>\<open>/run/user\<close>: its name, whether it has a bus socket, and its group if readable.\<close>

record run_entry =
  re_name :: string
  re_bus :: bool
  re_gid :: "u32 option"

definition session_of :: "run_entry \<Rightarrow> (u32 \<times> u32) option" where
  "session_of e =
     (case parse_unsigned (2 ^ 32) (re_name e) of
        None \<Rightarrow> None
      | Some n \<Rightarrow>
          (let uid = of_nat n in
           if uid < FIRST_HUMAN_UID then None
           else if \<not> re_bus e then None
           else Some (uid, case re_gid e of Some g \<Rightarrow> g | None \<Rightarrow> uid)))"

text \<open>The listing: \<open>None\<close> if it cannot be read; an entry is \<open>None\<close> if it cannot.\<close>

fun collect_sessions :: "run_entry option list \<Rightarrow> (u32 \<times> u32) list" where
  "collect_sessions [] = []"
| "collect_sessions (None # es) = collect_sessions es"
| "collect_sessions (Some e # es) =
     (case session_of e of Some s \<Rightarrow> s # collect_sessions es | None \<Rightarrow> collect_sessions es)"

definition sessions :: "run_entry option list option \<Rightarrow> (u32 \<times> u32) list" where
  "sessions listing = (case listing of None \<Rightarrow> [] | Some es \<Rightarrow> collect_sessions es)"

section \<open>Posting\<close>

record notice =
  nt_uid :: u32
  nt_gid :: u32
  nt_env :: "(string \<times> string) list"
  nt_program :: string
  nt_args :: "string list"

definition run_dir :: "u32 \<Rightarrow> string" where
  "run_dir uid = ''/run/user/'' @ show_nat (unat uid)"

definition notice_for :: "string \<Rightarrow> string \<Rightarrow> urgency \<Rightarrow> u32 \<times> u32 \<Rightarrow> notice" where
  "notice_for summary body u s =
     (case s of (uid, gid) \<Rightarrow>
       \<lparr>nt_uid = uid, nt_gid = gid,
        nt_env = [(''DBUS_SESSION_BUS_ADDRESS'', ''unix:path='' @ run_dir uid @ ''/bus''),
                  (''XDG_RUNTIME_DIR'', run_dir uid)],
        nt_program = ''notify-send'',
        nt_args = [''--app-name=vpnmgr'', ''--icon=network-vpn'', ''--urgency='' @ urgency_text u,
                   summary, body]\<rparr>)"

text \<open>One command per session, in order, whatever became of the ones before.\<close>

fun run_notices :: "(notice \<Rightarrow> 'n \<Rightarrow> bool \<times> 'n) \<Rightarrow> notice list \<Rightarrow> 'n \<Rightarrow> bool list \<times> 'n" where
  "run_notices run [] w = ([], w)"
| "run_notices run (n # ns) w =
     (case run n w of (ok, w1) \<Rightarrow> (case run_notices run ns w1 of (oks, w2) \<Rightarrow> (ok # oks, w2)))"

definition desktop :: "(notice \<Rightarrow> 'n \<Rightarrow> bool \<times> 'n) \<Rightarrow> run_entry option list option
    \<Rightarrow> string \<Rightarrow> string \<Rightarrow> urgency \<Rightarrow> 'n \<Rightarrow> 'n" where
  "desktop run listing summary body u w =
     snd (run_notices run (map (notice_for summary body u) (sessions listing)) w)"

text \<open>What a finished pass posts.\<close>

definition notices_of :: "run_entry option list option \<Rightarrow> (string \<times> string \<times> urgency) option \<Rightarrow> notice list" where
  "notices_of listing a =
     (case a of
        None \<Rightarrow> []
      | Some (summary, body, u) \<Rightarrow> map (notice_for summary body u) (sessions listing))"

section \<open>Lemmas\<close>

lemma collect_sessions_alt:
  "collect_sessions es = concat (map (\<lambda>e. case e of None \<Rightarrow> [] | Some x \<Rightarrow>
     (case session_of x of Some s \<Rightarrow> [s] | None \<Rightarrow> [])) es)"
  by (induction es rule: collect_sessions.induct) (simp_all split: option.split)

lemma collect_set: "s \<in> set (collect_sessions (map Some es)) \<longleftrightarrow> (\<exists>e\<in>set es. session_of e = Some s)"
  by (induction es) (auto split: option.split)

lemma session_named:
  assumes "re_name e = show_nat (unat uid)"
  shows "session_of e = (if FIRST_HUMAN_UID \<le> uid \<and> re_bus e
     then Some (uid, case re_gid e of Some g \<Rightarrow> g | None \<Rightarrow> uid) else None)"
proof -
  have "unat uid < 2 ^ 32" using unsigned_less [of uid] by simp
  then show ?thesis
    using assms by (simp add: session_of_def parse_unsigned_show_nat Let_def not_le)
qed

text \<open>A session is that of the entry its user id names.\<close>

lemma session_entry:
  assumes "\<forall>e\<in>set es. \<exists>uid. re_name e = show_nat (unat (uid :: u32))" and "e \<in> set es"
    and "session_of e = Some (uid, g)"
  shows "re_name e = show_nat (unat uid) \<and> FIRST_HUMAN_UID \<le> uid \<and> re_bus e"
proof -
  obtain u :: u32 where u: "re_name e = show_nat (unat u)" using assms(1,2) by blast
  then show ?thesis using assms(3) session_named [OF u] by (auto split: if_splits)
qed

lemma sessions_distinct:
  assumes "\<forall>e\<in>set es. \<exists>uid. re_name e = show_nat (unat (uid :: u32))" and "distinct (map re_name es)"
  shows "distinct (map fst (collect_sessions (map Some es)))"
  using assms
proof (induction es)
  case (Cons e es)
  have IH: "distinct (map fst (collect_sessions (map Some es)))" using Cons by simp
  show ?case
  proof (cases "session_of e")
    case (Some s)
    obtain uid g where s: "s = (uid, g)" by fastforce
    have e: "re_name e = show_nat (unat uid)"
      using session_entry [OF Cons.prems(1), of e uid g] Some s by simp
    have "uid \<notin> fst ` set (collect_sessions (map Some es))"
    proof
      assume "uid \<in> fst ` set (collect_sessions (map Some es))"
      then obtain g' where "(uid, g') \<in> set (collect_sessions (map Some es))" by auto
      then obtain e' where "e' \<in> set es" "session_of e' = Some (uid, g')" using collect_set by blast
      then have "re_name e' = show_nat (unat uid)" "e' \<in> set es"
        using session_entry [OF Cons.prems(1), of e' uid g'] by auto
      then show False using Cons.prems(2) e by (metis distinct.simps(2) image_eqI list.simps(9) set_map)
    qed
    then show ?thesis using IH Some s by simp
  qed (use IH in simp)
qed simp

lemma notices_announced:
  "announce r = None \<longleftrightarrow> \<not> (tr_switched r \<or> tr_pending r \<noteq> None \<or> tr_nothing_reachable r)"
  by (auto simp: announce_def)

lemma notices_sessions:
  "notices_of (Some (map Some es)) (Some (summary, body, u)) =
     map (notice_for summary body u) (collect_sessions (map Some es))"
  by (simp add: notices_of_def sessions_def)

lemma notice_for_sel [simp]:
  "nt_uid (notice_for summary body u s) = fst s"
  "nt_env (notice_for summary body u s) =
     [(''DBUS_SESSION_BUS_ADDRESS'', ''unix:path='' @ run_dir (fst s) @ ''/bus''), (''XDG_RUNTIME_DIR'', run_dir (fst s))]"
  by (cases s; simp add: notice_for_def)+

section \<open>Properties\<close>

text \<open>A pass posts something exactly when it moved the tunnel, has a
proposal to make, or found no server reachable; then every person with a session gets it
once, run as that person and through that person's own bus, and nobody else: no system
account, no session without a bus.\<close>

lemma notices_reach_each_desktop_once:
  assumes "\<forall>e\<in>set es. \<exists>uid. re_name e = show_nat (unat (uid :: u32))" and "distinct (map re_name es)"
  shows "(notices_of (Some (map Some es)) (announce r) \<noteq> [] \<longleftrightarrow>
      (tr_switched r \<or> tr_pending r \<noteq> None \<or> tr_nothing_reachable r) \<and> (\<exists>e\<in>set es. session_of e \<noteq> None)) \<and>
    (\<forall>n\<in>set (notices_of (Some (map Some es)) (announce r)).
       FIRST_HUMAN_UID \<le> nt_uid n \<and>
       (\<exists>e\<in>set es. re_bus e \<and> re_name e = show_nat (unat (nt_uid n)) \<and>
          map_of (nt_env n) ''DBUS_SESSION_BUS_ADDRESS'' =
            Some (''unix:path=/run/user/'' @ re_name e @ ''/bus''))) \<and>
    distinct (map nt_uid (notices_of (Some (map Some es)) (announce r)))"
proof (cases "announce r")
  case None
  then show ?thesis using notices_announced [of r] by (simp add: notices_of_def)
next
  case (Some a)
  obtain summary body u where a: "a = (summary, body, u)" using prod_cases3 by blast
  let ?S = "collect_sessions (map Some es)"
  have n: "notices_of (Some (map Some es)) (announce r) = map (notice_for summary body u) ?S"
    using Some a by (simp add: notices_sessions)
  have ne: "?S \<noteq> [] \<longleftrightarrow> (\<exists>e\<in>set es. session_of e \<noteq> None)"
  proof -
    have "?S \<noteq> [] \<longleftrightarrow> (\<exists>x. x \<in> set ?S)" by (cases ?S) auto
    then show ?thesis by (auto simp: collect_set)
  qed
  have each: "FIRST_HUMAN_UID \<le> fst x \<and> (\<exists>e\<in>set es. re_bus e \<and> re_name e = show_nat (unat (fst x)))"
    if mem: "x \<in> set ?S" for x
  proof -
    obtain uid g where x: "x = (uid, g)" by fastforce
    obtain e where e: "e \<in> set es" "session_of e = Some (uid, g)"
      using mem unfolding x collect_set by blast
    have "re_name e = show_nat (unat uid) \<and> FIRST_HUMAN_UID \<le> uid \<and> re_bus e"
      by (rule session_entry [OF assms(1) e])
    then show ?thesis using e(1) unfolding x fst_conv by blast
  qed
  have "distinct (map nt_uid (map (notice_for summary body u) ?S))"
    using sessions_distinct [OF assms] by (simp add: comp_def)
  show ?thesis
  proof -
    have some: "tr_switched r \<or> tr_pending r \<noteq> None \<or> tr_nothing_reachable r"
      using Some notices_announced [of r] by simp
    have post: "FIRST_HUMAN_UID \<le> nt_uid x \<and> (\<exists>e\<in>set es. re_bus e \<and> re_name e = show_nat (unat (nt_uid x)) \<and>
        map_of (nt_env x) ''DBUS_SESSION_BUS_ADDRESS'' = Some (''unix:path=/run/user/'' @ re_name e @ ''/bus''))"
      if mem: "x \<in> set (map (notice_for summary body u) ?S)" for x
    proof -
      obtain y where y: "y \<in> set ?S" "x = notice_for summary body u y" using mem by auto
      then obtain e where "e \<in> set es" "re_bus e" "re_name e = show_nat (unat (fst y))" "FIRST_HUMAN_UID \<le> fst y"
        using each by blast
      then show ?thesis using y(2) by (intro conjI bexI [of _ e]) (simp_all add: run_dir_def)
    qed
    show ?thesis
      unfolding n using some ne post \<open>distinct (map nt_uid (map (notice_for summary body u) ?S))\<close> by simp
  qed
qed

definition sample_sessions :: "run_entry list" where
  "sample_sessions =
     [\<lparr>re_name = ''0'', re_bus = True, re_gid = None\<rparr>, \<lparr>re_name = ''1000'', re_bus = True, re_gid = Some 100\<rparr>]"

definition sample_report :: tune_report where
  "sample_report = \<lparr>tr_summary = ''moved'', tr_switched = True, tr_pending = None, tr_nothing_reachable = False\<rparr>"

end
