(* ===== verification/Probe_Socket.thy ===== *)
theory Probe_Socket
  imports Samples
begin

text \<open>
  \<^verbatim>\<open>vpnmgr-probe/src/socket.rs\<close>: the socket a probe is sent from. On Linux it carries the
  mark that keeps it out of the tunnel, or there is no socket; elsewhere the mark is ignored.
  The answers of the operating system are parameters, one record per attempt.
\<close>

section \<open>Sockets\<close>

record udp_socket =
  us_v6 :: bool
  us_mark :: "u32 option"
  us_nonblocking :: bool
  us_local :: "sockaddr option"

record udp_os =
  uo_socket :: "bool \<Rightarrow> string option" \<comment> \<open>the error, if any\<close>
  uo_set_mark :: "u32 \<Rightarrow> string option"
  uo_set_nonblocking :: "string option"
  uo_bind :: "sockaddr \<Rightarrow> string + sockaddr" \<comment> \<open>the address it got\<close>
  uo_adopt :: "string option" \<comment> \<open>\<^verbatim>\<open>UdpSocket::from_std\<close>\<close>

definition is_v6 :: "sockaddr \<Rightarrow> bool" where
  "is_v6 a \<longleftrightarrow> (case sa_ip a of V4 _ \<Rightarrow> False | V6 _ \<Rightarrow> True)"

definition mark_error :: "u32 \<Rightarrow> string \<Rightarrow> string" where
  "mark_error mark e =
     ''setting fwmark '' @ show_nat (unat mark) @
     '' on the probe socket failed (needs CAP_NET_ADMIN): '' @ e"

definition set_mark :: "udp_os \<Rightarrow> u32 option \<Rightarrow> udp_socket \<Rightarrow> string + udp_socket" where
  "set_mark os fwmark s =
     (case fwmark of
        None \<Rightarrow> Inr s
      | Some mark \<Rightarrow>
          (case uo_set_mark os mark of
             Some e \<Rightarrow> Inl (mark_error mark e)
           | None \<Rightarrow> Inr (s\<lparr>us_mark := Some mark\<rparr>)))"

text \<open>\<^verbatim>\<open>bind_marked\<close> on Linux.\<close>

definition bind_marked :: "udp_os \<Rightarrow> sockaddr \<Rightarrow> u32 option \<Rightarrow> string + udp_socket" where
  "bind_marked os addr fwmark =
     (case uo_socket os (is_v6 addr) of
        Some e \<Rightarrow> Inl e
      | None \<Rightarrow>
     (case set_mark os fwmark
             \<lparr>us_v6 = is_v6 addr, us_mark = None, us_nonblocking = False, us_local = None\<rparr> of
        Inl e \<Rightarrow> Inl e
      | Inr s \<Rightarrow>
     (case uo_set_nonblocking os of
        Some e \<Rightarrow> Inl e
      | None \<Rightarrow>
     (case uo_bind os addr of
        Inl e \<Rightarrow> Inl e
      | Inr loc \<Rightarrow>
     (case uo_adopt os of
        Some e \<Rightarrow> Inl e
      | None \<Rightarrow> Inr (s\<lparr>us_nonblocking := True, us_local := Some loc\<rparr>))))))"

text \<open>And on the other platforms: \<^verbatim>\<open>std\<close>'s \<^verbatim>\<open>bind\<close> makes the socket and binds it.\<close>

definition bind_unmarked :: "udp_os \<Rightarrow> sockaddr \<Rightarrow> u32 option \<Rightarrow> string + udp_socket" where
  "bind_unmarked os addr fwmark =
     (case uo_socket os (is_v6 addr) of
        Some e \<Rightarrow> Inl e
      | None \<Rightarrow>
     (case uo_bind os addr of
        Inl e \<Rightarrow> Inl e
      | Inr loc \<Rightarrow>
     (case uo_set_nonblocking os of
        Some e \<Rightarrow> Inl e
      | None \<Rightarrow>
     (case uo_adopt os of
        Some e \<Rightarrow> Inl e
      | None \<Rightarrow> Inr \<lparr>us_v6 = is_v6 addr, us_mark = None, us_nonblocking = True, us_local = Some loc\<rparr>))))"

definition bind_for :: "(sockaddr \<Rightarrow> u32 option \<Rightarrow> string + udp_socket) \<Rightarrow> sockaddr \<Rightarrow> u32 option
    \<Rightarrow> string + udp_socket" where
  "bind_for marked peer fwmark =
     marked (case sa_ip peer of V4 _ \<Rightarrow> mk_sockaddr (V4 0) 0 | V6 _ \<Rightarrow> mk_sockaddr (V6 0) 0) fwmark"

section \<open>Probes over these sockets\<close>

text \<open>
  The observations of a sweep of \<open>Probe\<close> in which the error of making the socket is the one
  of \<open>bind_for\<close>, for task \<open>i\<close> and its attempt \<open>n\<close>.
\<close>

definition probe_socket :: "(nat \<Rightarrow> nat \<Rightarrow> udp_os) \<Rightarrow> prober \<Rightarrow> sockaddr list \<Rightarrow> nat \<Rightarrow> nat \<Rightarrow> string + udp_socket" where
  "probe_socket os p as i n = bind_for (bind_marked (os i n)) (as ! i) (pb_fwmark p)"

definition on_sockets :: "(nat \<Rightarrow> nat \<Rightarrow> udp_os) \<Rightarrow> prober \<Rightarrow> sockaddr list \<Rightarrow> net_obs \<Rightarrow> net_obs" where
  "on_sockets os p as obs = obs\<lparr>no_handshake := \<lambda>i n. (no_handshake obs i n)
     \<lparr>ho_bind := case probe_socket os p as i n of Inl e \<Rightarrow> Some e | Inr _ \<Rightarrow> None\<rparr>\<rparr>"

section \<open>Lemmas\<close>

lemma bind_marked_ok:
  "bind_marked os addr fwmark = Inr s \<Longrightarrow>
     us_mark s = fwmark \<and> us_v6 s = is_v6 addr \<and> us_nonblocking s \<and> us_local s \<noteq> None"
  by (auto simp: bind_marked_def set_mark_def split: option.splits sum.splits)

lemma bind_for_ok:
  assumes "bind_for (bind_marked os) peer fwmark = Inr s"
  shows "us_mark s = fwmark \<and> us_v6 s = is_v6 peer \<and> us_nonblocking s \<and> us_local s \<noteq> None"
  using bind_marked_ok [OF assms [unfolded bind_for_def]] by (simp add: is_v6_def split: ipaddr.splits)

text \<open>Off Linux no socket is ever marked, whatever was asked for.\<close>

lemma bind_unmarked_ok:
  "bind_unmarked os addr fwmark = Inr s \<Longrightarrow> us_mark s = None \<and> bind_unmarked os addr None = Inr s"
  by (auto simp: bind_unmarked_def split: option.splits sum.splits)

lemma mark_refused:
  assumes "uo_set_mark os mark = Some e" and "uo_socket os (is_v6 peer) = None"
  shows "bind_for (bind_marked os) peer (Some mark) = Inl (mark_error mark e)"
  using assms by (cases "sa_ip peer") (simp_all add: bind_for_def bind_marked_def set_mark_def is_v6_def)

lemma handshake_binds: "one_handshake ob = Inr (d, oc) \<Longrightarrow> ho_bind ob = None"
  by (simp add: one_handshake_def split: option.splits)

lemma sample_from:
  "d \<in> set (fst (sample_loop obs n)) \<Longrightarrow> \<exists>j<n. \<exists>oc. one_handshake (obs j) = Inr (d, oc)"
proof (induction n)
  case (Suc n)
  obtain ss oc where l: "sample_loop obs n = (ss, oc)" by fastforce
  show ?case
  proof (cases "d \<in> set ss")
    case True
    then have "\<exists>j<n. \<exists>oc. one_handshake (obs j) = Inr (d, oc)" using Suc.IH l by simp
    then show ?thesis using less_SucI by blast
  next
    case False
    then have "\<exists>oc. one_handshake (obs n) = Inr (d, oc)"
      using Suc.prems l by (auto simp: sample_step_def split: sum.splits)
    then show ?thesis by blast
  qed
qed simp

lemma task_sample:
  assumes "d \<in> set (pr_samples_got (probe_task p obs i a))"
  shows "pb_excluded p \<noteq> Some a \<and>
    (\<exists>j<pr_samples (pb_settings p). \<exists>oc. one_handshake (no_handshake obs i j) = Inr (d, oc))"
proof -
  have s: "pb_excluded p \<noteq> Some a \<and> d \<in> set (fst (sample_loop (no_handshake obs i) (pr_samples (pb_settings p))))"
    using assms by (auto simp: probe_task_def probe_def split: option.splits prod.splits if_splits)
  then show ?thesis using sample_from by fastforce
qed

section \<open>Properties\<close>

text \<open>C24: while the daemon is connected, every timing that a sweep collects on
Linux was taken on a socket of its own that carries the mark of the tunnel's own traffic and
is of the family of the server probed, so it never measures the way through the tunnel; and
the connected endpoint itself is not probed. Where the mark is refused there is no timing.\<close>

theorem probes_leave_the_tunnel:
  assumes "ds_current st = Some c" and "i < length as"
    and "d \<in> set (pr_samples_got (probe_many (prober_of st) (on_sockets os (prober_of st) as obs) as ! i))"
  shows "as ! i \<noteq> cn_endpoint c \<and>
    (\<exists>j s oc. probe_socket os (prober_of st) as i j = Inr s \<and>
       one_handshake (no_handshake (on_sockets os (prober_of st) as obs) i j) = Inr (d, oc) \<and>
       us_mark s = Some DEFAULT_FWMARK \<and> us_v6 s = is_v6 (as ! i) \<and>
       uo_set_mark (os i j) DEFAULT_FWMARK = None)"
proof -
  let ?p = "prober_of st" and ?obs = "on_sockets os (prober_of st) as obs"
  have p: "pb_fwmark ?p = Some DEFAULT_FWMARK" "pb_excluded ?p = Some (cn_endpoint c)"
    using assms(1) by (simp_all add: prober_of_def prober_with_fwmark_def prober_excluding_def Let_def)
  from task_sample [of d ?p ?obs i "as ! i"] assms(2,3)
  obtain j oc where j: "as ! i \<noteq> cn_endpoint c" "one_handshake (no_handshake ?obs i j) = Inr (d, oc)"
    by (auto simp: probe_many_props p)
  obtain s where s: "probe_socket os ?p as i j = Inr s"
    using handshake_binds [OF j(2)] by (auto simp: on_sockets_def split: sum.splits)
  have ok: "uo_set_mark (os i j) DEFAULT_FWMARK = None"
    using s by (auto simp: probe_socket_def p bind_for_def bind_marked_def set_mark_def split: option.splits sum.splits)
  have m: "us_mark s = Some DEFAULT_FWMARK \<and> us_v6 s = is_v6 (as ! i)"
    using bind_for_ok [OF s [unfolded probe_socket_def]] p by simp
  show ?thesis using j s ok m by blast
qed

text \<open>A connected daemon with the right to mark its sockets gets its timings.\<close>

definition sample_udp :: udp_os where
  "sample_udp =
     \<lparr>uo_socket = \<lambda>_. None, uo_set_mark = \<lambda>_. None, uo_set_nonblocking = None,
      uo_bind = \<lambda>a. Inr (mk_sockaddr (sa_ip a) 40000), uo_adopt = None\<rparr>"

definition sample_peers :: "sockaddr list" where "sample_peers = [mk_sockaddr (V4 7) 1637]"

lemma sample_timings:
  "20 \<in> set (pr_samples_got (probe_many sample_prober_up
     (on_sockets (\<lambda>_ _. sample_udp) sample_prober_up sample_peers sample_net) sample_peers ! 0))"
  by code_simp

theorem probes_leave_the_tunnel_witness:
  "\<exists>j s. probe_socket (\<lambda>_ _. sample_udp) sample_prober_up sample_peers 0 j = Inr s \<and>
     us_mark s = Some DEFAULT_FWMARK"
proof -
  have "ds_current sample_up = Some sample_connection" "0 < length sample_peers"
    by (simp_all add: sample_peers_def)
  from probes_leave_the_tunnel [OF this, of 20 "\<lambda>_ _. sample_udp" sample_net] sample_timings
  show ?thesis unfolding sample_probers by blast
qed

end
