(* ===== verification/Format.thy ===== *)
theory Format
  imports Floats
begin

text \<open>
  Text for people: columns and truncation by characters of UTF-8, and the labels of
  \<^verbatim>\<open>vpnmgr-tray/src/format.rs\<close>, of which the command line client has its own copies.
\<close>

section \<open>Characters and columns\<close>

text \<open>Strings are bytes; a character is a byte that does not continue one.\<close>

definition continues :: "char \<Rightarrow> bool" where
  "continues c \<longleftrightarrow> (of_char c :: nat) div 64 = 2"

definition char_count :: "string \<Rightarrow> nat" where
  "char_count s = length (filter (\<lambda>c. \<not> continues c) s)"

text \<open>\<^verbatim>\<open>chars().take(n)\<close>.\<close>

fun chars_take :: "nat \<Rightarrow> string \<Rightarrow> string" where
  "chars_take n [] = []"
| "chars_take n (c # s) =
     (if continues c then c # chars_take n s
      else if n = 0 then []
      else c # chars_take (n - 1) s)"

text \<open>\<^verbatim>\<open>{:<w}\<close> and \<^verbatim>\<open>{:>w}\<close>.\<close>

definition left_in :: "nat \<Rightarrow> string \<Rightarrow> string" where
  "left_in w s = s @ replicate (w - char_count s) (CHR '' '')"

definition right_in :: "nat \<Rightarrow> string \<Rightarrow> string" where
  "right_in w s = replicate (w - char_count s) (CHR '' '') @ s"

section \<open>Labels\<close>

definition measured_ago :: "nat \<Rightarrow> string" where
  "measured_ago s =
     (if s < 90 then ''just now''
      else if s < 3600 then show_nat (s div 60) @ ''m ago''
      else if s < 86400 then show_nat (s div 3600) @ ''h ago''
      else show_nat (s div 86400) @ ''d ago'')"

definition rate :: "f64 \<Rightarrow> string" where
  "rate mbps =
     (if Fin 1000 \<le> mbps then fmt_prec 1 (mbps / Fin 1000) @ '' Gbps''
      else fmt_prec 0 mbps @ '' Mbps'')"

definition ellipsis :: string where "ellipsis = [CHR 0xE2, CHR 0x80, CHR 0xA6]"

definition truncate_text :: "string \<Rightarrow> nat \<Rightarrow> string" where
  "truncate_text s width =
     (if char_count s \<le> width then s else chars_take (width - 1) s @ ellipsis)"

definition UNITS :: "string list" where
  "UNITS = [''B'', ''KiB'', ''MiB'', ''GiB'', ''TiB'']"

text \<open>The loop: divide while the value has a larger unit to go to.\<close>

fun scale_units :: "f64 \<Rightarrow> string list \<Rightarrow> f64 \<times> string list" where
  "scale_units v (u # u2 # us) =
     (if Fin 1024 \<le> v then scale_units (v / Fin 1024) (u2 # us) else (v, u # u2 # us))"
| "scale_units v us = (v, us)"

definition human_bytes :: "u64 \<Rightarrow> string" where
  "human_bytes bytes =
     (case scale_units (f64_of_nat (unat bytes)) UNITS of
        (value, us) \<Rightarrow>
          if length us = length UNITS then show_nat (unat bytes) @ '' B''
          else fmt_prec 1 value @ '' '' @ hd us)"

section \<open>Lemmas\<close>

lemma char_count_append [simp]: "char_count (s @ t) = char_count s + char_count t"
  by (simp add: char_count_def)

lemma char_count_spaces [simp]: "char_count (replicate n (CHR '' '')) = n"
  by (induction n) (simp_all add: char_count_def continues_def)

lemma char_count_ellipsis [simp]: "char_count ellipsis = 1"
  by (simp add: char_count_def continues_def ellipsis_def)

lemma char_count_take: "char_count (chars_take n s) \<le> n"
proof (induction n s rule: chars_take.induct)
  case (2 n c s)
  then show ?case by (auto simp: char_count_def)
qed (simp add: char_count_def)

lemma char_count_take_enough: "n \<le> char_count s \<Longrightarrow> char_count (chars_take n s) = n"
proof (induction n s rule: chars_take.induct)
  case (2 n c s)
  then show ?case by (auto simp: char_count_def)
qed (simp add: char_count_def)

lemma column_width: "char_count s \<le> w \<Longrightarrow> char_count (left_in w s) = w \<and> char_count (right_in w s) = w"
  by (simp add: left_in_def right_in_def)

lemma truncate_width: "0 < w \<Longrightarrow> char_count (truncate_text s w) = min (char_count s) w"
  by (auto simp: truncate_text_def char_count_take_enough)

lemma scale_units_value:
  assumes "us \<noteq> []" and "0 \<le> x"
  shows "\<exists>k y. scale_units (Fin x) us = (Fin y, drop k us) \<and> k < length us \<and> y = x / 1024 ^ k \<and>
    (0 < k \<longrightarrow> 1 \<le> y) \<and> (k < length us - 1 \<longrightarrow> y < 1024)"
  using assms
proof (induction us arbitrary: x rule: induct_list012)
  case (3 u u2 us)
  show ?case
  proof (cases "1024 \<le> x")
    case False
    then show ?thesis by (intro exI [of _ "0 :: nat"] exI [of _ x]) simp
  next
    case True
    then obtain k y where IH: "scale_units (Fin (x / 1024)) (u2 # us) = (Fin y, drop k (u2 # us))"
        "k < length (u2 # us)" "y = x / 1024 / 1024 ^ k"
        "0 < k \<Longrightarrow> 1 \<le> y" "k < length (u2 # us) - 1 \<Longrightarrow> y < 1024"
      using 3(2) [of "x / 1024"] by auto
    have "1 \<le> y" using IH(3,4) True by (cases "k = 0") auto
    then show ?thesis
      using True IH by (intro exI [of _ "Suc k"] exI [of _ y]) simp
  qed
qed auto

section \<open>Properties\<close>

text \<open>A byte count is shown in the largest unit that leaves at least
one of it, up to TiB: the value printed is the count divided by that power of 1024, below
1024 unless the unit is the last, and counts below 1024 are shown exactly.\<close>

lemma byte_counts_use_the_right_unit:
  "\<exists>k < 5. human_bytes b =
     (if k = 0 then show_nat (unat b) @ '' B''
      else fmt_prec 1 (Fin (real (unat b) / 1024 ^ k)) @ '' '' @ UNITS ! k) \<and>
     (0 < k \<longrightarrow> 1024 ^ k \<le> unat b) \<and> (k < 4 \<longrightarrow> unat b < 1024 ^ Suc k)"
proof -
  have "length UNITS = 5" "UNITS \<noteq> []" by (simp_all add: UNITS_def)
  then obtain k y where k: "scale_units (Fin (real (unat b))) UNITS = (Fin y, drop k UNITS)"
      "k < 5" "y = real (unat b) / 1024 ^ k" "0 < k \<Longrightarrow> 1 \<le> y" "k < 4 \<Longrightarrow> y < 1024"
    using scale_units_value [of UNITS "real (unat b)", OF _ of_nat_0_le_iff] by auto
  have p: "real (1024 ^ n) = 1024 ^ n" for n by simp
  have "1024 ^ k \<le> unat b" if "0 < k"
  proof -
    have "real (1024 ^ k) \<le> real (unat b)" unfolding p using k(3) k(4) [OF that] by (simp add: le_divide_eq)
    then show ?thesis by (simp only: of_nat_le_iff)
  qed
  moreover have "unat b < 1024 ^ Suc k" if "k < 4"
  proof -
    have "real (unat b) < real (1024 ^ Suc k)" unfolding p using k(3) k(5) [OF that] by (simp add: divide_less_eq)
    then show ?thesis by (simp only: of_nat_less_iff)
  qed
  moreover have "length (drop k UNITS) = length UNITS \<longleftrightarrow> k = 0" "hd (drop k UNITS) = UNITS ! k"
    using k(2) by (auto simp: UNITS_def hd_drop_conv_nth)
  ultimately show ?thesis
    using k(1-3) by (intro exI [of _ k]) (simp add: human_bytes_def f64_of_nat_def)
qed

text \<open>A label cut for a column has at most the column's width in
characters, and exactly the smaller of the two lengths; padded, it fills the column exactly.\<close>

lemma labels_fit_their_column:
  assumes "0 < w"
  shows "char_count (truncate_text s w) = min (char_count s) w \<and>
    char_count (left_in w (truncate_text s w)) = w \<and> char_count (right_in w (truncate_text s w)) = w"
  using truncate_width [OF assms, of s] column_width [of "truncate_text s w" w] by simp

end
