(* ===== verification/Serde.thy ===== *)
theory Serde
  imports Sockaddr_Text Floats
begin

text \<open>
  What the structures and enumerations of the sources ask of \<^verbatim>\<open>serde\<close> by their attributes:
  how a field is looked up among the entries of an object, and what it is when there is none.
  Shared by the protocol and by the settings; \<open>'v\<close> is a value of the format. Only whether
  decoding succeeds and what it gives is modelled, not the texts of
  its errors.
\<close>

section \<open>Fields\<close>

definition values_at :: "string \<Rightarrow> (string \<times> 'v) list \<Rightarrow> 'v list" where
  "values_at k fs = map snd (filter (\<lambda>p. fst p = k) fs)"

text \<open>A field without a default: missing or given twice is an error.\<close>

definition field :: "('v \<Rightarrow> 'a option) \<Rightarrow> string \<Rightarrow> (string \<times> 'v) list \<Rightarrow> 'a option" where
  "field d k fs = (case values_at k fs of [v] \<Rightarrow> d v | _ \<Rightarrow> None)"

text \<open>\<^verbatim>\<open>#[serde(default)]\<close>, or an \<^verbatim>\<open>Option\<close>, which is \<^verbatim>\<open>None\<close> when missing.\<close>

definition field_or :: "'a \<Rightarrow> ('v \<Rightarrow> 'a option) \<Rightarrow> string \<Rightarrow> (string \<times> 'v) list \<Rightarrow> 'a option" where
  "field_or x d k fs = (case values_at k fs of [] \<Rightarrow> Some x | [v] \<Rightarrow> d v | _ \<Rightarrow> None)"

text \<open>\<^verbatim>\<open>alias\<close>: the entries under either name count as the field's.\<close>

definition field_alias_or :: "'a \<Rightarrow> ('v \<Rightarrow> 'a option) \<Rightarrow> string \<Rightarrow> string \<Rightarrow> (string \<times> 'v) list \<Rightarrow> 'a option" where
  "field_alias_or x d k k' fs =
     (case values_at k fs @ values_at k' fs of [] \<Rightarrow> Some x | [v] \<Rightarrow> d v | _ \<Rightarrow> None)"

text \<open>\<^verbatim>\<open>deny_unknown_fields\<close>.\<close>

definition known :: "string list \<Rightarrow> (string \<times> 'v) list \<Rightarrow> bool" where
  "known ks fs \<longleftrightarrow> list_all (\<lambda>p. fst p \<in> set ks) fs"

text \<open>\<^verbatim>\<open>skip_serializing_if\<close>.\<close>

definition unless :: "bool \<Rightarrow> string \<Rightarrow> 'v \<Rightarrow> (string \<times> 'v) list" where
  "unless b k v = (if b then [] else [(k, v)])"

text \<open>All elements of a list, or an error.\<close>

fun each :: "('v \<Rightarrow> 'a option) \<Rightarrow> 'v list \<Rightarrow> 'a list option" where
  "each d [] = Some []"
| "each d (v # vs) =
     (case d v of None \<Rightarrow> None | Some x \<Rightarrow> map_option ((#) x) (each d vs))"

section \<open>Lemmas\<close>

lemma entries_simps [simp]:
  "values_at k [] = []"
  "values_at k ((k', v) # fs) = (if k' = k then v # values_at k fs else values_at k fs)"
  "values_at k (fs @ gs) = values_at k fs @ values_at k gs"
  by (simp_all add: values_at_def)

lemma entries_unless [simp]: "values_at k (unless b k' v) = (if k' = k \<and> \<not> b then [v] else [])"
  by (simp add: unless_def)

lemma known_simps [simp]:
  "known ks []"
  "known ks ((k, v) # fs) \<longleftrightarrow> k \<in> set ks \<and> known ks fs"
  "known ks (fs @ gs) \<longleftrightarrow> known ks fs \<and> known ks gs"
  "known ks (unless b k v) \<longleftrightarrow> b \<or> k \<in> set ks"
  by (auto simp: known_def unless_def)

lemma each_map:
  assumes "\<And>x. x \<in> set xs \<Longrightarrow> d (f x) = Some x"
  shows "each d (map f xs) = Some xs"
  using assms by (induction xs) simp_all

end
