(* ===== verification/Config_Toml.thy ===== *)
theory Config_Toml
  imports Serde Render Wire "HOL-Library.Monad_Syntax"
begin

text \<open>
  The settings file of \<^verbatim>\<open>vpnmgr-core/src/config.rs\<close> as TOML values: what the \<^verbatim>\<open>serde\<close>
  attributes of its sections make of a table (defaults, unknown keys, the alias, what is not
  written), and \<^verbatim>\<open>to_toml\<close>. TOML has no null: a setting that is \<^verbatim>\<open>None\<close> is not written. The
  printer and the parser of the text are parameters.
\<close>

section \<open>Values\<close>

datatype toml =
    TStr string
  | TInt int
  | TFloat f64
  | TBool bool
  | TDate string
  | TArr "toml list"
  | TTable "(string \<times> toml) list"

text \<open>Decoding; a path is a string, a fraction may be written as an integer.\<close>

fun tde_str :: "toml \<Rightarrow> string option" where
  "tde_str (TStr s) = Some s"
| "tde_str _ = None"

fun tde_bool :: "toml \<Rightarrow> bool option" where
  "tde_bool (TBool b) = Some b"
| "tde_bool _ = None"

fun tde_nat :: "toml \<Rightarrow> nat option" where
  "tde_nat (TInt i) = (if 0 \<le> i \<and> i < 2 ^ 64 then Some (nat i) else None)"
| "tde_nat _ = None"

fun tde_word :: "toml \<Rightarrow> 'a::len word option" where
  "tde_word (TInt i) = (if 0 \<le> i \<and> i < 2 ^ LENGTH('a) then Some (word_of_int i) else None)"
| "tde_word _ = None"

fun tde_f64 :: "toml \<Rightarrow> f64 option" where
  "tde_f64 (TFloat x) = Some x"
| "tde_f64 (TInt i) = Some (Fin (of_int i))"
| "tde_f64 _ = None"

fun tde_list :: "(toml \<Rightarrow> 'a option) \<Rightarrow> toml \<Rightarrow> 'a list option" where
  "tde_list d (TArr vs) = each d vs"
| "tde_list d _ = None"

text \<open>A table that may only have these keys.\<close>

fun tde_table :: "string list \<Rightarrow> ((string \<times> toml) list \<Rightarrow> 'a option) \<Rightarrow> toml \<Rightarrow> 'a option" where
  "tde_table ks d (TTable fs) = (if known ks fs then d fs else None)"
| "tde_table ks d _ = None"

text \<open>An \<^verbatim>\<open>Option\<close>: what is there is some value.\<close>

definition tde_some :: "(toml \<Rightarrow> 'a option) \<Rightarrow> toml \<Rightarrow> 'a option option" where
  "tde_some d v = map_option Some (d v)"

definition tde_cidr :: "toml \<Rightarrow> cidr option" where
  "tde_cidr v = do { s \<leftarrow> tde_str v; case parse_cidr s of Inr c \<Rightarrow> Some c | Inl _ \<Rightarrow> None }"

definition tde_ip :: "toml \<Rightarrow> ipaddr option" where
  "tde_ip v = do { s \<leftarrow> tde_str v; parse_ip s }"

definition tde_key :: "base64 \<Rightarrow> toml \<Rightarrow> public_key option" where
  "tde_key b64 v = do { s \<leftarrow> tde_str v; case public_from_base64 b64 s of Inr k \<Rightarrow> Some k | Inl _ \<Rightarrow> None }"

definition tde_policy :: "toml \<Rightarrow> switch_policy option" where
  "tde_policy v = do {
     s \<leftarrow> tde_str v;
     if s = ''ask'' then Some Ask else if s = ''auto'' then Some Auto
     else if s = ''never'' then Some Never else None }"

section \<open>The sections\<close>

text \<open>The functions the attributes name.\<close>

definition default_port :: u16 where "default_port = WG_PORT"

definition default_keepalive :: "u16 option" where "default_keepalive = Some 15"

definition default_allowed_ips :: "cidr list" where
  "default_allowed_ips = [\<lparr>c_addr = V4 0, c_prefix = 0\<rparr>, \<lparr>c_addr = V6 0, c_prefix = 0\<rparr>]"

definition default_max_load :: u32 where "default_max_load = 85"

definition default_interval :: u64 where "default_interval = 30"

definition default_max_latency :: u32 where "default_max_latency = 80"

definition default_min_mbps :: f64 where "default_min_mbps = Fin 50"

definition default_accept_fraction :: f64 where "default_accept_fraction = Fin (6 / 10)"

definition default_headroom_margin :: f64 where "default_headroom_margin = Fin 2"

definition default_verify_candidates :: nat where "default_verify_candidates = 5"

definition default_true :: bool where "default_true = True"

definition default_switch_policy :: switch_policy where "default_switch_policy = Ask"

definition default_improvement :: f64 where "default_improvement = Fin (1 / 4)"

definition default_concurrency :: nat where "default_concurrency = 32"

definition default_timeout :: u64 where "default_timeout = 1500"

definition default_samples :: nat where "default_samples = 3"

definition default_w_rtt :: f64 where "default_w_rtt = Fin (6 / 10)"

definition default_w_load :: f64 where "default_w_load = Fin (1 / 10)"

definition default_w_headroom :: f64 where "default_w_headroom = Fin (3 / 10)"

definition default_allow_lan :: bool where "default_allow_lan = True"

definition default_throughput_url :: string where
  "default_throughput_url = ''https://speed.cloudflare.com/__down?bytes=''"

definition default_throughput_bytes :: u64 where "default_throughput_bytes = 25000000"

definition default_throughput_timeout :: u64 where "default_throughput_timeout = 30"

definition default_select_bytes :: u64 where "default_select_bytes = 8000000"

lemmas default_settings =
  default_port_def default_keepalive_def default_max_load_def default_interval_def
  default_max_latency_def default_min_mbps_def default_accept_fraction_def
  default_headroom_margin_def default_verify_candidates_def default_true_def
  default_switch_policy_def default_improvement_def default_concurrency_def default_timeout_def
  default_samples_def default_w_rtt_def default_w_load_def default_w_headroom_def
  default_allow_lan_def default_throughput_url_def default_throughput_bytes_def
  default_throughput_timeout_def default_select_bytes_def

definition get_airvpn :: "base64 \<Rightarrow> toml \<Rightarrow> airvpn_provider option" where
  "get_airvpn b64 = tde_table
     [''private_key_file'', ''preshared_key_file'', ''address'', ''dns'', ''search_domains'',
      ''peer_public_key'', ''port'', ''mtu'', ''persistent_keepalive'', ''allowed_ips'']
     (\<lambda>fs. do {
       private_key_file \<leftarrow> field tde_str ''private_key_file'' fs;
       preshared_key_file \<leftarrow> field_or None (tde_some tde_str) ''preshared_key_file'' fs;
       address \<leftarrow> field (tde_list tde_cidr) ''address'' fs;
       dns \<leftarrow> field_or [] (tde_list tde_ip) ''dns'' fs;
       search_domains \<leftarrow> field_or [] (tde_list tde_str) ''search_domains'' fs;
       peer_public_key \<leftarrow> field (tde_key b64) ''peer_public_key'' fs;
       port \<leftarrow> field_or default_port tde_word ''port'' fs;
       mtu \<leftarrow> field_or None (tde_some tde_word) ''mtu'' fs;
       persistent_keepalive \<leftarrow> field_or default_keepalive (tde_some tde_word) ''persistent_keepalive'' fs;
       allowed_ips \<leftarrow> field_or default_allowed_ips (tde_list tde_cidr) ''allowed_ips'' fs;
       Some \<lparr>ap_private_key_file = private_key_file, ap_preshared_key_file = preshared_key_file,
         ap_address = address, ap_dns = dns, ap_search_domains = search_domains,
         ap_peer_public_key = peer_public_key, ap_port = port, ap_mtu = mtu,
         ap_persistent_keepalive = persistent_keepalive, ap_allowed_ips = allowed_ips\<rparr> })"

definition get_provider :: "base64 \<Rightarrow> toml \<Rightarrow> airvpn_provider option" where
  "get_provider b64 = tde_table [''airvpn''] (field (get_airvpn b64) ''airvpn'')"

definition get_filters :: "toml \<Rightarrow> filters option" where
  "get_filters = tde_table
     [''country_whitelist'', ''country_blacklist'', ''server_whitelist'', ''server_blacklist'', ''max_load'']
     (\<lambda>fs. do {
       cw \<leftarrow> field_or [] (tde_list tde_str) ''country_whitelist'' fs;
       cb \<leftarrow> field_or [] (tde_list tde_str) ''country_blacklist'' fs;
       sw \<leftarrow> field_or [] (tde_list tde_str) ''server_whitelist'' fs;
       sb \<leftarrow> field_or [] (tde_list tde_str) ''server_blacklist'' fs;
       most \<leftarrow> field_or default_max_load tde_word ''max_load'' fs;
       Some \<lparr>country_whitelist = cw, country_blacklist = cb, server_whitelist = sw,
         server_blacklist = sb, max_load = most\<rparr> })"

definition get_weights :: "toml \<Rightarrow> weights option" where
  "get_weights = tde_table [''rtt'', ''load'', ''headroom'', ''bandwidth'']
     (\<lambda>fs. do {
       r \<leftarrow> field_or default_w_rtt tde_f64 ''rtt'' fs;
       l \<leftarrow> field_or default_w_load tde_f64 ''load'' fs;
       h \<leftarrow> field_alias_or default_w_headroom tde_f64 ''headroom'' ''bandwidth'' fs;
       Some \<lparr>w_rtt = r, w_load = l, w_headroom = h\<rparr> })"

definition get_autotune :: "toml \<Rightarrow> autotune option" where
  "get_autotune = tde_table
     [''interval_minutes'', ''max_latency_ms'', ''min_mbps'', ''accept_fraction'',
      ''measure_before_connect'', ''target_mbps'', ''headroom_margin'', ''verify_candidates'',
      ''switch_policy'', ''improvement_threshold'', ''weights'']
     (\<lambda>fs. do {
       every \<leftarrow> field_or default_interval tde_word ''interval_minutes'' fs;
       latency \<leftarrow> field_or default_max_latency tde_word ''max_latency_ms'' fs;
       least \<leftarrow> field_or default_min_mbps tde_f64 ''min_mbps'' fs;
       fraction \<leftarrow> field_or default_accept_fraction tde_f64 ''accept_fraction'' fs;
       before \<leftarrow> field_or default_true tde_bool ''measure_before_connect'' fs;
       target \<leftarrow> field_or None (tde_some tde_f64) ''target_mbps'' fs;
       margin \<leftarrow> field_or default_headroom_margin tde_f64 ''headroom_margin'' fs;
       candidates \<leftarrow> field_or default_verify_candidates tde_nat ''verify_candidates'' fs;
       policy \<leftarrow> field_or default_switch_policy tde_policy ''switch_policy'' fs;
       threshold \<leftarrow> field_or default_improvement tde_f64 ''improvement_threshold'' fs;
       ws \<leftarrow> field_or weights_default get_weights ''weights'' fs;
       Some \<lparr>interval_minutes = every, max_latency_ms = latency, min_mbps = least,
         accept_fraction = fraction, measure_before_connect = before, at_target_mbps = target,
         headroom_margin = margin, verify_candidates = candidates, at_switch_policy = policy,
         improvement_threshold = threshold, at_weights = ws\<rparr> })"

definition get_probe :: "toml \<Rightarrow> probe_cfg option" where
  "get_probe = tde_table [''concurrency'', ''timeout_ms'', ''samples'']
     (\<lambda>fs. do {
       concurrency \<leftarrow> field_or default_concurrency tde_nat ''concurrency'' fs;
       timeout_ms \<leftarrow> field_or default_timeout tde_word ''timeout_ms'' fs;
       samples \<leftarrow> field_or default_samples tde_nat ''samples'' fs;
       Some \<lparr>pr_concurrency = concurrency, pr_timeout_ms = timeout_ms, pr_samples = samples\<rparr> })"

definition get_killswitch_cfg :: "toml \<Rightarrow> killswitch_cfg option" where
  "get_killswitch_cfg = tde_table [''enabled'', ''allow_lan'']
     (\<lambda>fs. do {
       enabled \<leftarrow> field_or False tde_bool ''enabled'' fs;
       allow_lan \<leftarrow> field_or default_allow_lan tde_bool ''allow_lan'' fs;
       Some \<lparr>ks_enabled = enabled, ks_allow_lan = allow_lan\<rparr> })"

definition get_throughput :: "toml \<Rightarrow> throughput_cfg option" where
  "get_throughput = tde_table [''url'', ''bytes'', ''timeout_secs'', ''select_bytes'']
     (\<lambda>fs. do {
       url \<leftarrow> field_or default_throughput_url tde_str ''url'' fs;
       bytes \<leftarrow> field_or default_throughput_bytes tde_word ''bytes'' fs;
       timeout_secs \<leftarrow> field_or default_throughput_timeout tde_word ''timeout_secs'' fs;
       select_bytes \<leftarrow> field_or default_select_bytes tde_word ''select_bytes'' fs;
       Some \<lparr>tp_url = url, tp_bytes = bytes, tp_timeout_secs = timeout_secs, tp_select_bytes = select_bytes\<rparr> })"

definition get_bypass :: "toml \<Rightarrow> bypass_cfg option" where
  "get_bypass = tde_table [''cidrs'', ''hosts'', ''other_vpns'', ''lan'']
     (\<lambda>fs. do {
       cidrs \<leftarrow> field_or [] (tde_list tde_str) ''cidrs'' fs;
       hosts \<leftarrow> field_or [] (tde_list tde_str) ''hosts'' fs;
       other_vpns \<leftarrow> field_or default_true tde_bool ''other_vpns'' fs;
       lan \<leftarrow> field_or default_true tde_bool ''lan'' fs;
       Some \<lparr>by_cidrs = cidrs, by_hosts = hosts, by_other_vpns = other_vpns, by_lan = lan\<rparr> })"

definition get_config :: "base64 \<Rightarrow> toml \<Rightarrow> config option" where
  "get_config b64 = tde_table
     [''provider'', ''filters'', ''autotune'', ''probe'', ''killswitch'', ''throughput'', ''bypass'']
     (\<lambda>fs. do {
       provider \<leftarrow> field (get_provider b64) ''provider'' fs;
       filters \<leftarrow> field_or filters_default get_filters ''filters'' fs;
       autotune \<leftarrow> field_or autotune_default get_autotune ''autotune'' fs;
       probe \<leftarrow> field_or probe_default get_probe ''probe'' fs;
       killswitch \<leftarrow> field_or killswitch_default get_killswitch_cfg ''killswitch'' fs;
       throughput \<leftarrow> field_or throughput_default get_throughput ''throughput'' fs;
       bypass \<leftarrow> field_or bypass_default get_bypass ''bypass'' fs;
       Some \<lparr>cf_airvpn = provider, cf_filters = filters, cf_autotune = autotune, cf_probe = probe,
         cf_killswitch = killswitch, cf_throughput = throughput, cf_bypass = bypass\<rparr> })"

section \<open>Writing\<close>

text \<open>An entry that is not there when the value is \<^verbatim>\<open>None\<close>.\<close>

definition some_entry :: "string \<Rightarrow> ('a \<Rightarrow> toml) \<Rightarrow> 'a option \<Rightarrow> (string \<times> toml) list" where
  "some_entry k f v = (case v of None \<Rightarrow> [] | Some x \<Rightarrow> [(k, f x)])"

definition t_word :: "'a::len word \<Rightarrow> toml" where "t_word w = TInt (uint w)"

definition t_nat :: "nat \<Rightarrow> toml" where "t_nat n = TInt (int n)"

definition t_strs :: "string list \<Rightarrow> toml" where "t_strs ss = TArr (map TStr ss)"

definition t_cidrs :: "cidr list \<Rightarrow> toml" where "t_cidrs cs = TArr (map (\<lambda>c. TStr (show_cidr c)) cs)"

fun policy_name :: "switch_policy \<Rightarrow> string" where
  "policy_name Ask = ''ask''"
| "policy_name Auto = ''auto''"
| "policy_name Never = ''never''"

definition put_airvpn :: "base64 \<Rightarrow> airvpn_provider \<Rightarrow> toml" where
  "put_airvpn b64 p = TTable
     ([(''private_key_file'', TStr (ap_private_key_file p))] @
      some_entry ''preshared_key_file'' TStr (ap_preshared_key_file p) @
      [(''address'', t_cidrs (ap_address p))] @
      unless (ap_dns p = []) ''dns'' (TArr (map (\<lambda>a. TStr (show_ip a)) (ap_dns p))) @
      unless (ap_search_domains p = []) ''search_domains'' (t_strs (ap_search_domains p)) @
      [(''peer_public_key'', TStr (public_to_base64 b64 (ap_peer_public_key p))),
       (''port'', t_word (ap_port p))] @
      some_entry ''mtu'' t_word (ap_mtu p) @
      some_entry ''persistent_keepalive'' t_word (ap_persistent_keepalive p) @
      [(''allowed_ips'', t_cidrs (ap_allowed_ips p))])"

definition put_filters :: "filters \<Rightarrow> toml" where
  "put_filters f = TTable
     [(''country_whitelist'', t_strs (country_whitelist f)), (''country_blacklist'', t_strs (country_blacklist f)),
      (''server_whitelist'', t_strs (server_whitelist f)), (''server_blacklist'', t_strs (server_blacklist f)),
      (''max_load'', t_word (max_load f))]"

definition put_weights :: "weights \<Rightarrow> toml" where
  "put_weights w = TTable
     [(''rtt'', TFloat (w_rtt w)), (''load'', TFloat (w_load w)), (''headroom'', TFloat (w_headroom w))]"

definition put_autotune :: "autotune \<Rightarrow> toml" where
  "put_autotune a = TTable
     ([(''interval_minutes'', t_word (interval_minutes a)), (''max_latency_ms'', t_word (max_latency_ms a)),
       (''min_mbps'', TFloat (min_mbps a)), (''accept_fraction'', TFloat (accept_fraction a)),
       (''measure_before_connect'', TBool (measure_before_connect a))] @
      some_entry ''target_mbps'' TFloat (at_target_mbps a) @
      [(''headroom_margin'', TFloat (headroom_margin a)), (''verify_candidates'', t_nat (verify_candidates a)),
       (''switch_policy'', TStr (policy_name (at_switch_policy a))),
       (''improvement_threshold'', TFloat (improvement_threshold a)), (''weights'', put_weights (at_weights a))])"

definition put_probe :: "probe_cfg \<Rightarrow> toml" where
  "put_probe p = TTable
     [(''concurrency'', t_nat (pr_concurrency p)), (''timeout_ms'', t_word (pr_timeout_ms p)),
      (''samples'', t_nat (pr_samples p))]"

definition put_killswitch_cfg :: "killswitch_cfg \<Rightarrow> toml" where
  "put_killswitch_cfg k = TTable [(''enabled'', TBool (ks_enabled k)), (''allow_lan'', TBool (ks_allow_lan k))]"

definition put_throughput :: "throughput_cfg \<Rightarrow> toml" where
  "put_throughput t = TTable
     [(''url'', TStr (tp_url t)), (''bytes'', t_word (tp_bytes t)), (''timeout_secs'', t_word (tp_timeout_secs t)),
      (''select_bytes'', t_word (tp_select_bytes t))]"

definition put_bypass :: "bypass_cfg \<Rightarrow> toml" where
  "put_bypass b = TTable
     [(''cidrs'', t_strs (by_cidrs b)), (''hosts'', t_strs (by_hosts b)), (''other_vpns'', TBool (by_other_vpns b)),
      (''lan'', TBool (by_lan b))]"

definition put_config :: "base64 \<Rightarrow> config \<Rightarrow> toml" where
  "put_config b64 c = TTable
     [(''provider'', TTable [(''airvpn'', put_airvpn b64 (cf_airvpn c))]),
      (''filters'', put_filters (cf_filters c)), (''autotune'', put_autotune (cf_autotune c)),
      (''probe'', put_probe (cf_probe c)), (''killswitch'', put_killswitch_cfg (cf_killswitch c)),
      (''throughput'', put_throughput (cf_throughput c)), (''bypass'', put_bypass (cf_bypass c))]"

text \<open>TOML's integers are signed: a larger number is an error, and so is a path that is no string.\<close>

fun in_toml :: "toml \<Rightarrow> bool" where
  "in_toml (TInt i) \<longleftrightarrow> i < 2 ^ 63"
| "in_toml (TArr vs) \<longleftrightarrow> list_all in_toml vs"
| "in_toml (TTable fs) \<longleftrightarrow> list_all (\<lambda>p. in_toml (snd p)) fs"
| "in_toml _ \<longleftrightarrow> True"

record toml_text =
  tt_print :: "toml \<Rightarrow> string"
  tt_parse :: "string \<Rightarrow> string + toml"
  tt_shape_error :: "toml \<Rightarrow> string"
  tt_print_error :: "toml \<Rightarrow> string"

definition paths_ok :: "config \<Rightarrow> bool" where
  "paths_ok c \<longleftrightarrow> utf8_ok (ap_private_key_file (cf_airvpn c)) \<and>
     pred_option utf8_ok (ap_preshared_key_file (cf_airvpn c))"

definition to_toml :: "toml_text \<Rightarrow> base64 \<Rightarrow> config \<Rightarrow> string + string" where
  "to_toml tt b64 c =
     (let v = put_config b64 c in
      if paths_ok c \<and> in_toml v then Inr (tt_print tt v) else Inl (tt_print_error tt v))"

text \<open>\<^verbatim>\<open>toml::from_str\<close> at the type of the settings.\<close>

definition from_toml :: "toml_text \<Rightarrow> base64 \<Rightarrow> string \<Rightarrow> string + config" where
  "from_toml tt b64 s =
     (case tt_parse tt s of
        Inl e \<Rightarrow> Inl e
      | Inr v \<Rightarrow> (case get_config b64 v of Some c \<Rightarrow> Inr c | None \<Rightarrow> Inl (tt_shape_error tt v)))"

section \<open>Reading back\<close>

text \<open>What settings must be to be read back: their keys and prefixes valid, their counts those of
the machine. Their texts and paths may be anything TOML carries.\<close>

definition airvpn_fits :: "airvpn_provider \<Rightarrow> bool" where
  "airvpn_fits p \<longleftrightarrow> length (public_bytes (ap_peer_public_key p)) = KEY_LEN \<and>
     list_all cidr_ok (ap_address p) \<and> list_all cidr_ok (ap_allowed_ips p)"

definition settings_fit :: "config \<Rightarrow> bool" where
  "settings_fit c \<longleftrightarrow> airvpn_fits (cf_airvpn c) \<and> verify_candidates (cf_autotune c) < 2 ^ 64 \<and>
     pr_concurrency (cf_probe c) < 2 ^ 64 \<and> pr_samples (cf_probe c) < 2 ^ 64"

text \<open>A setting that is not written comes back as its default; for the keepalive that is not \<^verbatim>\<open>None\<close>.\<close>

definition keepalive_defaulted :: "config \<Rightarrow> config" where
  "keepalive_defaulted c = c\<lparr>cf_airvpn := (cf_airvpn c)\<lparr>ap_persistent_keepalive :=
     (case ap_persistent_keepalive (cf_airvpn c) of Some n \<Rightarrow> Some n | None \<Rightarrow> Some 15)\<rparr>\<rparr>"

lemma entries_some_entry [simp]:
  "values_at k (some_entry k' f v) = (if k' = k then (case v of None \<Rightarrow> [] | Some x \<Rightarrow> [f x]) else [])"
  by (simp add: some_entry_def split: option.split)

lemma known_some_entry [simp]: "known ks (some_entry k f v) \<longleftrightarrow> v = None \<or> k \<in> set ks"
  by (simp add: some_entry_def split: option.split)

lemma tde_put [simp]:
  "tde_word (t_word w) = Some w" "n < 2 ^ 64 \<Longrightarrow> tde_nat (t_nat n) = Some n"
  "tde_list tde_str (t_strs ss) = Some ss" "tde_policy (TStr (policy_name p)) = Some p"
  "tde_ip (TStr (show_ip a)) = Some a"
  by (simp_all add: t_word_def uint_lt2p t_nat_def t_strs_def each_map tde_policy_def tde_ip_def parse_ip_show_ip)
    (cases p; simp)

lemma tde_cidrs [simp]: "list_all cidr_ok cs \<Longrightarrow> tde_list tde_cidr (t_cidrs cs) = Some cs"
  by (simp add: t_cidrs_def each_map tde_cidr_def parse_cidr_show_cidr list_all_iff)

lemma tde_ips [simp]: "each tde_ip (map (\<lambda>a. TStr (show_ip a)) as) = Some as"
  by (simp add: each_map)

lemma tde_key_put: "base64_ok b64 \<Longrightarrow> length (public_bytes k) = KEY_LEN \<Longrightarrow>
    tde_key b64 (TStr (public_to_base64 b64 k)) = Some k"
  by (simp add: tde_key_def public_round)

lemma get_sections_put [simp]:
  "get_filters (put_filters f) = Some f" "get_weights (put_weights w) = Some w"
  "get_killswitch_cfg (put_killswitch_cfg k) = Some k" "get_throughput (put_throughput t) = Some t"
  "get_bypass (put_bypass b) = Some b"
  by (simp_all add: get_filters_def put_filters_def get_weights_def put_weights_def get_killswitch_cfg_def
      put_killswitch_cfg_def get_throughput_def put_throughput_def get_bypass_def put_bypass_def
      field_or_def field_alias_or_def)

lemma get_probe_put [simp]:
  "pr_concurrency p < 2 ^ 64 \<Longrightarrow> pr_samples p < 2 ^ 64 \<Longrightarrow> get_probe (put_probe p) = Some p"
  by (simp add: get_probe_def put_probe_def field_or_def)

lemma get_autotune_put [simp]: "verify_candidates a < 2 ^ 64 \<Longrightarrow> get_autotune (put_autotune a) = Some a"
  by (cases "at_target_mbps a") (simp_all add: get_autotune_def put_autotune_def field_or_def tde_some_def)

lemma get_airvpn_put:
  assumes "base64_ok b64" and "airvpn_fits p"
  shows "get_airvpn b64 (put_airvpn b64 p) = Some (p\<lparr>ap_persistent_keepalive :=
    (case ap_persistent_keepalive p of Some n \<Rightarrow> Some n | None \<Rightarrow> Some 15)\<rparr>)"
proof -
  note k = tde_key_put [OF assms(1), of "ap_peer_public_key p"]
  show ?thesis
    using assms(2) k
    by (simp add: get_airvpn_def put_airvpn_def field_def field_or_def tde_some_def airvpn_fits_def
        default_keepalive_def
        split: option.split)
qed

lemma get_config_put:
  assumes "base64_ok b64" and "settings_fit c"
  shows "get_config b64 (put_config b64 c) = Some (keepalive_defaulted c)"
  using assms get_airvpn_put [OF assms(1), of "cf_airvpn c"]
  by (simp add: get_config_def put_config_def get_provider_def field_def field_or_def settings_fit_def
      keepalive_defaulted_def)

text \<open>What can be written: TOML's integers are signed.\<close>

definition writable :: "config \<Rightarrow> bool" where
  "writable c \<longleftrightarrow> paths_ok c \<and> uint (interval_minutes (cf_autotune c)) < 2 ^ 63 \<and>
     verify_candidates (cf_autotune c) < 2 ^ 63 \<and> pr_concurrency (cf_probe c) < 2 ^ 63 \<and>
     uint (pr_timeout_ms (cf_probe c)) < 2 ^ 63 \<and> pr_samples (cf_probe c) < 2 ^ 63 \<and>
     uint (tp_bytes (cf_throughput c)) < 2 ^ 63 \<and> uint (tp_timeout_secs (cf_throughput c)) < 2 ^ 63 \<and>
     uint (tp_select_bytes (cf_throughput c)) < 2 ^ 63"

lemma in_toml_list [simp]:
  "in_toml (t_strs ss)" "in_toml (t_cidrs cs)" "list_all in_toml (map (\<lambda>a. TStr (f a)) as)"
  by (simp_all add: t_strs_def t_cidrs_def list_all_iff)

lemma in_toml_some_entry [simp]:
  "list_all (\<lambda>p. in_toml (snd p)) (some_entry k f v) \<longleftrightarrow> pred_option (\<lambda>x. in_toml (f x)) v"
  by (simp add: some_entry_def split: option.split)

lemma in_toml_unless [simp]: "list_all (\<lambda>p. in_toml (snd p)) (unless b k v) \<longleftrightarrow> b \<or> in_toml v"
  by (simp add: unless_def)

lemma in_toml_word [simp]: "in_toml (t_word w) \<longleftrightarrow> uint w < 2 ^ 63" "in_toml (t_nat n) \<longleftrightarrow> n < 2 ^ 63"
  by (auto simp: t_word_def t_nat_def zless_nat_eq_int_zless)

lemma small_words [simp]: "uint (w16 :: u16) < 9223372036854775808" "uint (w32 :: u32) < 9223372036854775808"
  using uint_lt2p [of w16] uint_lt2p [of w32] by simp_all

lemma in_toml_put: "in_toml (put_config b64 c) \<and> paths_ok c \<longleftrightarrow> writable c"
proof -
  have all: "pred_option (\<lambda>x. True) v" for v :: "'x option" by (cases v) simp_all
  have "in_toml (put_airvpn b64 p)" for p
    by (simp add: put_airvpn_def all del: One_nat_def)
  then show ?thesis
    by (simp add: put_config_def put_filters_def put_autotune_def put_weights_def put_probe_def
        put_killswitch_cfg_def put_throughput_def put_bypass_def writable_def all del: One_nat_def) blast
qed

lemma unknown_refused: "(k, v) \<in> set fs \<Longrightarrow> k \<notin> set ks \<Longrightarrow> tde_table ks d (TTable fs) = None"
  by (auto simp: known_def list_all_iff)

definition config_keys :: "string list" where
  "config_keys = [''provider'', ''filters'', ''autotune'', ''probe'', ''killswitch'', ''throughput'', ''bypass'']"

lemma empty_sections:
  "get_filters (TTable []) = Some filters_default" "get_autotune (TTable []) = Some autotune_default"
  "get_weights (TTable []) = Some weights_default" "get_probe (TTable []) = Some probe_default"
  "get_killswitch_cfg (TTable []) = Some killswitch_default"
  "get_throughput (TTable []) = Some throughput_default" "get_bypass (TTable []) = Some bypass_default"
  by (simp_all add: get_filters_def filters_default_def get_autotune_def autotune_default_def get_weights_def
      weights_default_def get_probe_def probe_default_def get_killswitch_cfg_def killswitch_default_def
      get_throughput_def throughput_default_def get_bypass_def bypass_default_def field_or_def
      field_alias_or_def default_settings)

section \<open>Properties\<close>

text \<open>C17: settings are written exactly when their paths are texts and their numbers
fit TOML's integers. What is written is read back, over a text layer that carries it, as the
settings it was written from, except that a keepalive turned off comes back as 15 seconds; and
as long as the settings were valid, the file is accepted.\<close>

theorem settings_round_trip:
  assumes "base64_ok b64" and "settings_fit c"
    and "tt_parse tt (tt_print tt (put_config b64 c)) = Inr (put_config b64 c)"
  shows "((\<exists>s. to_toml tt b64 c = Inr s) \<longleftrightarrow> writable c) \<and>
    (\<forall>s. to_toml tt b64 c = Inr s \<longrightarrow>
       from_toml tt b64 s = Inr (keepalive_defaulted c) \<and>
       (from_toml tt b64 s = Inr c \<longleftrightarrow> ap_persistent_keepalive (cf_airvpn c) \<noteq> None) \<and>
       (config_ok c \<longrightarrow> config_parse (from_toml tt b64) s path = Inr (keepalive_defaulted c)))"
proof (intro conjI allI impI)
  show "(\<exists>s. to_toml tt b64 c = Inr s) \<longleftrightarrow> writable c"
    using in_toml_put [of b64 c] by (auto simp: to_toml_def Let_def)
next
  fix s assume s: "to_toml tt b64 c = Inr s"
  then show read: "from_toml tt b64 s = Inr (keepalive_defaulted c)"
    using assms(3) get_config_put [OF assms(1,2)]
    by (auto simp: to_toml_def from_toml_def Let_def split: if_splits)
  have "keepalive_defaulted c = c \<longleftrightarrow> ap_persistent_keepalive (cf_airvpn c) \<noteq> None"
    by (cases c; cases "cf_airvpn c") (simp add: keepalive_defaulted_def split: option.split)
  then show "from_toml tt b64 s = Inr c \<longleftrightarrow> ap_persistent_keepalive (cf_airvpn c) \<noteq> None" by (simp add: read)
  assume "config_ok c"
  then have "config_ok (keepalive_defaulted c)" by (simp add: config_ok_def keepalive_defaulted_def Let_def)
  then show "config_parse (from_toml tt b64) s path = Inr (keepalive_defaulted c)"
    using read by (simp add: config_parse_def validate_iff [symmetric])
qed

text \<open>A settings file that names only the provider gives every other
section its documented defaults, and so does one that opens every section and leaves it empty.
A section that is misspelt is refused, wherever it stands; the old name of the headroom's
weight means the same as the new one, but not both.\<close>

lemma omitted_settings_are_defaults:
  assumes "get_airvpn b64 v = Some p"
  shows "get_config b64 (TTable [(''provider'', TTable [(''airvpn'', v)])]) =
      Some \<lparr>cf_airvpn = p, cf_filters = filters_default, cf_autotune = autotune_default, cf_probe = probe_default,
        cf_killswitch = killswitch_default, cf_throughput = throughput_default, cf_bypass = bypass_default\<rparr> \<and>
    get_config b64 (TTable ((''provider'', TTable [(''airvpn'', v)]) # map (\<lambda>k. (k, TTable [])) (tl config_keys))) =
      get_config b64 (TTable [(''provider'', TTable [(''airvpn'', v)])]) \<and>
    ((k, x) \<in> set fs \<and> k \<notin> set config_keys \<longrightarrow> get_config b64 (TTable fs) = None) \<and>
    get_weights (TTable [(''bandwidth'', x)]) = get_weights (TTable [(''headroom'', x)]) \<and>
    get_weights (TTable [(''headroom'', x), (''bandwidth'', y)]) = None"
proof (intro conjI impI)
  show "get_config b64 (TTable fs) = None" if "(k, x) \<in> set fs \<and> k \<notin> set config_keys"
    using that unfolding get_config_def config_keys_def by (blast intro: unknown_refused)
qed (use assms empty_sections in \<open>simp_all add: get_config_def get_provider_def get_weights_def config_keys_def
    field_def field_or_def field_alias_or_def\<close>)

text \<open>Witnesses: settings imported from a file without a keepalive, over a text layer that knows
one text.\<close>

definition one_text :: "toml \<Rightarrow> toml_text" where
  "one_text v = \<lparr>tt_print = \<lambda>_. ''[provider.airvpn]'', tt_parse = \<lambda>_. Inr v,
     tt_shape_error = \<lambda>_. ''missing field'', tt_print_error = \<lambda>_. ''out-of-range value''\<rparr>"

definition quiet_config :: config where
  "quiet_config = from_imported (sample_client\<lparr>cc_persistent_keepalive := None\<rparr>) ''/etc/wg.key'' ''/etc/wg.psk''"

lemma quiet_config_fits: "settings_fit quiet_config" "writable quiet_config"
  by (simp_all add: quiet_config_def settings_fit_def airvpn_fits_def from_imported_def sample_client_def KEY_LEN_def
      cidr_ok_def max_prefix_def autotune_default_def probe_default_def throughput_default_def writable_def
      paths_ok_def in_bytes_def)

theorem settings_round_trip_witness:
  "\<exists>s. to_toml (one_text (put_config sample_engine quiet_config)) sample_engine quiet_config = Inr s \<and>
     from_toml (one_text (put_config sample_engine quiet_config)) sample_engine s \<noteq> Inr quiet_config"
proof -
  let ?tt = "one_text (put_config sample_engine quiet_config)"
  have quiet: "ap_persistent_keepalive (cf_airvpn quiet_config) = None"
    by (simp add: quiet_config_def from_imported_def)
  have "tt_parse ?tt (tt_print ?tt (put_config sample_engine quiet_config)) = Inr (put_config sample_engine quiet_config)"
    by (simp add: one_text_def)
  from settings_round_trip [OF sample_engine_ok quiet_config_fits(1) this]
  have "\<exists>s. to_toml ?tt sample_engine quiet_config = Inr s"
    "\<forall>s. to_toml ?tt sample_engine quiet_config = Inr s \<longrightarrow> from_toml ?tt sample_engine s \<noteq> Inr quiet_config"
    using quiet_config_fits(2) quiet by blast+
  then show ?thesis by blast
qed

end
