(* ===== verification/Cli.thy ===== *)
theory Cli
  imports Wire Format Render Config_Toml
begin

text \<open>
  \<^verbatim>\<open>vpnmgr/src/main.rs\<close>: the command line client. A command becomes a request, the reply
  becomes text and an exit code; \<^verbatim>\<open>import\<close> works without the daemon. Argument parsing is
  clap's; what writes the settings is a parameter, and so is the text of a core error.
\<close>

section \<open>Commands\<close>

datatype command =
    CmdStatus
  | CmdConnect "string option" bool bool \<comment> \<open>server, measure, quick\<close>
  | CmdDisconnect
  | CmdSwitch string
  | CmdTest "string option" nat
  | CmdServers "string option" "nat option" bool
  | CmdRanking nat
  | CmdReload
  | CmdAutotune
  | CmdApprove
  | CmdDismiss
  | CmdSpeedtest
  | CmdBaseline bool
  | CmdKillswitch "string option"
  | CmdImport path path

text \<open>An import is handled before a request is made.\<close>

fun request_of :: "command \<Rightarrow> request option" where
  "request_of CmdStatus = Some ReqStatus"
| "request_of (CmdConnect server m quick) =
     Some (ReqConnect server
       (if m then Some True else if quick then Some False else None))"
| "request_of CmdDisconnect = Some ReqDisconnect"
| "request_of (CmdSwitch server) = Some (ReqSwitch server)"
| "request_of (CmdTest country _) = Some (ReqTest country)"
| "request_of (CmdServers country limit all) = Some (ReqServers country limit all)"
| "request_of (CmdRanking limit) = Some (ReqLastRanking (Some limit))"
| "request_of CmdReload = Some ReqReload"
| "request_of CmdAutotune = Some ReqAutotune"
| "request_of CmdApprove = Some ReqApprove"
| "request_of CmdDismiss = Some ReqDismiss"
| "request_of CmdSpeedtest = Some ReqSpeedtest"
| "request_of (CmdBaseline yes) = Some (ReqBaseline yes)"
| "request_of (CmdKillswitch state) = Some (ReqKillswitch (map_option (\<lambda>s. s = ''on'') state))"
| "request_of (CmdImport _ _) = None"

section \<open>Printing\<close>

definition println :: "string \<Rightarrow> string" where
  "println s = s @ [lf]"

definition or_else :: "string \<Rightarrow> string option \<Rightarrow> string" where
  "or_else d s = (case s of Some x \<Rightarrow> x | None \<Rightarrow> d)"

definition ratio :: "nat \<Rightarrow> nat \<Rightarrow> f64" where
  "ratio n d = f64_of_nat n / f64_of_nat d"

definition short_age :: "nat \<Rightarrow> string" where
  "short_age s =
     (if s < 90 then ''now''
      else if s < 3600 then show_nat (s div 60) @ ''m''
      else if s < 86400 then show_nat (s div 3600) @ ''h''
      else show_nat (s div 86400) @ ''d'')"

definition human_duration :: "nat \<Rightarrow> string" where
  "human_duration s =
     (if s = 0 then ''moments''
      else if s < 60 then show_nat s @ ''s''
      else if s < 3600 then show_nat (s div 60) @ ''m '' @ show_nat (s mod 60) @ ''s''
      else show_nat (s div 3600) @ ''h '' @ show_nat (s mod 3600 div 60) @ ''m'')"

definition speed_line :: "string \<Rightarrow> speed_sample \<Rightarrow> string" where
  "speed_line label s =
     println (''  '' @ left_in 10 label @ '': '' @ right_in 7 (fmt_prec 1 (sm_mbps s)) @ '' Mbps  ('' @
       fmt_prec 1 (ratio (unat (sm_bytes s)) 1000000) @ '' MB in '' @
       fmt_prec 2 (ratio (sm_elapsed_ms s) 1000) @ ''s'' @
       (if sm_truncated s then '', timed out'' else []) @ '')'')"

definition print_speed :: "speed_report \<Rightarrow> string" where
  "print_speed r =
     (case sr_tunnelled r of Some s \<Rightarrow> speed_line (or_else ''via VPN'' (sr_server r)) s | None \<Rightarrow> []) @
     (case sr_direct r of Some s \<Rightarrow> speed_line ''direct'' s | None \<Rightarrow> []) @
     println ([lf] @ sr_verdict r)"

definition print_connection :: "status_report \<Rightarrow> string" where
  "print_connection r =
     println (''connected to '' @ or_else ''?'' (st_server r) @ '' ('' @ or_else ''?'' (st_location r) @
       '', '' @ or_else ''?'' (st_country_code r) @ '')'') @
     println (''  interface : '' @ st_interface r) @
     (case st_endpoint r of
        Some e \<Rightarrow> println (''  endpoint  : '' @ show_sockaddr e @ '' (entry '' @
          show_nat (case st_entry r of Some n \<Rightarrow> unat n | None \<Rightarrow> 0) @ '')'')
      | None \<Rightarrow> []) @
     println (''  handshake : '' @
       (case st_last_handshake_secs r of Some n \<Rightarrow> show_nat n @ ''s ago'' | None \<Rightarrow> ''never'') @ '' ('' @
       (if st_healthy r then ''healthy'' else ''NO RECENT HANDSHAKE'') @ '')'') @
     println (''  transfer  : '' @ human_bytes (st_tx_bytes r) @ '' up, '' @
       human_bytes (st_rx_bytes r) @ '' down'')"

definition print_sweep :: "sweep_summary \<Rightarrow> string" where
  "print_sweep w =
     println ([lf] @ ''last sweep: '' @ show_nat (sw_reachable w) @ ''/'' @ show_nat (sw_probed w) @
       '' reachable in '' @ fmt_prec 1 (ratio (sw_elapsed_ms w) 1000) @ ''s, '' @
       show_nat (sw_age_secs w) @ ''s ago'') @
     (case sw_best w of
        Some b \<Rightarrow> println (''  best available: '' @ rk_name b @ '' ('' @ rk_location b @ '') at '' @
          fmt_prec 1 (rk_rtt_ms b) @ ''ms'')
      | None \<Rightarrow> [])"

definition print_pending :: "pending_switch \<Rightarrow> string" where
  "print_pending p =
     println ([lf] @ ''PENDING SWITCH to '' @ rk_name (pd_to p) @ '' ('' @ rk_location (pd_to p) @ '') at '' @
       fmt_prec 1 (rk_rtt_ms (pd_to p)) @ ''ms, raised '' @ human_duration (pd_age_secs p) @ '' ago'') @
     println (''  '' @ pd_reason p) @
     println (''  `vpnmgr approve` to switch, `vpnmgr dismiss` to keep the current server'')"

definition print_status :: "status_report \<Rightarrow> string" where
  "print_status r =
     (if \<not> st_connected r then println ''disconnected'' else print_connection r) @
     (case st_baseline_mbps r of
        Some mbps \<Rightarrow> println ([lf] @ ''without VPN: '' @ rate mbps @ '' '' @
          (case st_baseline_age_secs r of
             Some age \<Rightarrow> ''(measured '' @ short_age age @ '')''
           | None \<Rightarrow> []))
      | None \<Rightarrow> []) @
     (case st_last_sweep r of Some w \<Rightarrow> print_sweep w | None \<Rightarrow> []) @
     (case st_last_tune r of Some t \<Rightarrow> println ([lf] @ ''last tune: '' @ t) | None \<Rightarrow> []) @
     (case st_next_tune_secs r of
        Some n \<Rightarrow> println (''next tune: in '' @ human_duration n) | None \<Rightarrow> []) @
     (case st_pending_switch r of Some p \<Rightarrow> print_pending p | None \<Rightarrow> [])"

subsection \<open>Tables\<close>

definition ranking_header :: "bool \<Rightarrow> string" where
  "ranking_header measured =
     println (left_in 16 ''SERVER'' @ '' '' @ left_in 20 ''LOCATION'' @ '' '' @ right_in 4 ''CC'' @ '' '' @
       right_in 8 ''RTT'' @ '' '' @ right_in 6 ''LOAD'' @ '' '' @ right_in 9 ''FREE'' @ '' '' @
       right_in 6 ''SCORE'' @ (if measured then '' '' @ right_in 12 ''MEASURED'' else []) @ ''  entry'')"

definition measured_text :: "ranked_server \<Rightarrow> string" where
  "measured_text s =
     (case (rk_mbps s, rk_mbps_age_secs s) of
        (Some mbps, Some age) \<Rightarrow> fmt_prec 0 mbps @ '' Mbps '' @ short_age age
      | _ \<Rightarrow> [])"

definition ranking_row :: "bool \<Rightarrow> ranked_server \<Rightarrow> string" where
  "ranking_row measured s =
     println (left_in 16 (rk_name s) @ '' '' @ left_in 20 (truncate_text (rk_location s) 20) @ '' '' @
       right_in 4 (rk_country_code s) @ '' '' @ right_in 6 (fmt_prec 1 (rk_rtt_ms s)) @ ''ms '' @
       right_in 5 (show_nat (unat (rk_load s))) @ ''% '' @
       right_in 9 (rate (f64_of_nat (unat (rk_headroom_mbps s)))) @ '' '' @
       right_in 6 (fmt_prec 3 (rk_score s)) @
       (if measured then '' '' @ right_in 12 (measured_text s) else []) @ ''  '' @
       show_nat (unat (rk_entry s)))"

definition print_ranking :: "ranked_server list \<Rightarrow> nat \<Rightarrow> string" where
  "print_ranking ranking limit =
     (let any_measured = list_ex (\<lambda>s. rk_mbps s \<noteq> None) ranking in
      ranking_header any_measured @
      concat (map (ranking_row any_measured) (take limit ranking)) @
      println ([lf] @ show_nat (length ranking) @ '' servers ranked'') @
      (if \<not> any_measured
       then println ''run `vpnmgr speedtest` while connected to record a server's real speed''
       else []))"

definition server_row :: "server_summary \<Rightarrow> string" where
  "server_row s =
     println (left_in 16 (ss_name s) @ '' '' @ left_in 20 (truncate_text (ss_location s) 20) @ '' '' @
       left_in 16 (truncate_text (ss_country_name s) 16) @ '' '' @
       right_in 4 (show_nat (unat (ss_load s))) @ ''% '' @
       right_in 9 (rate (f64_of_nat (unat (ss_headroom_mbps s)))) @ '' '' @
       right_in 7 (show_nat (unat (ss_users s))) @ ''  '' @
       (if ss_healthy s then ''ok'' else ''DEGRADED''))"

definition print_servers :: "server_summary list \<Rightarrow> string" where
  "print_servers ss =
     println (left_in 16 ''SERVER'' @ '' '' @ left_in 20 ''LOCATION'' @ '' '' @ left_in 16 ''COUNTRY'' @ '' '' @
       right_in 5 ''LOAD'' @ '' '' @ right_in 9 ''FREE'' @ '' '' @ right_in 7 ''USERS'' @ ''  health'') @
     concat (map server_row ss) @
     println ([lf] @ show_nat (length ss) @ '' servers'')"

definition print_killswitch :: "killswitch_report \<Rightarrow> string" where
  "print_killswitch r =
     println (''kill switch: '' @ (if kr_engaged r then ''ENGAGED'' else ''off'')) @
     println (''  applied on connect: '' @ (if kr_configured r then ''yes'' else ''no'')) @
     (case kr_dropped r of
        Some n \<Rightarrow> println (''  packets blocked   : '' @ show_nat n) | None \<Rightarrow> []) @
     (if kr_engaged r \<and> \<not> kr_configured r
      then println ([lf] @ ''  engaged manually; `vpnmgr killswitch off` to clear it'') else [])"

definition print_tuned :: "tune_report \<Rightarrow> string" where
  "print_tuned r =
     println (tr_summary r) @
     (case tr_pending r of
        Some p \<Rightarrow>
          println ([lf] @ ''  '' @ rk_name (pd_to p) @ '' ('' @ rk_location (pd_to p) @ '') at '' @
            fmt_prec 1 (rk_rtt_ms (pd_to p)) @ ''ms, load '' @ show_nat (unat (rk_load (pd_to p))) @ ''%'') @
          println (''  run `vpnmgr approve` to switch, or `vpnmgr dismiss` to keep the current server'')
      | None \<Rightarrow> [])"

section \<open>Replies\<close>

text \<open>What a run of the program gives: success, standard output, standard error.\<close>

record outcome =
  oc_success :: bool
  oc_stdout :: string
  oc_stderr :: string

definition out_ok :: "string \<Rightarrow> outcome" where
  "out_ok s = \<lparr>oc_success = True, oc_stdout = s, oc_stderr = []\<rparr>"

definition out_err :: "string \<Rightarrow> outcome" where
  "out_err e = \<lparr>oc_success = False, oc_stdout = [], oc_stderr = println e\<rparr>"

definition ranking_limit :: "command \<Rightarrow> ranked_server list \<Rightarrow> nat" where
  "ranking_limit c ranking =
     (case c of CmdTest _ limit \<Rightarrow> limit | CmdRanking limit \<Rightarrow> limit | _ \<Rightarrow> length ranking)"

fun report :: "command \<Rightarrow> string response \<Rightarrow> outcome" where
  "report c (RespError message) = out_err (''error: '' @ message)"
| "report c (RespOk message) = out_ok (println message)"
| "report c (RespVersion version) = out_ok (println (''vpnmgrd '' @ version))"
| "report c (RespStatus r) = out_ok (print_status r)"
| "report c (RespRanking ranking) =
     (if ranking = [] then out_ok (println ''no sweep has run yet; try `vpnmgr test`'')
      else out_ok (print_ranking ranking (ranking_limit c ranking)))"
| "report c (RespServers ss) = out_ok (print_servers ss)"
| "report c (RespSpeed r) = out_ok (print_speed r)"
| "report c (RespKillswitch r) = out_ok (print_killswitch r)"
| "report c (RespTuned r) = out_ok (print_tuned r)"

section \<open>Import\<close>

text \<open>\<^verbatim>\<open>Path::join\<close> on Unix, for a relative second part.\<close>

definition path_join :: "path \<Rightarrow> string \<Rightarrow> path" where
  "path_join a b = (if a = [] \<or> last a = CHR ''/'' then a @ b else a @ ''/'' @ b)"

definition secret_paths :: "path \<Rightarrow> path \<times> path" where
  "secret_paths dir = (path_join dir ''wg.key'', path_join dir ''wg.psk'')"

record tools =
  tl_b64 :: base64
  tl_read :: "path \<Rightarrow> string + string"
  tl_to_toml :: "config \<Rightarrow> string + string"
  tl_core_error :: "core_error \<Rightarrow> string"

definition key_warning :: string where
  "key_warning =
     ''warning: the peer key in this config is not the AirVPN fleet key this'' @ [lf] @
     ''build knows about. That is fine if AirVPN rotated it or this is another'' @ [lf] @
     ''provider -- the imported key is what gets used -- but server selection'' @ [lf] @
     ''assumes AirVPN's server list.''"

definition route_warning :: string where
  "route_warning =
     ''warning: this config does not route all traffic (no 0.0.0.0/0 in'' @ [lf] @
     ''AllowedIPs), so traffic outside its AllowedIPs will bypass the VPN.''"

definition install_line :: "string \<Rightarrow> path \<Rightarrow> path \<Rightarrow> string" where
  "install_line what conf key_path =
     println (''printf '%s' '<'' @ what @ '' KEY FROM '' @ conf @ ''>' | install -m 0600 /dev/stdin '' @ key_path)"

definition import_conf :: "tools \<Rightarrow> path \<Rightarrow> path \<Rightarrow> outcome" where
  "import_conf tls conf dir =
     (case wg_import (tl_b64 tls) (tl_read tls) conf of
        Inl e \<Rightarrow> out_err (''error: '' @ tl_core_error tls e)
      | Inr client \<Rightarrow>
     (let warnings =
            (if \<not> matches_known_airvpn_key (tl_b64 tls) client then println key_warning else []) @
            (if \<not> is_full_tunnel client then println route_warning else []);
          (key_path, psk_path) = secret_paths dir;
          config = from_imported client key_path psk_path
      in case tl_to_toml tls config of
           Inl e \<Rightarrow>
             \<lparr>oc_success = False, oc_stdout = [],
              oc_stderr = warnings @ println (''error: could not render config: '' @
                ''invalid configuration: serialising the config: '' @ e)\<rparr>
         | Inr toml \<Rightarrow>
             \<lparr>oc_success = True,
              oc_stdout =
                println (''# Run these as root to install:'' @ [lf]) @
                println (''install -d -m 0750 '' @ dir) @
                install_line ''PRIVATE'' conf key_path @
                (if cc_preshared_key client \<noteq> None then install_line ''PRESHARED'' conf psk_path else []) @
                println ([lf] @ ''# Then write '' @ dir @ ''/config.toml:'' @ [lf]) @
                println toml,
              oc_stderr = warnings\<rparr>))"

section \<open>The program\<close>

definition cli_main :: "codec \<Rightarrow> 'w wire \<Rightarrow> platform \<Rightarrow> tools \<Rightarrow> path \<Rightarrow> command \<Rightarrow> 'w \<Rightarrow> outcome \<times> 'w"
where
  "cli_main cd wr p tls socket c w =
     (case c of
        CmdImport conf dir \<Rightarrow> (import_conf tls conf dir, w)
      | _ \<Rightarrow>
          (case request_of c of
             None \<Rightarrow> (out_err [], w)
           | Some rq \<Rightarrow>
               (case client_request cd wr socket rq w of
                  (Inl e, w1) \<Rightarrow> (out_err (ipc_error_text p e), w1)
                | (Inr r, w1) \<Rightarrow> (report c r, w1))))"

section \<open>Lemmas\<close>

lemma cli_request:
  assumes "request_of c = Some rq"
  shows "cli_main cd wr p tls socket c w =
    (case client_request cd wr socket rq w of
       (Inl e, w1) \<Rightarrow> (out_err (ipc_error_text p e), w1)
     | (Inr r, w1) \<Rightarrow> (report c r, w1))"
  using assms by (cases c) (auto simp: cli_main_def split: sum.split prod.split)

lemma report_success: "oc_success (report c r) \<longleftrightarrow> (\<forall>e. r \<noteq> RespError e)"
  by (cases r) (simp_all add: out_ok_def out_err_def)

lemma wire_response_error: "wire_response cd r = RespError e \<longleftrightarrow> (\<exists>x. r = RespError x \<and> e = cd_show_error cd x)"
  by (cases r) (auto simp: wire_response_def)

lemma cli_daemon:
  assumes "request_of c = Some rq" and "carries_request cd rq"
    and "carries_response cd (wire_response cd (fst (handle env rq st)))"
  shows "cli_main cd (daemon_wire cd env) p tls socket c ([], [], st) =
    (report c (wire_response cd (fst (handle env rq st))), ([], [], snd (handle env rq st)))"
  by (simp add: cli_request [OF assms(1)] client_daemon [OF assms(2,3)])

text \<open>What an import prints is the same for credentials that differ in their secrets only.\<close>

definition forget_secrets :: "client_config \<Rightarrow> client_config" where
  "forget_secrets c =
     c\<lparr>cc_private_key := SecretKey [],
       cc_preshared_key := map_option (\<lambda>_. SecretKey []) (cc_preshared_key c)\<rparr>"

lemma forget_secrets_eq:
  assumes "forget_secrets c = forget_secrets d"
  shows "from_imported c k q = from_imported d k q"
    and "matches_known_airvpn_key b64 c = matches_known_airvpn_key b64 d"
    and "is_full_tunnel c = is_full_tunnel d"
    and "cc_preshared_key c = None \<longleftrightarrow> cc_preshared_key d = None"
proof -
  have sel: "cc_addresses c = cc_addresses d" "cc_dns c = cc_dns d"
      "cc_search_domains c = cc_search_domains d" "cc_mtu c = cc_mtu d"
      "cc_peer_public_key c = cc_peer_public_key d" "cc_allowed_ips c = cc_allowed_ips d"
      "cc_persistent_keepalive c = cc_persistent_keepalive d"
    using arg_cong [OF assms, of cc_addresses] arg_cong [OF assms, of cc_dns]
      arg_cong [OF assms, of cc_search_domains] arg_cong [OF assms, of cc_mtu]
      arg_cong [OF assms, of cc_peer_public_key] arg_cong [OF assms, of cc_allowed_ips]
      arg_cong [OF assms, of cc_persistent_keepalive]
    by (simp_all add: forget_secrets_def)
  have n: "cc_preshared_key c = None \<longleftrightarrow> cc_preshared_key d = None"
    using arg_cong [OF assms, of cc_preshared_key]
    by (cases "cc_preshared_key c"; cases "cc_preshared_key d") (simp_all add: forget_secrets_def)
  then have "map_option (\<lambda>_. q) (cc_preshared_key c) = map_option (\<lambda>_. q) (cc_preshared_key d)"
    by (cases "cc_preshared_key c"; cases "cc_preshared_key d") simp_all
  then show "from_imported c k q = from_imported d k q" by (simp add: from_imported_def sel)
  show "matches_known_airvpn_key b64 c = matches_known_airvpn_key b64 d"
    "is_full_tunnel c = is_full_tunnel d"
    by (simp_all add: matches_known_airvpn_key_def is_full_tunnel_def sel)
  show "cc_preshared_key c = None \<longleftrightarrow> cc_preshared_key d = None" by (rule n)
qed

section \<open>Properties\<close>


text \<open>Two machines whose imported files differ in the private key.\<close>

definition sample_tools :: "u8 list \<Rightarrow> tools" where
  "sample_tools key =
     \<lparr>tl_b64 = sample_engine,
      tl_read = \<lambda>p. Inr (to_conf sample_engine (sample_client\<lparr>cc_private_key := SecretKey key\<rparr>)
        (wg_endpoint sample_server WG_PORT)),
      tl_to_toml = \<lambda>c. Inr ''[airvpn]'', tl_core_error = \<lambda>e. ''error''\<rparr>"


text \<open>What an import prints, its exit code and its warnings do not depend on
the private key or the preshared key: two files that differ in these keys only give the same
output.\<close>

lemma import_prints_no_secret:
  assumes "wg_import (tl_b64 tls) (tl_read tls) conf = Inr c"
    and "wg_import (tl_b64 tls) (tl_read tls') conf = Inr d"
    and "forget_secrets c = forget_secrets d"
  shows "import_conf (tls\<lparr>tl_read := tl_read tls'\<rparr>) conf dir = import_conf tls conf dir"
proof -
  have "from_imported d (path_join dir ''wg.key'') (path_join dir ''wg.psk'')
      = from_imported c (path_join dir ''wg.key'') (path_join dir ''wg.psk'')"
    using forget_secrets_eq(1) [OF assms(3)] by simp
  then show ?thesis
    using assms(1,2) forget_secrets_eq(2-4) [OF assms(3)]
    by (simp add: import_conf_def secret_paths_def Let_def split: sum.split)
qed

lemma sample_import:
  assumes "length key = KEY_LEN"
  shows "wg_import (tl_b64 (sample_tools k)) (tl_read (sample_tools key)) conf
    = Inr (sample_client\<lparr>cc_private_key := SecretKey key\<rparr>)"
proof -
  have "conf_ok (sample_client\<lparr>cc_private_key := SecretKey key\<rparr>)"
    using assms by (simp add: conf_ok_def sample_client_def KEY_LEN_def cidr_ok_def max_prefix_def sample_domain)
  then show ?thesis
    by (simp add: sample_tools_def wg_import_def wg_parse_to_conf [OF sample_engine_ok])
qed

text \<open>What the daemon makes of the settings an import writes.\<close>

lemma imported_settings:
  assumes "credentials_ok c" and "utf8_ok k" and "utf8_ok q"
  shows "settings_fit (from_imported c k q)" and "writable (from_imported c k q)"
    and "keepalive_defaulted (from_imported c k q) = from_imported (c\<lparr>cc_persistent_keepalive :=
      (case cc_persistent_keepalive c of Some n \<Rightarrow> Some n | None \<Rightarrow> Some 15)\<rparr>) k q"
  using assms
  by (cases "cc_preshared_key c"; simp add: settings_fit_def airvpn_fits_def from_imported_def credentials_ok_def
      list_all_iff autotune_default_def probe_default_def throughput_default_def writable_def paths_ok_def
      keepalive_defaulted_def)+

lemma utf8_join: "utf8_ok a \<Longrightarrow> utf8_ok b \<Longrightarrow> utf8_ok (path_join a b)"
  by (simp add: path_join_def utf8_ok_append in_bytes_def)

text \<open>C15: an import of a file that parses succeeds and ends its output with the
settings. When its instructions are followed, so that what it printed and the two key files are
where it says, the daemon reads the settings back and loads, not connected, with the credentials
of the imported file; only a keepalive the file did not ask for is one of 15 seconds.\<close>

theorem import_installs_the_daemon:
  assumes "base64_ok (tl_b64 tls)" and "wg_import (tl_b64 tls) (tl_read tls) conf = Inr client" and "utf8_ok dir"
    and "tl_to_toml tls = to_toml tt (tl_b64 tls)" and "ev_toml env = from_toml tt (tl_b64 tls)"
    and "ev_b64 env = tl_b64 tls"
    and "v = put_config (tl_b64 tls) (from_imported client (path_join dir ''wg.key'') (path_join dir ''wg.psk''))"
    and "tt_parse tt (tt_print tt v) = Inr v" and "ev_read env w (path_join dir ''config.toml'') = Inr (tt_print tt v)"
    and "holds_key (tl_b64 tls) (ev_read env w) (path_join dir ''wg.key'') (secret_expose (cc_private_key client))"
    and "\<And>k. cc_preshared_key client = Some k \<Longrightarrow>
      holds_key (tl_b64 tls) (ev_read env w) (path_join dir ''wg.psk'') (secret_expose k)"
  shows "oc_success (import_conf tls conf dir) \<and>
    (\<exists>before. oc_stdout (import_conf tls conf dir) = before @ println (tt_print tt v)) \<and>
    (\<exists>st. load env (path_join dir ''config.toml'') w = Inr st \<and> ds_tunnel st = None \<and>
      ds_client st = client\<lparr>cc_persistent_keepalive :=
        (case cc_persistent_keepalive client of Some n \<Rightarrow> Some n | None \<Rightarrow> Some 15)\<rparr>)"
proof -
  let ?k = "path_join dir ''wg.key''" and ?q = "path_join dir ''wg.psk''"
  let ?client = "client\<lparr>cc_persistent_keepalive :=
        (case cc_persistent_keepalive client of Some n \<Rightarrow> Some n | None \<Rightarrow> Some 15)\<rparr>"
  have ok: "credentials_ok client" using assms(2) wg_parse_ok by (auto simp: wg_import_def split: sum.splits)
  have u: "utf8_ok ?k" "utf8_ok ?q" using assms(3) by (simp_all add: utf8_join in_bytes_def)
  note fit = imported_settings [OF ok u]
  have w: "to_toml tt (tl_b64 tls) (from_imported client ?k ?q) = Inr (tt_print tt v)"
    using fit(2) in_toml_put [of "tl_b64 tls"] assms(7) by (auto simp: to_toml_def Let_def)
  have r: "from_toml tt (tl_b64 tls) (tt_print tt v) = Inr (from_imported ?client ?k ?q)"
    using get_config_put [OF assms(1) fit(1)] fit(3) assms(7,8) by (simp add: from_toml_def)
  have "cc_addresses ?client \<noteq> []" using ok by (simp add: credentials_ok_def)
  from import_then_load [OF assms(1) this, of "ev_read env w" ?k ?q] assms(10,11)
  have l: "validate (from_imported ?client ?k ?q) = Inr ()"
    "load_client_config (tl_b64 tls) (ev_read env w) (from_imported ?client ?k ?q) = Inr ?client"
    by simp_all
  have "\<exists>before. oc_stdout (import_conf tls conf dir) = before @ println (tt_print tt v)"
    by (simp add: import_conf_def assms(2,4) w secret_paths_def Let_def flip: append_assoc)
  moreover have "\<exists>st. load env (path_join dir ''config.toml'') w = Inr st \<and> ds_tunnel st = None \<and> ds_client st = ?client"
    by (simp add: load_def load_all_def config_load_def config_parse_def assms(5,6,9) r l )
  ultimately show ?thesis
    by (simp add: import_conf_def assms(2,4) w secret_paths_def Let_def)
qed

definition imported_files :: "path \<Rightarrow> string + string" where
  "imported_files p =
     (if p = ''/etc/vpnmgr/wg.key'' then Inr (hex_encode (replicate 32 1))
      else if p = ''/etc/vpnmgr/wg.psk'' then Inr (hex_encode (replicate 32 3)) else Inr ''[provider.airvpn]'')"

theorem import_installs_the_daemon_witness:
  "\<exists>tt st. load (sample_env\<lparr>ev_read := \<lambda>w. imported_files, ev_b64 := sample_engine, ev_toml := from_toml tt sample_engine\<rparr>)
     ''/etc/vpnmgr/config.toml'' 0 = Inr st \<and> ds_client st = sample_client"
proof -
  let ?v = "put_config sample_engine (from_imported sample_client ''/etc/vpnmgr/wg.key'' ''/etc/vpnmgr/wg.psk'')"
  let ?tt = "one_text ?v"
  let ?env = "sample_env\<lparr>ev_read := \<lambda>w. imported_files, ev_b64 := sample_engine, ev_toml := from_toml ?tt sample_engine\<rparr>"
  let ?tls = "sample_tools (replicate 32 1)\<lparr>tl_to_toml := to_toml ?tt sample_engine\<rparr>"
  have j: "path_join ''/etc/vpnmgr'' s = ''/etc/vpnmgr/'' @ s" for s by (simp add: path_join_def)
  have c: "sample_client\<lparr>cc_private_key := SecretKey (replicate 32 1)\<rparr> = sample_client"
    by (simp add: sample_client_def)
  have b: "tl_b64 ?tls = sample_engine" by (simp add: sample_tools_def)
  have i: "wg_import (tl_b64 ?tls) (tl_read ?tls) ''x.conf'' = Inr sample_client"
    using sample_import [of "replicate 32 1" "replicate 32 1" "''x.conf''"] c by (simp add: KEY_LEN_def)
  have e: "base64_ok (tl_b64 ?tls)" by (simp add: b sample_engine_ok)
  have keys: "holds_key (tl_b64 ?tls) (ev_read ?env 0) (path_join ''/etc/vpnmgr'' ''wg.key'')
      (secret_expose (cc_private_key sample_client))"
    "cc_preshared_key sample_client = Some k \<Longrightarrow>
      holds_key (tl_b64 ?tls) (ev_read ?env 0) (path_join ''/etc/vpnmgr'' ''wg.psk'') (secret_expose k)" for k
    by (auto simp: sample_tools_def j holds_key_def imported_files_def sample_client_def sample_engine_def KEY_LEN_def)
  have u: "utf8_ok ''/etc/vpnmgr''" by (simp add: in_bytes_def)
  have t: "tl_to_toml ?tls = to_toml ?tt (tl_b64 ?tls)" "ev_toml ?env = from_toml ?tt (tl_b64 ?tls)"
      "ev_b64 ?env = tl_b64 ?tls"
    by (simp_all add: b)
  have v: "?v = put_config (tl_b64 ?tls) (from_imported sample_client (path_join ''/etc/vpnmgr'' ''wg.key'')
      (path_join ''/etc/vpnmgr'' ''wg.psk''))"
    by (simp only: b j) simp
  have p: "tt_parse ?tt (tt_print ?tt x) = Inr ?v" "tt_print ?tt x = ''[provider.airvpn]''" for x
    by (simp_all add: one_text_def)
  have f: "ev_read ?env 0 (path_join ''/etc/vpnmgr'' ''config.toml'') = Inr (tt_print ?tt ?v)"
    unfolding j p(2) by (simp add: imported_files_def)
  have "\<exists>st. load ?env (path_join ''/etc/vpnmgr'' ''config.toml'') 0 = Inr st \<and> ds_tunnel st = None \<and>
      ds_client st = sample_client\<lparr>cc_persistent_keepalive :=
        (case cc_persistent_keepalive sample_client of Some n \<Rightarrow> Some n | None \<Rightarrow> Some 15)\<rparr>"
    using import_installs_the_daemon [OF e i u t v p(1) f keys] by blast
  moreover have "sample_client\<lparr>cc_persistent_keepalive :=
        (case cc_persistent_keepalive sample_client of Some n \<Rightarrow> Some n | None \<Rightarrow> Some 15)\<rparr> = sample_client"
    by (simp add: sample_client_def)
  ultimately show ?thesis by (auto simp: j)
qed

end
