(* ===== verification/Daemon_Replies.thy ===== *)
theory Daemon_Replies
  imports Daemon_Safety
begin

text \<open>
  Which refusals an operation can give. The errors that say a request does not fit the state
  the daemon is in (connected already, not connected, nothing pending) come only from the
  guards of the operations; measuring, connecting and moving fail otherwise.
\<close>

definition misfit :: "daemon_error \<Rightarrow> bool" where
  "misfit e \<longleftrightarrow> e = NotConnected \<or> e = NoPendingSwitch \<or> (\<exists>n. e = AlreadyConnected n)"

lemma misfit_simps [simp]:
  "misfit NotConnected" "misfit NoPendingSwitch" "misfit (AlreadyConnected n)"
  "\<not> misfit (CoreErr a)" "\<not> misfit (TunnelErr b)" "\<not> misfit (UnknownServer s)"
  "\<not> misfit (ServerUnreachable s)" "\<not> misfit (AllUnreachable k)" "\<not> misfit (NoCandidatesMatch s)"
  "\<not> misfit (ThroughputErr t)" "\<not> misfit ConsentRequired"
  by (simp_all add: misfit_def)

lemma server_list_fits: "server_list env st = (Inl e, st') \<Longrightarrow> \<not> misfit e"
  by (auto simp: server_list_def Let_def split: if_splits sum.splits prod.splits option.splits)

lemma sweep_fits: "sweep env country st = (Inl e, st') \<Longrightarrow> \<not> misfit e"
  by (auto simp: sweep_def Let_def split: if_splits sum.splits prod.splits dest: server_list_fits)

lemma probe_named_fits: "probe_named env name st = (Inl e, st') \<Longrightarrow> \<not> misfit e"
  by (auto simp: probe_named_def Let_def split: sum.splits prod.splits option.splits list.splits
      dest: server_list_fits)

lemma measure_speed_fits: "measure_speed env s st = (Inl e, st') \<Longrightarrow> \<not> misfit e"
  by (auto simp: measure_speed_def split: sum.splits prod.splits)

lemma establish_fits: "establish env c st = (Inl e, st') \<Longrightarrow> \<not> misfit e"
  by (auto simp: establish_def new_tunnel_def Let_def split: sum.splits prod.splits)

lemma move_to_fits: "move_to env c st = (Inl e, st') \<Longrightarrow> ds_tunnel st \<noteq> None \<Longrightarrow> \<not> misfit e"
  by (auto simp: move_to_def split: option.splits sum.splits prod.splits)

lemma try_candidate_fits:
  assumes "try_candidate env s target f c st = (r, st')" and "\<not> f \<Longrightarrow> ds_tunnel st \<noteq> None"
  shows "r = Inl e \<Longrightarrow> \<not> misfit e" and "r = Inr x \<Longrightarrow> ds_tunnel st' \<noteq> None"
proof -
  obtain r1 st1 where 1: "(if f then establish env c st else move_to env c st) = (r1, st1)" by fastforce
  have fits: "r1 = Inl e \<Longrightarrow> \<not> misfit e"
    using 1 assms(2) by (auto split: if_splits dest: establish_fits move_to_fits)
  have up: "r1 = Inr () \<Longrightarrow> ds_tunnel st1 \<noteq> None"
    using 1 by (auto split: if_splits elim: establish_cases move_to_cases)
  obtain b st2 where 2: "wait_until_carrying env (ev_wall env (ds_world st)) st1 = (b, st2)" by fastforce
  obtain r3 st3 where 3: "measure_speed env s st2 = (r3, st3)" by fastforce
  have t: "ds_tunnel st2 = ds_tunnel st1" "ds_tunnel st3 = ds_tunnel st1"
      "ds_tunnel (record_throughput env n m st3) = ds_tunnel st1" for n m
    using wait_frame [OF 2] measure_speed_frame [OF 3] by (auto simp: record_throughput_def)
  show "r = Inl e \<Longrightarrow> \<not> misfit e"
    using assms(1) 1 2 3 fits
    by (auto simp: try_candidate_def Let_def split: sum.splits bool.splits if_splits)
  show "r = Inr x \<Longrightarrow> ds_tunnel st' \<noteq> None"
    using assms(1) 1 2 3 up t
    by (auto simp: try_candidate_def Let_def split: sum.splits bool.splits if_splits)
qed

lemma try_candidates_fits:
  "try_candidates env s target f cs best st = (r, st') \<Longrightarrow> (\<not> f \<Longrightarrow> ds_tunnel st \<noteq> None) \<Longrightarrow>
     (\<forall>e. r = Inl e \<longrightarrow> \<not> misfit e) \<and> (\<forall>x. r = Inr x \<longrightarrow> cs \<noteq> [] \<or> \<not> f \<longrightarrow> ds_tunnel st' \<noteq> None)"
proof (induction cs arbitrary: f best st)
  case (Cons c cs)
  obtain r1 st1 where 1: "try_candidate env s target f c st = (r1, st1)" by fastforce
  note fit = try_candidate_fits [OF 1 Cons.prems(2)]
  have IH: "try_candidates env s target False cs b st1 = (r, st') \<Longrightarrow> ds_tunnel st1 \<noteq> None \<Longrightarrow>
      (\<forall>e. r = Inl e \<longrightarrow> \<not> misfit e) \<and> (\<forall>x. r = Inr x \<longrightarrow> ds_tunnel st' \<noteq> None)" for b
    using Cons.IH [of False b st1] by simp
  show ?case
    using Cons.prems(1) 1 fit IH by (auto split: sum.splits candidate_result.splits)
qed auto

lemma settle_fits:
  assumes "settle env sl best st = (Inl e, st')" and "ds_tunnel st \<noteq> None"
  shows "\<not> misfit e"
  using assms unfolding settle_def Let_def
  by (auto split: option.splits prod.splits sum.splits if_splits dest: move_to_fits establish_fits)

lemma connect_best_fits:
  assumes "connect_best env m st = (Inl e, st')"
  shows "\<not> misfit e"
proof -
  define a where "a = cf_autotune (ds_config st)"
  define should where "should = (case m of Some b \<Rightarrow> b | None \<Rightarrow> measure_before_connect a)"
  obtain r1 st1 where 1: "sweep env None (calibrate env should st) = (r1, st1)" by fastforce
  note run = assms [unfolded connect_best_def Let_def, folded a_def, folded should_def, unfolded 1]
  show ?thesis
  proof (cases r1)
    case (Inl x)
    then show ?thesis using run 1 by (auto dest: sweep_fits)
  next
    case (Inr ranked)
    define n where "n = (if should then min (verify_candidates a) (length ranked) else 0)"
    note run = run [unfolded Inr sum.case prod.case, folded n_def]
    show ?thesis
    proof (cases "ranked = [] \<or> n = 0")
      case True
      then show ?thesis
        using run by (auto split: list.splits prod.splits sum.splits dest: establish_fits)
    next
      case False
      then obtain c cs where r: "ranked = c # cs" by (cases ranked) auto
      obtain r2 st2 where 2: "try_candidates env (select_settings st1) (acceptance_mbps a (direct_mbps st1))
          True (take n ranked) None st1 = (r2, st2)" by fastforce
      have ne: "take n ranked \<noteq> []" using False by simp
      note fits = try_candidates_fits [OF 2]
      have err: "r2 = Inl x \<Longrightarrow> \<not> misfit x" for x using fits by simp
      have up: "r2 = Inr x \<Longrightarrow> ds_tunnel st2 \<noteq> None" for x using fits ne by simp
      show ?thesis
      proof (cases "\<exists>best. r2 = Inr (Inr best)")
        case True
        then obtain best where b: "r2 = Inr (Inr best)" ..
        then have "settle env (take n ranked) best st2 = (Inl e, st')"
          using run 2 False r by simp
        then show ?thesis using settle_fits up [OF b] by blast
      next
        case False
        then show ?thesis
          using run 2 \<open>\<not> (ranked = [] \<or> n = 0)\<close> r err
          by (auto split: sum.splits)
      qed
    qed
  qed
qed

text \<open>Connecting fits when there is no connection, moving when there is one.\<close>

lemma connect_fits: "connect env s m st = (Inl e, st') \<Longrightarrow> ds_current st = None \<Longrightarrow> \<not> misfit e"
  by (auto simp: connect_def split: option.splits prod.splits sum.splits
      dest: connect_best_fits probe_named_fits establish_fits)

lemma switch_fits:
  assumes "switch env name st = (Inl e, st')" and "linked st" and "ds_current st \<noteq> None"
  shows "\<not> misfit e"
proof -
  obtain r1 st1 where 1: "probe_named env name st = (r1, st1)" by fastforce
  have "ds_tunnel st1 \<noteq> None"
    using probe_named_frame [OF 1] assms(2,3) by (simp add: linked_def same_conn_def)
  then show ?thesis
    using assms(1,3) 1
    by (auto simp: switch_def split: option.splits prod.splits sum.splits dest: probe_named_fits)
qed

lemma map_sum_Inl: "map_sum f g x = Inl y \<longleftrightarrow> (\<exists>z. x = Inl z \<and> y = f z)"
  by (cases x) auto

lemma disconnect_fits: "disconnect env st = (Inl e, st') \<Longrightarrow> ds_tunnel st \<noteq> None \<Longrightarrow> \<not> misfit e"
  by (auto simp: disconnect_def map_sum_Inl split: option.splits prod.splits)

lemma recorded_ok [simp]: "recorded env d st \<noteq> (Inl e, st')"
  by (simp add: recorded_def split: prod.split)

lemma carry_out_fits:
  "carry_out env d st = (Inl e, st') \<Longrightarrow> linked st \<Longrightarrow> ds_current st \<noteq> None \<Longrightarrow> \<not> misfit e"
  by (auto simp: carry_out_def split: option.splits prod.splits sum.splits if_splits
      dest: switch_fits)

lemma autotune_fits:
  assumes "autotune_pass env st0 = (Inl e, st')" and "linked st0"
  shows "\<not> misfit e"
proof -
  define st where "st = st0\<lparr>ds_last_tune_at := Some (now env st0)\<rparr>"
  have l: "linked st" using assms(2) by (simp add: st_def linked_def)
  show ?thesis
  proof (cases "ds_current st")
    case None
    then show ?thesis
      using assms(1) unfolding autotune_pass_def Let_def st_def [symmetric]
      by simp
  next
    case (Some c)
    obtain rtt st1 where 1: "probe_current env (cn_server c) st = (rtt, st1)" by fastforce
    obtain r2 st2 where 2: "sweep env None st1 = (r2, st2)" by fastforce
    have same: "same_conn st st2"
      by (rule same_conn_trans [OF probe_current_frame [OF 1] sweep_frame(1) [OF 2]])
    then have "ds_current st2 \<noteq> None" using Some by (simp add: same_conn_def)
    moreover have "linked st2" using linked_same_conn [OF same] l by simp
    ultimately have c: "carry_out env d st2 = (Inl e, st') \<Longrightarrow> \<not> misfit e" for d
      using carry_out_fits by blast
    have s: "r2 = Inl x \<Longrightarrow> \<not> misfit x" for x using 2 sweep_fits by simp
    show ?thesis
      using assms(1) Some 1 2 c s
      unfolding autotune_pass_def Let_def st_def [symmetric]
      by (auto split: option.splits sum.splits daemon_error.splits if_splits)
  qed
qed

lemma reload_fits: "reload env st = (Inl e, st') \<Longrightarrow> \<not> misfit e"
  by (auto simp: reload_def load_all_def Let_def split: sum.splits prod.splits)

lemma reply_error: "fst (reply f p) = RespError e \<Longrightarrow> (\<And>x. f x \<noteq> RespError e) \<Longrightarrow> fst p = Inl e"
  by (auto simp: reply_def split: prod.splits sum.splits)

lemma approve_fits:
  assumes "approve env st = (Inl e, st')" and "linked st" and "ds_pending st \<noteq> None" and "misfit e"
  shows "e = NotConnected \<and> ds_current st = None"
proof -
  let ?st = "st\<lparr>ds_pending := None\<rparr>"
  have l: "linked ?st" using assms(2) by (simp add: linked_def)
  from assms(1,3) obtain name where s: "switch env name ?st = (Inl e, st')"
    by (auto simp: approve_def split: option.splits prod.splits sum.splits)
  have "ds_current ?st = None" using switch_fits [OF s l] assms(4) by blast
  then show ?thesis using s by (simp add: switch_def)
qed

lemma speedtest_fits: "speedtest env st = (Inl e, st') \<Longrightarrow> \<not> misfit e"
  by (auto simp: speedtest_def Let_def split: prod.splits sum.splits dest: measure_speed_fits)

lemma servers_fits: "servers env c n a st = (Inl e, st') \<Longrightarrow> \<not> misfit e"
  by (auto simp: servers_def Let_def split: prod.splits sum.splits dest: server_list_fits)

lemma killswitch_op_fits: "killswitch_op env b st = (Inl e, st') \<Longrightarrow> \<not> misfit e"
  unfolding killswitch_op_def killswitch_toggle_def set_killswitch_def Let_def
  by (auto split: option.splits bool.splits prod.splits sum.splits)

lemma baseline_fits:
  assumes "baseline env st = (Inl e, st')" and "linked st"
  shows "\<not> misfit e"
proof (cases "ds_current st")
  case None
  then show ?thesis using assms(1) by (auto simp: baseline_def Let_def dest: speedtest_fits)
next
  case (Some c)
  define s where "s = throughput_settings st"
  obtain r1 st1 where 1: "measure_speed env s st = (r1, st1)" by fastforce
  then obtain w where st1: "st1 = st\<lparr>ds_world := w\<rparr>" using measure_speed_frame by blast
  show ?thesis
  proof (cases r1)
    case (Inl x)
    then show ?thesis
      using assms(1) Some 1 by (auto simp: baseline_def Let_def s_def dest: measure_speed_fits)
  next
    case (Inr tn)
    define st1' where "st1' = record_throughput env (cn_server c) (sm_mbps tn) st1"
    have tun: "ds_tunnel st1' \<noteq> None"
      using Some assms(2) by (simp add: st1 st1'_def record_throughput_def linked_def)
    obtain r2 st2 where 2: "disconnect env st1' = (r2, st2)" by fastforce
    obtain r3 st3 where 3: "measure_speed env s st2 = (r3, st3)" by fastforce
    obtain r4 st4 where 4: "connect env (Some (cn_server c)) (Some False) st3 = (r4, st4)" by fastforce
    have "ds_current st2 = None"
      using 2 tun by (auto simp: disconnect_def split: option.splits prod.splits)
    then have "ds_current st3 = None" using measure_speed_frame [OF 3] by auto
    then have "r4 = Inl x \<Longrightarrow> \<not> misfit x" for x using connect_fits 4 by blast
    moreover have "r2 = Inl x \<Longrightarrow> \<not> misfit x" for x using disconnect_fits 2 tun by blast
    moreover have "r3 = Inl x \<Longrightarrow> \<not> misfit x" for x using measure_speed_fits 3 by blast
    ultimately show ?thesis
      using assms(1) Some 1 Inr 2 3 4
      by (auto simp: baseline_def Let_def s_def st1'_def split: sum.splits)
  qed
qed

section \<open>Refusals by the state\<close>

text \<open>The refusal a request meets in a state, if the state does not fit it.\<close>

fun refusal :: "request \<Rightarrow> ('t, 'w) dstate \<Rightarrow> daemon_error option" where
  "refusal (ReqConnect _ _) st = map_option (\<lambda>c. AlreadyConnected (cn_server c)) (ds_current st)"
| "refusal (ReqSwitch _) st = (if ds_current st = None then Some NotConnected else None)"
| "refusal ReqDisconnect st = (if ds_current st = None then Some NotConnected else None)"
| "refusal ReqApprove st =
     (if ds_pending st = None then Some NoPendingSwitch
      else if ds_current st = None then Some NotConnected else None)"
| "refusal ReqDismiss st = (if ds_pending st = None then Some NoPendingSwitch else None)"
| "refusal _ st = None"

lemma refusal_given:
  assumes "refusal rq st = Some e" and "linked st"
  shows "fst (handle env rq st) = RespError e"
  using assms
  by (cases rq) (auto simp: reply_def connect_def switch_def disconnect_def approve_def dismiss_def
      linked_def split: if_splits option.splits)

lemma refusal_only:
  assumes "fst (handle env rq st) = RespError e" and "misfit e" and "linked st"
  shows "refusal rq st = Some e"
proof (cases rq)
  case (ReqConnect s m)
  then have c: "fst (connect env s m st) = Inl e" using assms(1) by (auto dest: reply_error)
  show ?thesis
  proof (cases "ds_current st")
    case None
    then show ?thesis using connect_fits [of env s m st e] c assms(2) by (metis prod.collapse)
  next
    case (Some x)
    then show ?thesis using c ReqConnect by (simp add: connect_def)
  qed
next
  case (ReqSwitch s)
  then have "fst (switch env s st) = Inl e" using assms(1) by (auto dest: reply_error)
  then have c: "switch env s st = (Inl e, snd (switch env s st))" by (simp add: prod_eq_iff)
  then have n: "ds_current st = None" using switch_fits [OF c assms(3)] assms(2) by blast
  then show ?thesis using c ReqSwitch by (simp add: switch_def)
next
  case ReqDisconnect
  then have "fst (disconnect env st) = Inl e" using assms(1) by (auto dest: reply_error)
  then have c: "disconnect env st = (Inl e, snd (disconnect env st))" by (simp add: prod_eq_iff)
  then have n: "ds_tunnel st = None" using disconnect_fits [OF c] assms(2) by blast
  then show ?thesis using c ReqDisconnect assms(3) by (simp add: disconnect_def linked_def)
next
  case ReqApprove
  then have "fst (approve env st) = Inl e" using assms(1) by (auto dest: reply_error)
  then have c: "approve env st = (Inl e, snd (approve env st))" by (simp add: prod_eq_iff)
  show ?thesis
  proof (cases "ds_pending st = None")
    case True
    then show ?thesis using c ReqApprove by (simp add: approve_def)
  next
    case False
    then show ?thesis using approve_fits [OF c assms(3) False assms(2)] ReqApprove by simp
  qed
next
  case ReqDismiss
  then show ?thesis
    using assms(1) by (auto simp: dismiss_def reply_def split: option.splits)
next
  case (ReqBaseline b)
  then have "fst (baseline env st) = Inl e" using assms(1,2) by (auto dest: reply_error split: if_splits)
  then show ?thesis using baseline_fits [of env st e] assms(2,3) by (metis prod.collapse)
qed (use assms in \<open>auto dest!: reply_error split: prod.splits,
  (metis prod.collapse sweep_fits servers_fits reload_fits autotune_fits speedtest_fits killswitch_op_fits)+\<close>)

text \<open>C10: in every reachable state a request is refused as not fitting the
state exactly when it does not: connecting when there is a connection (naming its server),
switching and disconnecting when there is none, approving and dismissing when nothing is
pending. No other failure, of the network, the tunnel or the settings, is ever reported as
one of these.\<close>

theorem refusals_match_the_state:
  assumes "daemon_reach env path st" and "misfit e"
  shows "fst (handle env rq st) = RespError e \<longleftrightarrow> refusal rq st = Some e"
  using refusal_given refusal_only assms(2) linked_inv.reachable [OF assms(1)] by blast

theorem refusals_match_the_state_witness:
  "fst (handle sample_env ReqApprove sample_start) = RespError NoPendingSwitch"
  using refusals_match_the_state [OF daemon_reach.start [OF sample_load], of NoPendingSwitch ReqApprove]
  by (simp add: sample_start_def del: handle.simps)

end
