(* ===== verification/Tray_Linux.thy ===== *)
theory Tray_Linux
  imports Wire Format Daemon_Replies
begin

text \<open>
  \<^verbatim>\<open>vpnmgr-tray/src/linux.rs\<close>: the tray on Linux. What it draws is data: the state it keeps,
  the menu as a list of items with the actions they raise, and the worker that turns actions
  into requests and refreshes. The StatusNotifierItem library, processes and the lock file
  are outside; a channel is the list of actions waiting in it.
\<close>

section \<open>State\<close>

datatype action =
    AConnect "string option" "bool option"
  | ADisconnect
  | AAutotune
  | AEditConfig string
  | AApprove
  | ADismiss
  | AQuit

record tray =
  ty_status :: "status_report option"
  ty_ranking :: "ranked_server list"
  ty_servers :: "server_summary list"
  ty_error :: "string option"
  ty_unreachable :: "string option"
  ty_busy :: "string option"

definition tray_new :: tray where
  "tray_new = \<lparr>ty_status = None, ty_ranking = [], ty_servers = [], ty_error = None,
     ty_unreachable = None, ty_busy = None\<rparr>"

definition QUICK_CONNECT_LIMIT :: nat where "QUICK_CONNECT_LIMIT = 12"

definition POLL_INTERVAL :: duration where "POLL_INTERVAL = from_secs 10"

definition connected :: "tray \<Rightarrow> bool" where
  "connected t \<longleftrightarrow> (case ty_status t of None \<Rightarrow> False | Some s \<Rightarrow> st_connected s)"

definition needs_attention :: "tray \<Rightarrow> bool" where
  "needs_attention t \<longleftrightarrow>
     (case ty_status t of
        None \<Rightarrow> False
      | Some s \<Rightarrow> st_pending_switch s \<noteq> None \<or> st_connected s \<and> \<not> st_healthy s)"

section \<open>Labels\<close>

definition emdash :: string where "emdash = [CHR 0xE2, CHR 0x80, CHR 0x94]"
definition middot :: string where "middot = [CHR 0xC2, CHR 0xB7]"

definition seen_speed :: "ranked_server \<Rightarrow> string" where
  "seen_speed s =
     (case (rk_mbps s, rk_mbps_age_secs s) of
        (Some mbps, Some age) \<Rightarrow> '', '' @ fmt_prec 0 mbps @ '' Mbps '' @ measured_ago age
      | _ \<Rightarrow> [])"

definition ranked_entry :: "ranked_server \<Rightarrow> string \<times> string" where
  "ranked_entry s =
     (rk_name s,
      rk_name s @ '' '' @ emdash @ '' '' @ truncate_text (rk_location s) 22 @ '' ('' @
      fmt_prec 0 (rk_rtt_ms s) @ ''ms'' @ seen_speed s @ '', '' @ show_nat (unat (rk_load s)) @
      ''% load, '' @ rate (f64_of_nat (unat (rk_headroom_mbps s))) @ '' free)'')"

definition loaded_entry :: "server_summary \<Rightarrow> string \<times> string" where
  "loaded_entry s =
     (ss_name s,
      ss_name s @ '' '' @ emdash @ '' '' @ truncate_text (ss_location s) 24 @ '' ('' @
      show_nat (unat (ss_load s)) @ ''% load, '' @
      rate (f64_of_nat (unat (ss_headroom_mbps s))) @ '' free)'')"

definition quick_connect_entries :: "tray \<Rightarrow> (string \<times> string) list" where
  "quick_connect_entries t =
     (if ty_ranking t \<noteq> [] then map ranked_entry (take QUICK_CONNECT_LIMIT (ty_ranking t))
      else map loaded_entry (take QUICK_CONNECT_LIMIT (ty_servers t)))"

definition baseline_text :: "status_report \<Rightarrow> string option" where
  "baseline_text s =
     map_option (\<lambda>mbps. ''without VPN: '' @ rate mbps @
        (case st_baseline_age_secs s of
           Some age \<Rightarrow> '' ('' @ measured_ago age @ '')'' | None \<Rightarrow> []))
       (st_baseline_mbps s)"

definition baseline_line :: "tray \<Rightarrow> string option" where
  "baseline_line t = Option.bind (ty_status t) baseline_text"

definition or_unknown :: "string option \<Rightarrow> string" where
  "or_unknown s = (case s of Some x \<Rightarrow> x | None \<Rightarrow> ''?'')"

definition status_headline :: "status_report option \<Rightarrow> string" where
  "status_headline st =
     (case st of
        None \<Rightarrow> ''vpnmgrd is not reachable''
      | Some s \<Rightarrow>
          if \<not> st_connected s then ''Disconnected''
          else or_unknown (st_server s) @ '' '' @ emdash @ '' '' @ or_unknown (st_location s))"

definition headline :: "tray \<Rightarrow> string" where
  "headline t = status_headline (ty_status t)"

definition icon_name :: "tray \<Rightarrow> string" where
  "icon_name t =
     (case ty_status t of
        None \<Rightarrow> ''network-offline''
      | Some s \<Rightarrow>
          if \<not> st_connected s then ''network-offline''
          else if \<not> st_healthy s then ''network-error''
          else ''network-vpn'')"

definition handshake_text :: "status_report \<Rightarrow> string" where
  "handshake_text s =
     (case st_last_handshake_secs s of Some n \<Rightarrow> show_nat n @ ''s ago'' | None \<Rightarrow> ''never'')"

text \<open>The tool tip: icon, title and description.\<close>

definition tool_tip :: "tray \<Rightarrow> string \<times> string \<times> string" where
  "tool_tip t =
     (let description =
            (case ty_status t of
               Some s \<Rightarrow>
                 if st_connected s
                 then (case st_endpoint s of Some e \<Rightarrow> show_sockaddr e | None \<Rightarrow> ''no endpoint'') @ [lf] @
                      ''handshake '' @ handshake_text s @ [lf] @
                      human_bytes (st_tx_bytes s) @ '' up, '' @ human_bytes (st_rx_bytes s) @ '' down''
                 else []
             | None \<Rightarrow> [])
      in (icon_name t, headline t,
          (case baseline_line t of
             Some b \<Rightarrow> description @ (if description \<noteq> [] then [lf] else []) @ b
           | None \<Rightarrow> description)))"

section \<open>The menu\<close>

record entry =
  en_label :: string
  en_icon :: string
  en_enabled :: bool
  en_action :: "action option"

datatype menu_item = Item entry | SubMenu string "entry list" | Separator

definition disabled :: "string \<Rightarrow> menu_item" where
  "disabled label = Item \<lparr>en_label = label, en_icon = [], en_enabled = False, en_action = None\<rparr>"

definition button :: "string \<Rightarrow> string \<Rightarrow> bool \<Rightarrow> action \<Rightarrow> menu_item" where
  "button label icon enabled a =
     Item \<lparr>en_label = label, en_icon = icon, en_enabled = enabled, en_action = Some a\<rparr>"

definition idle :: "tray \<Rightarrow> bool" where
  "idle t \<longleftrightarrow> ty_busy t = None \<and> ty_status t \<noteq> None"

definition info_items :: "tray \<Rightarrow> menu_item list" where
  "info_items t =
     [disabled (headline t)] @
     (case (ty_status t, ty_unreachable t) of
        (None, Some reason) \<Rightarrow>
          map (\<lambda>line. disabled (''  '' @ truncate_text (trim line) 90)) (str_lines reason)
      | _ \<Rightarrow> []) @
     (case ty_status t of
        Some s \<Rightarrow>
          if st_connected s
          then [disabled (''entry '' @ show_nat (case st_entry s of Some n \<Rightarrow> unat n | None \<Rightarrow> 0) @
                  '' '' @ middot @ '' handshake '' @ handshake_text s @ '' '' @ middot @ '' '' @
                  (if st_healthy s then ''healthy'' else ''NO TRAFFIC''))]
          else []
      | None \<Rightarrow> []) @
     (case baseline_line t of Some b \<Rightarrow> [disabled b] | None \<Rightarrow> []) @
     (case ty_busy t of Some b \<Rightarrow> [disabled (b @ ellipsis)] | None \<Rightarrow> []) @
     (case ty_error t of Some e \<Rightarrow> [disabled (''error: '' @ truncate_text e 60)] | None \<Rightarrow> [])"

definition pending_of :: "tray \<Rightarrow> pending_switch option" where
  "pending_of t = Option.bind (ty_status t) st_pending_switch"

definition pending_items :: "tray \<Rightarrow> menu_item list" where
  "pending_items t =
     (case pending_of t of
        None \<Rightarrow> []
      | Some p \<Rightarrow>
          [Separator,
           disabled (''Suggested: '' @ rk_name (pd_to p) @ '' ('' @ fmt_prec 1 (rk_rtt_ms (pd_to p)) @ ''ms)''),
           button (''Switch to '' @ rk_name (pd_to p)) ''go-next'' True AApprove,
           button ''Keep current server'' [] True ADismiss])"

definition control_items :: "tray \<Rightarrow> menu_item list" where
  "control_items t =
     [Separator, button ''Test now'' ''view-refresh'' (ty_status t \<noteq> None \<and> idle t) AAutotune] @
     (case Option.bind (ty_status t) st_config_path of
        Some path \<Rightarrow> [button (''Edit configuration'' @ ellipsis) ''document-edit'' (idle t) (AEditConfig path)]
      | None \<Rightarrow> []) @
     (if connected t
      then [button ''Disconnect'' ''network-offline'' (idle t) ADisconnect]
      else [button ''Connect to best server'' ''network-vpn'' (ty_status t \<noteq> None \<and> idle t)
              (AConnect None (Some False)),
            button ''Measure and connect'' ''speedometer'' (ty_status t \<noteq> None \<and> idle t)
              (AConnect None (Some True))])"

definition pick :: "bool \<Rightarrow> string \<times> string \<Rightarrow> entry" where
  "pick enabled np =
     \<lparr>en_label = snd np, en_icon = [], en_enabled = enabled, en_action = Some (AConnect (Some (fst np)) None)\<rparr>"

definition menu :: "tray \<Rightarrow> menu_item list" where
  "menu t =
     info_items t @ pending_items t @ control_items t @
     (if quick_connect_entries t \<noteq> []
      then [SubMenu (if connected t then ''Switch to'' else ''Connect to'')
              (map (pick (idle t)) (quick_connect_entries t))]
      else []) @
     (case Option.bind (ty_status t) st_last_tune of
        Some tune \<Rightarrow> [Separator, disabled (truncate_text tune 70)] | None \<Rightarrow> []) @
     [Separator, button ''Quit tray'' ''application-exit'' True AQuit]"

text \<open>The actions the user can raise from a menu.\<close>

fun item_entries :: "menu_item \<Rightarrow> entry list" where
  "item_entries (Item e) = [e]"
| "item_entries (SubMenu _ es) = es"
| "item_entries Separator = []"

definition offered :: "menu_item list \<Rightarrow> action list" where
  "offered m =
     concat (map (\<lambda>e. case en_action e of Some a \<Rightarrow> if en_enabled e then [a] else [] | None \<Rightarrow> [])
       (concat (map item_entries m)))"

section \<open>The worker\<close>

text \<open>
  What the tray reaches: the daemon (a request and its reply), the text of a failure to reach
  it, and processes.
\<close>

datatype proc_end = ProcNotRun | ProcExit bool "int option"

record 'w desk =
  dk_ask :: "request \<Rightarrow> 'w \<Rightarrow> (ipc_error + string response) \<times> 'w"
  dk_spawn :: "string \<Rightarrow> string list \<Rightarrow> 'w \<Rightarrow> proc_end \<times> 'w"
  dk_display :: "string option"

text \<open>Opening an editor: 126 is a dismissed prompt and ends the search.\<close>

fun try_editors :: "'w desk \<Rightarrow> string \<Rightarrow> string list \<Rightarrow> 'w \<Rightarrow> 'w" where
  "try_editors dk path [] w = w"
| "try_editors dk path (editor # es) w =
     (case dk_spawn dk ''pkexec''
             [''env'', ''DISPLAY='' @ (case dk_display dk of Some d \<Rightarrow> d | None \<Rightarrow> []), editor, path] w of
        (r, w1) \<Rightarrow>
          (case r of
             ProcExit ok code \<Rightarrow> if ok \<or> code = Some 126 then w1 else try_editors dk path es w1
           | ProcNotRun \<Rightarrow> try_editors dk path es w1))"

definition EDITORS :: "string list" where
  "EDITORS = [''xdg-open'', ''gedit'', ''kate'', ''mousepad'', ''gnome-text-editor'']"

definition edit_config :: "'w desk \<Rightarrow> string \<Rightarrow> 'w \<Rightarrow> 'w" where
  "edit_config dk path w =
     (case dk_spawn dk ''pkexec'' [''--version''] w of
        (ProcNotRun, w1) \<Rightarrow> w1
      | (ProcExit _ _, w1) \<Rightarrow> try_editors dk path EDITORS w1)"

text \<open>The request an action stands for and what the menu shows meanwhile.\<close>

fun request_for :: "bool \<Rightarrow> action \<Rightarrow> (request \<times> string) option" where
  "request_for con (AConnect None m) =
     Some (ReqConnect None m,
       if m = Some True then ''Measuring, then choosing a server'' else ''Finding the best server'')"
| "request_for con (AConnect (Some server) m) =
     Some (if con then (ReqSwitch server, ''Switching'') else (ReqConnect (Some server) m, ''Connecting''))"
| "request_for con ADisconnect = Some (ReqDisconnect, ''Disconnecting'')"
| "request_for con AAutotune = Some (ReqAutotune, ''Testing servers'')"
| "request_for con (AEditConfig path) = Some (ReqReload, ''Reloading'')"
| "request_for con AApprove = Some (ReqApprove, ''Switching'')"
| "request_for con ADismiss = Some (ReqDismiss, ''Dismissing'')"
| "request_for con AQuit = None"

definition unexpected :: string where
  "unexpected = ''vpnmgrd sent an unexpected reply''"

definition ask_status :: "platform \<Rightarrow> 'w desk \<Rightarrow> 'w \<Rightarrow> (status_report option \<times> string option) \<times> 'w" where
  "ask_status p dk w =
     (case dk_ask dk ReqStatus w of
        (r, w1) \<Rightarrow>
          ((case r of
              Inr (RespStatus report) \<Rightarrow> (Some report, None)
            | Inr (RespError message) \<Rightarrow> (None, Some message)
            | Inr _ \<Rightarrow> (None, Some unexpected)
            | Inl e \<Rightarrow> (None, Some (ipc_error_text p e))), w1))"

definition ask_ranking :: "'w desk \<Rightarrow> 'w \<Rightarrow> ranked_server list \<times> 'w" where
  "ask_ranking dk w =
     (case dk_ask dk (ReqLastRanking (Some QUICK_CONNECT_LIMIT)) w of
        (r, w1) \<Rightarrow> ((case r of Inr (RespRanking rs) \<Rightarrow> rs | _ \<Rightarrow> []), w1))"

definition ask_servers :: "'w desk \<Rightarrow> 'w \<Rightarrow> server_summary list option \<times> 'w" where
  "ask_servers dk w =
     (case dk_ask dk (ReqServers None (Some QUICK_CONNECT_LIMIT) False) w of
        (r, w1) \<Rightarrow> ((case r of Inr (RespServers ss) \<Rightarrow> Some ss | _ \<Rightarrow> None), w1))"

definition refresh :: "'w desk \<Rightarrow> tray \<Rightarrow> 'w \<Rightarrow> tray \<times> 'w" where
  "refresh dk t w =
     (case ask_status Unix dk w of
        ((None, why), w1) \<Rightarrow> (t\<lparr>ty_status := None, ty_unreachable := why\<rparr>, w1)
      | ((Some s, why), w1) \<Rightarrow>
     (case ask_ranking dk w1 of
        (ranking, w2) \<Rightarrow>
     (let t1 = t\<lparr>ty_status := Some s, ty_unreachable := why, ty_ranking := ranking\<rparr> in
      if ranking = []
      then (case ask_servers dk w2 of
              (Some ss, w3) \<Rightarrow> (t1\<lparr>ty_servers := ss\<rparr>, w3)
            | (None, w3) \<Rightarrow> (t1, w3))
      else (t1, w2))))"

definition failure_of :: "platform \<Rightarrow> ipc_error + string response \<Rightarrow> string option" where
  "failure_of p r =
     (case r of
        Inl e \<Rightarrow> Some (ipc_error_text p e)
      | Inr (RespError message) \<Rightarrow> Some message
      | Inr _ \<Rightarrow> None)"

text \<open>
  One action: an edit runs its editor first. The menu is drawn from the state between the
  steps too, when a request is in flight; the middle component is that state.
\<close>

definition run_action :: "'w desk \<Rightarrow> action \<Rightarrow> tray \<Rightarrow> 'w \<Rightarrow> (tray \<times> tray \<times> 'w) option" where
  "run_action dk a t w =
     (case request_for (connected t) a of
        None \<Rightarrow> None
      | Some (rq, busy) \<Rightarrow>
          (let w1 = (case a of AEditConfig path \<Rightarrow> edit_config dk path w | _ \<Rightarrow> w);
               t1 = t\<lparr>ty_busy := Some busy, ty_error := None\<rparr>
           in case dk_ask dk rq w1 of
                (r, w2) \<Rightarrow>
                  Some (t1, refresh dk (t1\<lparr>ty_busy := None, ty_error := failure_of Unix r\<rparr>) w2)))"

text \<open>The loop of the worker, on the actions in the order they were raised, up to \<^verbatim>\<open>Quit\<close>.\<close>

fun run_actions :: "'w desk \<Rightarrow> action list \<Rightarrow> tray \<Rightarrow> 'w \<Rightarrow> tray \<times> 'w" where
  "run_actions dk [] t w = (t, w)"
| "run_actions dk (a # as) t w =
     (case run_action dk a t w of
        None \<Rightarrow> (t, w)
      | Some (_, t1, w1) \<Rightarrow> run_actions dk as t1 w1)"

section \<open>One instance\<close>

datatype instance_lock = Only | AlreadyRunning | Unavailable string

text \<open>\<^verbatim>\<open>lock_at\<close>, on the answer of opening the file and of \<^verbatim>\<open>flock\<close>.\<close>

definition lock_at :: "string option \<Rightarrow> int \<Rightarrow> instance_lock" where
  "lock_at open_error rc =
     (case open_error of
        Some e \<Rightarrow> Unavailable e
      | None \<Rightarrow> if rc = 0 then Only else AlreadyRunning)"

definition tray_starts :: "instance_lock \<Rightarrow> bool" where
  "tray_starts i = (case i of Only \<Rightarrow> True | AlreadyRunning \<Rightarrow> False | Unavailable _ \<Rightarrow> True)"

section \<open>What the menu offers\<close>

lemma offered_append [simp]: "offered (xs @ ys) = offered xs @ offered ys"
  by (simp add: offered_def)

lemma offered_simps [simp]:
  "offered [] = []"
  "offered (disabled l # m) = offered m"
  "offered (button l i b a # m) = (if b then [a] else []) @ offered m"
  "offered (Separator # m) = offered m"
  by (simp_all add: offered_def disabled_def button_def)

lemma offered_disabled [simp]: "offered (map (\<lambda>x. disabled (f x)) xs) = []"
  by (induction xs) simp_all

lemma offered_picks [simp]:
  "offered [SubMenu l (map (pick b) es)] = (if b then map (\<lambda>e. AConnect (Some (fst e)) None) es else [])"
  by (induction es) (simp_all add: offered_def pick_def)

lemma offered_info [simp]: "offered (info_items t) = []"
  by (simp add: info_items_def split: option.splits)

lemma offered_pending: "offered (pending_items t) = (if pending_of t \<noteq> None then [AApprove, ADismiss] else [])"
  by (simp add: pending_items_def split: option.splits)

lemma offered_controls:
  "a \<in> set (offered (control_items t)) \<Longrightarrow>
     a = AAutotune \<or> (\<exists>p. a = AEditConfig p) \<or> a = ADisconnect \<and> connected t \<or>
     (\<exists>m. a = AConnect None m) \<and> \<not> connected t"
  by (auto simp: control_items_def split: if_splits option.splits)

lemma offered_menu:
  assumes "a \<in> set (offered (menu t))"
  shows "a = AQuit \<or> a = AAutotune \<or> (\<exists>p. a = AEditConfig p) \<or> a = ADisconnect \<and> connected t \<or>
    (\<exists>m. a = AConnect None m) \<and> \<not> connected t \<or> (\<exists>n. a = AConnect (Some n) None) \<or>
    (a = AApprove \<or> a = ADismiss) \<and> pending_of t \<noteq> None"
  using assms offered_controls [of a t]
  by (auto simp: menu_def offered_pending split: if_splits option.splits)

section \<open>The tray over the daemon\<close>

text \<open>
  The desk whose requests are answered by the daemon; that a client gets these answers is the
  client's property (\<^verbatim>\<open>Wire\<close>).
\<close>

definition daemon_ask :: "codec \<Rightarrow> ('t, 'w) env \<Rightarrow> request \<Rightarrow> ('t, 'w) dstate
    \<Rightarrow> (ipc_error + string response) \<times> ('t, 'w) dstate" where
  "daemon_ask cd env rq st = (case handle env rq st of (r, st1) \<Rightarrow> (Inr (wire_response cd r), st1))"

definition daemon_desk :: "codec \<Rightarrow> ('t, 'w) env \<Rightarrow> ('t, 'w) dstate desk \<Rightarrow> ('t, 'w) dstate desk" where
  "daemon_desk cd env dk = dk\<lparr>dk_ask := daemon_ask cd env\<rparr>"

lemma daemon_desk_ask [simp]: "dk_ask (daemon_desk cd env dk) = daemon_ask cd env"
  by (simp add: daemon_desk_def)

lemma ask_status_daemon:
  "ask_status p (daemon_desk cd env dk) st = ((Some (fst (status env st)), None), snd (status env st))"
  by (simp add: ask_status_def daemon_ask_def wire_response_def split: prod.split)

lemma ask_ranking_daemon:
  "ask_ranking (daemon_desk cd env dk) st = (last_ranking env (Some QUICK_CONNECT_LIMIT) st, st)"
  by (simp add: ask_ranking_def daemon_ask_def wire_response_def)

lemma ask_servers_daemon:
  "ask_servers (daemon_desk cd env dk) st =
     (case servers env None (Some QUICK_CONNECT_LIMIT) False st of
        (Inl _, st1) \<Rightarrow> (None, st1)
      | (Inr ss, st1) \<Rightarrow> (Some ss, st1))"
  by (simp add: ask_servers_def daemon_ask_def wire_response_def reply_def split: prod.split sum.split)

lemma refresh_daemon:
  assumes "refresh (daemon_desk cd env dk) t st = (t1, st1)"
  shows "ty_status t1 = Some (fst (status env st))" and "ty_unreachable t1 = None"
    and "ty_ranking t1 = last_ranking env (Some QUICK_CONNECT_LIMIT) (snd (status env st))"
    and "same_conn st st1"
proof -
  obtain s st0 where s: "status env st = (s, st0)" by fastforce
  obtain r st2 where r: "servers env None (Some QUICK_CONNECT_LIMIT) False st0 = (r, st2)" by fastforce
  note run = assms [unfolded refresh_def ask_status_daemon ask_ranking_daemon ask_servers_daemon s, simplified, unfolded r]
  show "ty_status t1 = Some (fst (status env st))" "ty_unreachable t1 = None"
      "ty_ranking t1 = last_ranking env (Some QUICK_CONNECT_LIMIT) (snd (status env st))"
    using run s by (auto simp: Let_def split: if_splits sum.splits)
  have "st1 = st0 \<or> st1 = st2"
    using run by (auto simp: Let_def split: if_splits sum.splits)
  then show "same_conn st st1"
    using status_frame [OF s] servers_frame [OF r] same_conn_trans by blast
qed

text \<open>What the reported status says of the connection and of the proposal.\<close>

lemma status_connected: "st_connected (fst (status env st)) \<longleftrightarrow> ds_current st \<noteq> None"
  by (simp add: status_def status_base_def Let_def split: option.split prod.split)

lemma status_pending: "st_pending_switch (fst (status env st)) \<noteq> None \<longleftrightarrow> ds_pending st \<noteq> None"
  by (simp add: status_def status_base_def pending_switch_of_def Let_def split: option.split prod.split)

lemma status_ranking: "status env st = (r, st') \<Longrightarrow> ds_last_ranking st' = ds_last_ranking st"
  by (auto simp: status_def Let_def split: option.splits prod.splits sum.splits)

lemma last_ranking_names:
  "map rk_name (last_ranking env (Some n) st) = map rk_name (take n (ds_last_ranking st))"
proof -
  have "rk_name (case ds_throughput_seen st (rk_name r) of None \<Rightarrow> r
      | Some (mbps, t) \<Rightarrow> set_mbps mbps (age_secs env st t) r) = rk_name r" for r
    by (simp add: set_mbps_def split: option.split prod.split)
  then show ?thesis
    by (simp add: last_ranking_def Daemon_State.truncate_def take_map [symmetric] comp_def)
qed

section \<open>Properties\<close>

lemma refresh_linked:
  assumes "daemon_reach env path st" and "refresh (daemon_desk cd env dk) t st = (t1, st1)"
  shows "linked st1" and "connected t1 \<longleftrightarrow> ds_current st1 \<noteq> None"
    and "pending_of t1 \<noteq> None \<longleftrightarrow> ds_pending st1 \<noteq> None"
proof -
  note r = refresh_daemon [OF assms(2)]
  show "linked st1"
    using linked_inv.reachable [OF assms(1)] linked_same_conn [OF r(4)] by simp
  show "connected t1 \<longleftrightarrow> ds_current st1 \<noteq> None"
    using r(1,4) by (simp add: connected_def status_connected same_conn_def)
  show "pending_of t1 \<noteq> None \<longleftrightarrow> ds_pending st1 \<noteq> None"
    using r(1,4) status_pending [of env st] by (simp add: pending_of_def same_conn_def)
qed

text \<open>C37: whatever the menu drawn from a fresh reading of the daemon lets
the user choose, the daemon does not refuse the request as not fitting its state: never
\<open>already connected\<close>, never \<open>nothing pending\<close>, and \<open>not connected\<close> only for approving a proposal
that has outlived its connection.\<close>

theorem linux_tray_offers_what_works:
  assumes "daemon_reach env path st" and "refresh (daemon_desk cd env dk) t st = (t1, st1)"
    and "a \<in> set (offered (menu t1))" and "request_for (connected t1) a = Some (rq, busy)"
  shows "\<forall>e. misfit e \<and> fst (handle env rq st1) = RespError e \<longrightarrow>
    a = AApprove \<and> e = NotConnected \<and> \<not> connected t1"
proof (intro allI impI, elim conjE)
  fix e
  assume "misfit e" and "fst (handle env rq st1) = RespError e"
  then have r: "refusal rq st1 = Some e"
    using refusal_only refresh_linked(1) [OF assms(1,2)] by blast
  show "a = AApprove \<and> e = NotConnected \<and> \<not> connected t1"
    using offered_menu [OF assms(3)] assms(4) r refresh_linked(2,3) [OF assms(1,2)]
    by (auto split: if_splits)
qed

text \<open>A refresh shows the daemon as it is: its status report, whether
it is connected, and as choices the servers of its last sweep in their order, at most twelve;
before a sweep, the list it serves. Reading it changes neither the connection nor the
proposal.\<close>

lemma linux_tray_shows_the_daemon:
  assumes "refresh (daemon_desk cd env dk) t st = (t1, st1)"
  shows "ty_status t1 = Some (fst (status env st)) \<and> ty_unreachable t1 = None \<and>
    (connected t1 \<longleftrightarrow> is_connected st) \<and> (ty_busy t1, ty_error t1) = (ty_busy t, ty_error t) \<and>
    length (quick_connect_entries t1) \<le> QUICK_CONNECT_LIMIT \<and>
    (ds_last_ranking st \<noteq> [] \<longrightarrow>
       map fst (quick_connect_entries t1) = map rk_name (take QUICK_CONNECT_LIMIT (ds_last_ranking st))) \<and>
    same_conn st st1"
proof -
  note r = refresh_daemon [OF assms]
  obtain s st0 where s: "status env st = (s, st0)" by fastforce
  have rank: "map rk_name (ty_ranking t1) = map rk_name (take QUICK_CONNECT_LIMIT (ds_last_ranking st))"
    using r(3) status_ranking [OF s] by (simp add: last_ranking_names s)
  have keep: "(ty_busy t1, ty_error t1) = (ty_busy t, ty_error t)"
    using assms by (auto simp: refresh_def Let_def split: prod.splits option.splits if_splits)
  have con: "connected t1 \<longleftrightarrow> is_connected st"
    using r(1) by (simp add: connected_def status_connected is_connected_def)
  have len: "length (quick_connect_entries t1) \<le> QUICK_CONNECT_LIMIT"
    by (simp add: quick_connect_entries_def)
  have names: "map fst (quick_connect_entries t1) = map rk_name (take QUICK_CONNECT_LIMIT (ty_ranking t1))"
    if "ty_ranking t1 \<noteq> []"
    using that by (simp add: quick_connect_entries_def ranked_entry_def comp_def)
  have "map fst (quick_connect_entries t1) = map rk_name (take QUICK_CONNECT_LIMIT (ds_last_ranking st))"
    if "ds_last_ranking st \<noteq> []"
  proof -
    have "ty_ranking t1 \<noteq> []" using rank that by (auto simp: QUICK_CONNECT_LIMIT_def)
    then show ?thesis using names rank by (simp add: take_map [symmetric])
  qed
  then show ?thesis using r(1,2,4) keep con len by simp
qed

text \<open>Witnesses: a tray that has just started, over the sample daemon.\<close>

definition sample_desk :: "'w desk" where
  "sample_desk = \<lparr>dk_ask = \<lambda>rq w. (Inl IpcClosed, w), dk_spawn = \<lambda>p as w. (ProcNotRun, w), dk_display = None\<rparr>"

lemma sample_refresh:
  obtains t1 st1 where "refresh (daemon_desk cd env sample_desk) tray_new st = (t1, st1)"
    and "AAutotune \<in> set (offered (menu t1))"
proof -
  obtain t1 st1 where r: "refresh (daemon_desk cd env sample_desk) tray_new st = (t1, st1)" by fastforce
  have "ty_busy t1 = None"
    using r by (auto simp: refresh_def tray_new_def Let_def split: prod.splits option.splits if_splits)
  then have "AAutotune \<in> set (offered (menu t1))"
    using refresh_daemon(1) [OF r] by (simp add: menu_def control_items_def idle_def split: option.split)
  then show ?thesis using that r by blast
qed

theorem linux_tray_offers_what_works_witness:
  "\<exists>t1 st1. refresh (daemon_desk sample_codec sample_env sample_desk) tray_new sample_start = (t1, st1) \<and>
     fst (handle sample_env ReqAutotune st1) \<noteq> RespError NotConnected"
proof -
  obtain t1 st1 where r: "refresh (daemon_desk sample_codec sample_env sample_desk) tray_new sample_start = (t1, st1)"
      "AAutotune \<in> set (offered (menu t1))"
    by (rule sample_refresh)
  then show ?thesis
    using linux_tray_offers_what_works [OF sample_reach r, of ReqAutotune "''Testing servers''"]
    by (simp del: handle.simps)
qed

end
