(* ===== verification/Tray_Race.thy ===== *)
theory Tray_Race
  imports Tray_Linux
begin

text \<open>
  The tasks of the Linux tray side by side (\<^verbatim>\<open>main\<close>, \<^verbatim>\<open>run_actions\<close>, \<^verbatim>\<open>refresh\<close> in
  \<^verbatim>\<open>vpnmgr-tray/src/linux.rs\<close>): the worker that performs actions, the poller that refreshes
  every ten seconds, the user's clicks, and everybody else who uses the daemon. A step is what
  happens between two awaits; the functions of \<open>Tray_Linux\<close> are the runs in which nothing
  comes in between.
\<close>

section \<open>A refresh, request by request\<close>

text \<open>What a refresh writes to the tray in one go: status, reason, ranking, servers.\<close>

record news =
  nw_status :: "status_report option"
  nw_unreachable :: "string option"
  nw_ranking :: "ranked_server list option"
  nw_servers :: "server_summary list option"

definition apply_news :: "news \<Rightarrow> tray \<Rightarrow> tray" where
  "apply_news n t =
     (let t1 = t\<lparr>ty_status := nw_status n, ty_unreachable := nw_unreachable n\<rparr>;
          t2 = (case nw_ranking n of Some r \<Rightarrow> t1\<lparr>ty_ranking := r\<rparr> | None \<Rightarrow> t1)
      in case nw_servers n of Some ss \<Rightarrow> t2\<lparr>ty_servers := ss\<rparr> | None \<Rightarrow> t2)"

datatype pull =
    PullStatus
  | PullRanking status_report "string option"
  | PullServers status_report "string option"
  | Pulled news

fun pull_step :: "'w desk \<Rightarrow> pull \<Rightarrow> 'w \<Rightarrow> pull \<times> 'w" where
  "pull_step dk PullStatus w =
     (case ask_status Unix dk w of
        ((None, why), w1) \<Rightarrow>
          (Pulled \<lparr>nw_status = None, nw_unreachable = why, nw_ranking = None, nw_servers = None\<rparr>, w1)
      | ((Some s, why), w1) \<Rightarrow> (PullRanking s why, w1))"
| "pull_step dk (PullRanking s why) w =
     (case ask_ranking dk w of
        (r, w1) \<Rightarrow>
          (if r = [] then (PullServers s why, w1)
           else (Pulled \<lparr>nw_status = Some s, nw_unreachable = why, nw_ranking = Some r, nw_servers = None\<rparr>, w1)))"
| "pull_step dk (PullServers s why) w =
     (case ask_servers dk w of
        (ss, w1) \<Rightarrow>
          (Pulled \<lparr>nw_status = Some s, nw_unreachable = why, nw_ranking = Some [], nw_servers = ss\<rparr>, w1))"
| "pull_step dk (Pulled n) w = (Pulled n, w)"

section \<open>The tasks\<close>

text \<open>
  The worker: waiting for an action; with the request chosen and an editor to run first,
  perhaps; with the request under way, or answered; or refreshing afterwards. It is gone after
  \<^verbatim>\<open>Quit\<close>.
\<close>

datatype worker =
    Waiting
  | Chosen action request string
  | Asking request string
  | Answered "string option" string
  | Refreshing pull
  | Gone

record 'w tray_run =
  tr_tray :: tray
  tr_queue :: "action list"
  tr_worker :: worker
  tr_poller :: "pull option"
  tr_world :: 'w
  tr_clicks :: "action list" \<comment> \<open>all actions raised so far\<close>
  tr_sent :: "request list" \<comment> \<open>the requests the worker has had answered\<close>

definition run_editor :: "'w desk \<Rightarrow> action \<Rightarrow> 'w \<Rightarrow> 'w" where
  "run_editor dk a w = (case a of AEditConfig path \<Rightarrow> edit_config dk path w | _ \<Rightarrow> w)"

definition start_run :: "'w desk \<Rightarrow> 'w \<Rightarrow> 'w tray_run" where
  "start_run dk w =
     (case refresh dk tray_new w of
        (t, w1) \<Rightarrow> \<lparr>tr_tray = t, tr_queue = [], tr_worker = Waiting, tr_poller = None, tr_world = w1,
                   tr_clicks = [], tr_sent = []\<rparr>)"

inductive tray_step :: "'w desk \<Rightarrow> ('w \<Rightarrow> 'w \<Rightarrow> bool) \<Rightarrow> 'w tray_run \<Rightarrow> 'w tray_run \<Rightarrow> bool"
  for dk others where
  click: "tr_worker s \<noteq> Gone \<Longrightarrow>
    tray_step dk others s (s\<lparr>tr_queue := tr_queue s @ [a], tr_clicks := tr_clicks s @ [a]\<rparr>)"
| take: "tr_worker s = Waiting \<Longrightarrow> tr_queue s = a # q \<Longrightarrow>
    request_for (connected (tr_tray s)) a = Some (rq, busy) \<Longrightarrow>
    tray_step dk others s (s\<lparr>tr_queue := q, tr_worker := Chosen a rq busy\<rparr>)"
| quit: "tr_worker s = Waiting \<Longrightarrow> tr_queue s = AQuit # q \<Longrightarrow>
    tray_step dk others s (s\<lparr>tr_queue := q, tr_worker := Gone\<rparr>)"
| mark: "tr_worker s = Chosen a rq busy \<Longrightarrow>
    tray_step dk others s
      (s\<lparr>tr_world := run_editor dk a (tr_world s), tr_worker := Asking rq busy,
         tr_tray := (tr_tray s)\<lparr>ty_busy := Some busy, ty_error := None\<rparr>\<rparr>)"
| answer: "tr_worker s = Asking rq busy \<Longrightarrow> dk_ask dk rq (tr_world s) = (r, w) \<Longrightarrow>
    tray_step dk others s
      (s\<lparr>tr_world := w, tr_worker := Answered (failure_of Unix r) busy, tr_sent := tr_sent s @ [rq]\<rparr>)"
| report: "tr_worker s = Answered err busy \<Longrightarrow>
    tray_step dk others s
      (s\<lparr>tr_worker := Refreshing PullStatus, tr_tray := (tr_tray s)\<lparr>ty_busy := None, ty_error := err\<rparr>\<rparr>)"
| worker_pull: "tr_worker s = Refreshing p \<Longrightarrow> (\<forall>n. p \<noteq> Pulled n) \<Longrightarrow> pull_step dk p (tr_world s) = (p', w) \<Longrightarrow>
    tray_step dk others s (s\<lparr>tr_worker := Refreshing p', tr_world := w\<rparr>)"
| worker_news: "tr_worker s = Refreshing (Pulled n) \<Longrightarrow>
    tray_step dk others s (s\<lparr>tr_worker := Waiting, tr_tray := apply_news n (tr_tray s)\<rparr>)"
| poll: "tr_poller s = None \<Longrightarrow> tray_step dk others s (s\<lparr>tr_poller := Some PullStatus\<rparr>)"
| poller_pull: "tr_poller s = Some p \<Longrightarrow> (\<forall>n. p \<noteq> Pulled n) \<Longrightarrow> pull_step dk p (tr_world s) = (p', w) \<Longrightarrow>
    tray_step dk others s (s\<lparr>tr_poller := Some p', tr_world := w\<rparr>)"
| poller_news: "tr_poller s = Some (Pulled n) \<Longrightarrow>
    tray_step dk others s (s\<lparr>tr_poller := None, tr_tray := apply_news n (tr_tray s)\<rparr>)"
| other: "others (tr_world s) w \<Longrightarrow> tray_step dk others s (s\<lparr>tr_world := w\<rparr>)"

inductive tray_reach :: "'w desk \<Rightarrow> ('w \<Rightarrow> 'w \<Rightarrow> bool) \<Rightarrow> 'w tray_run \<Rightarrow> bool"
  for dk others where
  begin_run: "tray_reach dk others (start_run dk w)"
| next_step: "tray_reach dk others s \<Longrightarrow> tray_step dk others s s' \<Longrightarrow> tray_reach dk others s'"

section \<open>Alone, the tasks are the functions\<close>

definition pull_all :: "'w desk \<Rightarrow> 'w \<Rightarrow> pull \<times> 'w" where
  "pull_all dk w =
     (case pull_step dk PullStatus w of (p1, w1) \<Rightarrow>
      case pull_step dk p1 w1 of (p2, w2) \<Rightarrow> pull_step dk p2 w2)"

lemma refresh_is_pull:
  "\<exists>n. pull_all dk w = (Pulled n, snd (refresh dk t w)) \<and> fst (refresh dk t w) = apply_news n t"
  by (simp add: pull_all_def refresh_def apply_news_def Let_def split: prod.split option.split)

text \<open>Steps in a row.\<close>

lemma pull_worker:
  assumes "tr_worker s = Refreshing p" and "tr_poller s = po"
    and "pull_step dk p (tr_world s) = (p', w')"
  shows "(tray_step dk others)\<^sup>*\<^sup>* s (s\<lparr>tr_worker := Refreshing p', tr_world := w'\<rparr>)"
proof (cases "\<exists>n. p = Pulled n")
  case True
  then have "s\<lparr>tr_worker := Refreshing p', tr_world := w'\<rparr> = s" using assms by auto
  then show ?thesis by simp
next
  case False
  then show ?thesis using assms tray_step.worker_pull [of s p dk p' w' others] by blast
qed

lemma refresh_worker:
  assumes "tr_worker s = Refreshing PullStatus" and "refresh dk (tr_tray s) (tr_world s) = (t', w')"
  shows "(tray_step dk others)\<^sup>*\<^sup>* s (s\<lparr>tr_worker := Waiting, tr_tray := t', tr_world := w'\<rparr>)"
proof -
  obtain p1 w1 where 1: "pull_step dk PullStatus (tr_world s) = (p1, w1)" by fastforce
  obtain p2 w2 where 2: "pull_step dk p1 w1 = (p2, w2)" by fastforce
  obtain n where n: "pull_step dk p2 w2 = (Pulled n, w')" "t' = apply_news n (tr_tray s)"
    using refresh_is_pull [of dk "tr_world s" "tr_tray s"] 1 2 assms(2) by (auto simp: pull_all_def)
  let ?s1 = "s\<lparr>tr_worker := Refreshing p1, tr_world := w1\<rparr>"
  let ?s2 = "s\<lparr>tr_worker := Refreshing p2, tr_world := w2\<rparr>"
  let ?s3 = "s\<lparr>tr_worker := Refreshing (Pulled n), tr_world := w'\<rparr>"
  have a: "(tray_step dk others)\<^sup>*\<^sup>* s ?s1" using pull_worker [OF assms(1) refl 1] by simp
  have b: "(tray_step dk others)\<^sup>*\<^sup>* ?s1 ?s2" using pull_worker [of ?s1 p1 _ dk p2 w2] 2 by simp
  have c: "(tray_step dk others)\<^sup>*\<^sup>* ?s2 ?s3" using pull_worker [of ?s2 p2 _ dk "Pulled n" w'] n(1) by simp
  have d: "tray_step dk others ?s3 (s\<lparr>tr_worker := Waiting, tr_tray := t', tr_world := w'\<rparr>)"
    using tray_step.worker_news [of ?s3 n dk others] n(2) by (cases s) simp
  show ?thesis using a b c d by (meson rtranclp.rtrancl_into_rtrancl rtranclp_trans)
qed

text \<open>An action performed with nothing in between is \<open>run_action\<close>.\<close>

lemma action_alone:
  assumes "tr_worker s = Waiting" and "tr_queue s = a # q"
    and "run_action dk a (tr_tray s) (tr_world s) = Some (t1, t2, w2)"
  shows "\<exists>rq. (tray_step dk others)\<^sup>*\<^sup>* s
    (s\<lparr>tr_queue := q, tr_tray := t2, tr_world := w2, tr_sent := tr_sent s @ [rq]\<rparr>)"
proof -
  obtain rq busy where rq: "request_for (connected (tr_tray s)) a = Some (rq, busy)"
    using assms(3) by (auto simp: run_action_def split: option.splits)
  let ?w1 = "run_editor dk a (tr_world s)"
  let ?t1 = "(tr_tray s)\<lparr>ty_busy := Some busy, ty_error := None\<rparr>"
  obtain r w where r: "dk_ask dk rq ?w1 = (r, w)" by fastforce
  let ?t = "?t1\<lparr>ty_busy := None, ty_error := failure_of Unix r\<rparr>"
  have fin: "refresh dk ?t w = (t2, w2)"
    using assms(3) rq r by (auto simp: run_action_def run_editor_def Let_def)
  let ?s1 = "s\<lparr>tr_queue := q, tr_worker := Chosen a rq busy\<rparr>"
  let ?s2 = "?s1\<lparr>tr_world := ?w1, tr_worker := Asking rq busy, tr_tray := ?t1\<rparr>"
  let ?s3 = "?s2\<lparr>tr_world := w, tr_worker := Answered (failure_of Unix r) busy, tr_sent := tr_sent s @ [rq]\<rparr>"
  let ?s4 = "?s3\<lparr>tr_worker := Refreshing PullStatus, tr_tray := ?t\<rparr>"
  have 1: "tray_step dk others s ?s1" by (rule tray_step.take [OF assms(1,2) rq])
  have 2: "tray_step dk others ?s1 ?s2" using tray_step.mark [of ?s1 a rq busy dk others] by simp
  have 3: "tray_step dk others ?s2 ?s3" using tray_step.answer [of ?s2 rq busy dk r w others] r by simp
  have 4: "tray_step dk others ?s3 ?s4" using tray_step.report [of ?s3 _ busy dk others] by simp
  have 5: "(tray_step dk others)\<^sup>*\<^sup>* ?s4
      (s\<lparr>tr_queue := q, tr_tray := t2, tr_world := w2, tr_sent := tr_sent s @ [rq]\<rparr>)"
    using refresh_worker [of ?s4 dk t2 w2 others] fin assms(1) by (cases s) simp
  show ?thesis using 1 2 3 4 5 by (meson converse_rtranclp_into_rtranclp)
qed

section \<open>What always holds\<close>

text \<open>The request a worker has chosen and not yet had answered.\<close>

fun in_hand :: "worker \<Rightarrow> request list" where
  "in_hand (Chosen a rq busy) = [rq]"
| "in_hand (Asking rq busy) = [rq]"
| "in_hand _ = []"

fun shown_busy :: "worker \<Rightarrow> string option" where
  "shown_busy (Asking rq busy) = Some busy"
| "shown_busy (Answered err busy) = Some busy"
| "shown_busy _ = None"

definition fits :: "action \<Rightarrow> request \<Rightarrow> bool" where
  "fits a rq \<longleftrightarrow> (\<exists>con busy. request_for con a = Some (rq, busy))"

definition in_order :: "'w tray_run \<Rightarrow> bool" where
  "in_order s \<longleftrightarrow>
     (\<exists>taken. list_all2 fits taken (tr_sent s @ in_hand (tr_worker s)) \<and>
        tr_clicks s = taken @ (if tr_worker s = Gone then [AQuit] else []) @ tr_queue s)"

lemma apply_news_busy [simp]: "ty_busy (apply_news n t) = ty_busy t"
  by (simp add: apply_news_def Let_def split: option.split)

lemma refresh_busy: "refresh dk t w = (t1, w1) \<Longrightarrow> ty_busy t1 = ty_busy t"
  using refresh_is_pull [of dk w t] by auto

lemma step_busy:
  assumes "tray_step dk others s s'" and "ty_busy (tr_tray s) = shown_busy (tr_worker s)"
  shows "ty_busy (tr_tray s') = shown_busy (tr_worker s')"
  using assms by (cases rule: tray_step.cases) auto

lemma step_in_order:
  assumes "tray_step dk others s s'" and "in_order s"
  shows "in_order s'"
proof -
  obtain taken where t: "list_all2 fits taken (tr_sent s @ in_hand (tr_worker s))"
      "tr_clicks s = taken @ (if tr_worker s = Gone then [AQuit] else []) @ tr_queue s"
    using assms(2) by (auto simp: in_order_def)
  from assms(1) show ?thesis
  proof (cases rule: tray_step.cases)
    case (take a q rq busy)
    then have "list_all2 fits (taken @ [a]) (tr_sent s @ [rq])"
      using t(1) list_all2_appendI [of fits taken "tr_sent s" "[a]" "[rq]"] by (auto simp: fits_def)
    then show ?thesis using take t(2) by (auto simp: in_order_def intro!: exI [of _ "taken @ [a]"])
  qed (use t in \<open>auto simp: in_order_def\<close>)
qed

lemma reach_ok:
  "tray_reach dk others s \<Longrightarrow> in_order s \<and> ty_busy (tr_tray s) = shown_busy (tr_worker s)"
proof (induction rule: tray_reach.induct)
  case (begin_run w)
  obtain t w1 where "refresh dk tray_new w = (t, w1)" by fastforce
  then show ?case using refresh_busy [of dk tray_new w t w1] by (simp add: start_run_def in_order_def tray_new_def)
next
  case (next_step s s')
  then show ?case using step_in_order step_busy by blast
qed

lemma reach_steps: "(tray_step dk others)\<^sup>*\<^sup>* s s' \<Longrightarrow> tray_reach dk others s \<Longrightarrow> tray_reach dk others s'"
  by (induction rule: rtranclp_induct) (auto intro: tray_reach.next_step)

lemma gone_stays:
  "(tray_step dk others)\<^sup>*\<^sup>* s s' \<Longrightarrow> tr_worker s = Gone \<Longrightarrow> tr_worker s' = Gone \<and> tr_sent s' = tr_sent s"
proof (induction rule: rtranclp_induct)
  case (step y z)
  from step.hyps(2) show ?case using step.IH [OF step.prems] by (cases rule: tray_step.cases) auto
qed simp

text \<open>With a request under way, the menu has nothing that would queue another one of the same kind.\<close>

lemma busy_offers: "ty_busy t \<noteq> None \<Longrightarrow> set (offered (menu t)) \<subseteq> {AApprove, ADismiss, AQuit}"
  by (auto simp: menu_def offered_pending control_items_def idle_def split: if_splits option.splits)

section \<open>A late poll\<close>

lemma pull_poller:
  assumes "tr_poller s = Some p" and "pull_step dk p (tr_world s) = (p', w')"
  shows "(tray_step dk others)\<^sup>*\<^sup>* s (s\<lparr>tr_poller := Some p', tr_world := w'\<rparr>)"
proof (cases "\<exists>n. p = Pulled n")
  case True
  then have "s\<lparr>tr_poller := Some p', tr_world := w'\<rparr> = s" using assms by auto
  then show ?thesis by simp
next
  case False
  then show ?thesis using assms tray_step.poller_pull [of s p dk p' w' others] by blast
qed

lemma poll_all:
  assumes "tr_poller s = None" and "refresh dk t (tr_world s) = (t', w')"
  shows "\<exists>n. (tray_step dk others)\<^sup>*\<^sup>* s (s\<lparr>tr_poller := Some (Pulled n), tr_world := w'\<rparr>) \<and> t' = apply_news n t"
proof -
  obtain p1 w1 where 1: "pull_step dk PullStatus (tr_world s) = (p1, w1)" by fastforce
  obtain p2 w2 where 2: "pull_step dk p1 w1 = (p2, w2)" by fastforce
  obtain n where n: "pull_step dk p2 w2 = (Pulled n, w')" "t' = apply_news n t"
    using refresh_is_pull [of dk "tr_world s" t] 1 2 assms(2) by (auto simp: pull_all_def)
  let ?s0 = "s\<lparr>tr_poller := Some PullStatus\<rparr>"
  let ?s1 = "s\<lparr>tr_poller := Some p1, tr_world := w1\<rparr>"
  let ?s2 = "s\<lparr>tr_poller := Some p2, tr_world := w2\<rparr>"
  have 0: "tray_step dk others s ?s0" by (rule tray_step.poll [OF assms(1)])
  have a: "(tray_step dk others)\<^sup>*\<^sup>* ?s0 ?s1" using pull_poller [of ?s0 PullStatus dk p1 w1 others] 1 by simp
  have b: "(tray_step dk others)\<^sup>*\<^sup>* ?s1 ?s2" using pull_poller [of ?s1 p1 dk p2 w2 others] 2 by simp
  have c: "(tray_step dk others)\<^sup>*\<^sup>* ?s2 (s\<lparr>tr_poller := Some (Pulled n), tr_world := w'\<rparr>)"
    using pull_poller [of ?s2 p2 dk "Pulled n" w' others] n(1) by simp
  have "(tray_step dk others)\<^sup>*\<^sup>* s (s\<lparr>tr_poller := Some (Pulled n), tr_world := w'\<rparr>)"
    using 0 a b c by (meson converse_rtranclp_into_rtranclp rtranclp_trans)
  then show ?thesis using n(2) by blast
qed

section \<open>Properties\<close>


text \<open>A refresh by the poller that read the daemon before an action and
writes the tray after it brings the past back: there are runs in which the user disconnected,
everything has come to rest, and the tray says that it is connected.\<close>

lemma a_late_poll_shows_the_past:
  fixes st :: "('t, 'w) dstate" and env :: "('t, 'w) env"
  assumes "linked st" and "ds_current st \<noteq> None"
  shows "\<exists>s. tray_reach (daemon_desk cd env dk) others s \<and> tr_clicks s = [ADisconnect] \<and>
    tr_sent s = [ReqDisconnect] \<and> tr_queue s = [] \<and> tr_worker s = Waiting \<and> tr_poller s = None \<and>
    ds_current (tr_world s) = None \<and> connected (tr_tray s)"
proof -
  let ?dk = "daemon_desk cd env dk"
  let ?steps = "(tray_step ?dk others)\<^sup>*\<^sup>*"
  obtain t0 st0 where 0: "refresh ?dk tray_new st = (t0, st0)" by fastforce
  have st0: "same_conn st st0" by (rule refresh_daemon(4) [OF 0])
  define a where "a = start_run ?dk st"
  have a: "tr_tray a = t0" "tr_queue a = []" "tr_worker a = Waiting" "tr_poller a = None" "tr_world a = st0"
      "tr_clicks a = []" "tr_sent a = []"
    by (simp_all add: a_def start_run_def 0)
  obtain t1 st1 where 1: "refresh ?dk t0 st0 = (t1, st1)" by fastforce
  have st1: "same_conn st0 st1" "connected t1"
    using refresh_daemon(1,4) [OF 1] assms(2) st0 by (auto simp: connected_def status_connected same_conn_def)
  obtain n where n: "?steps a (a\<lparr>tr_poller := Some (Pulled n), tr_world := st1\<rparr>)" "t1 = apply_news n t0"
    using poll_all [OF a(4), of ?dk t0 t1 st1 others] 1 a(5) by auto
  let ?b = "a\<lparr>tr_poller := Some (Pulled n), tr_world := st1\<rparr>"
  let ?c = "?b\<lparr>tr_queue := [ADisconnect], tr_clicks := [ADisconnect]\<rparr>"
  have c: "tray_step ?dk others ?b ?c" using tray_step.click [of ?b ?dk others ADisconnect] a by simp
  obtain r st2 where d: "disconnect env st1 = (r, st2)" by fastforce
  have st2: "ds_current st2 = None"
  proof -
    have "linked st1" using assms(1) linked_same_conn [OF st0] linked_same_conn [OF st1(1)] by simp
    then show ?thesis by (cases rule: disconnect_cases [OF d]) (simp_all add: linked_def)
  qed
  obtain rs where h: "daemon_ask cd env ReqDisconnect st1 = (rs, st2)"
    by (cases "daemon_ask cd env ReqDisconnect st1") (simp add: daemon_ask_def d reply_def split: sum.splits)
  obtain t3 st3 where 3: "refresh ?dk (t0\<lparr>ty_busy := None, ty_error := failure_of Unix rs\<rparr>) st2 = (t3, st3)"
    by fastforce
  have "run_action ?dk ADisconnect (tr_tray ?c) (tr_world ?c) = Some (t0\<lparr>ty_busy := Some ''Disconnecting'', ty_error := None\<rparr>, t3, st3)"
    using h 3 a by (simp add: run_action_def)
  from action_alone [OF _ _ this, where others = others and q = "[]"] a obtain rq where
    e: "?steps ?c (?c\<lparr>tr_queue := [], tr_tray := t3, tr_world := st3, tr_sent := [rq]\<rparr>)" by auto
  let ?e = "?c\<lparr>tr_queue := [], tr_tray := t3, tr_world := st3, tr_sent := [rq]\<rparr>"
  let ?f = "?e\<lparr>tr_poller := None, tr_tray := apply_news n t3\<rparr>"
  have f: "tray_step ?dk others ?e ?f" using tray_step.poller_news [of ?e n ?dk others] by simp
  have reach: "tray_reach ?dk others ?f"
  proof -
    have "tray_reach ?dk others a" unfolding a_def by (rule tray_reach.begin_run)
    note b = reach_steps [OF n(1) this]
    note e = reach_steps [OF e tray_reach.next_step [OF b c]]
    show ?thesis by (rule tray_reach.next_step [OF e f])
  qed
  have "in_order ?f" using reach_ok [OF reach] by simp
  then have "rq = ReqDisconnect"
    using a by (auto simp: in_order_def fits_def list_all2_Cons2)
  moreover have "ds_current st3 = None"
    using refresh_daemon(4) [OF 3] st2 by (simp add: same_conn_def)
  moreover have "connected (apply_news n t3) = connected t1"
    using n(2) by (simp add: connected_def apply_news_def Let_def split: option.split)
  ultimately show ?thesis using reach a st1(2) by (intro exI [of _ ?f]) simp
qed


end
