(* ===== verification/Ipc_Json.thy ===== *)
theory Ipc_Json
  imports Serde Wire "HOL-Library.Monad_Syntax"
begin

text \<open>
  The protocol of \<^verbatim>\<open>vpnmgr-ipc/src/lib.rs\<close> as JSON: what the \<^verbatim>\<open>serde\<close> attributes of its types
  make of requests and responses. Values are those of \<^verbatim>\<open>serde_json\<close>; its printer and parser are
  parameters. Decoding is that of objects whose variants are named, which is what encoding
  gives; sequences for structures and indices for variants, which \<^verbatim>\<open>derive\<close> takes besides, are
  left out.
\<close>

section \<open>Values\<close>

datatype json =
    JNull
  | JBool bool
  | JInt int
  | JFloat real
  | JStr string
  | JArr "json list"
  | JObj "(string \<times> json) list"

text \<open>Encoding. A number that is not finite is \<^verbatim>\<open>null\<close>.\<close>

definition j_nat :: "nat \<Rightarrow> json" where "j_nat n = JInt (int n)"

definition j_word :: "'a::len word \<Rightarrow> json" where "j_word w = JInt (uint w)"

fun j_f64 :: "f64 \<Rightarrow> json" where
  "j_f64 (Fin x) = JFloat x"
| "j_f64 _ = JNull"

fun j_opt :: "('a \<Rightarrow> json) \<Rightarrow> 'a option \<Rightarrow> json" where
  "j_opt f None = JNull"
| "j_opt f (Some x) = f x"

text \<open>Decoding. An integer does for a float, not the other way round.\<close>

fun de_bool :: "json \<Rightarrow> bool option" where
  "de_bool (JBool b) = Some b"
| "de_bool _ = None"

fun de_str :: "json \<Rightarrow> string option" where
  "de_str (JStr s) = Some s"
| "de_str _ = None"

fun de_nat :: "json \<Rightarrow> nat option" where
  "de_nat (JInt i) = (if 0 \<le> i \<and> i < 2 ^ 64 then Some (nat i) else None)"
| "de_nat _ = None"

fun de_word :: "json \<Rightarrow> 'a::len word option" where
  "de_word (JInt i) = (if 0 \<le> i \<and> i < 2 ^ LENGTH('a) then Some (word_of_int i) else None)"
| "de_word _ = None"

fun de_f64 :: "json \<Rightarrow> f64 option" where
  "de_f64 (JFloat x) = Some (Fin x)"
| "de_f64 (JInt i) = Some (Fin (of_int i))"
| "de_f64 _ = None"

fun de_opt :: "(json \<Rightarrow> 'a option) \<Rightarrow> json \<Rightarrow> 'a option option" where
  "de_opt d JNull = Some None"
| "de_opt d v = map_option Some (d v)"

fun de_list :: "(json \<Rightarrow> 'a option) \<Rightarrow> json \<Rightarrow> 'a list option" where
  "de_list d (JArr vs) = each d vs"
| "de_list d _ = None"

fun de_object :: "((string \<times> json) list \<Rightarrow> 'a option) \<Rightarrow> json \<Rightarrow> 'a option" where
  "de_object d (JObj fs) = d fs"
| "de_object d _ = None"

fun de_sockaddr :: "json \<Rightarrow> sockaddr option" where
  "de_sockaddr (JStr s) = parse_sockaddr s"
| "de_sockaddr _ = None"

abbreviation opt_field :: "(json \<Rightarrow> 'a option) \<Rightarrow> string \<Rightarrow> (string \<times> json) list \<Rightarrow> 'a option option" where
  "opt_field d \<equiv> field_or None (de_opt d)"

section \<open>Requests\<close>

text \<open>\<^verbatim>\<open>tag = "request"\<close>: the fields of a variant stand beside its name.\<close>

definition request_object :: "string \<Rightarrow> (string \<times> json) list \<Rightarrow> json" where
  "request_object name fs = JObj ((''request'', JStr name) # fs)"

fun put_request :: "request \<Rightarrow> json" where
  "put_request ReqStatus = request_object ''status'' []"
| "put_request (ReqConnect server meas) =
     request_object ''connect'' [(''server'', j_opt JStr server), (''measure'', j_opt JBool meas)]"
| "put_request ReqDisconnect = request_object ''disconnect'' []"
| "put_request (ReqSwitch server) = request_object ''switch'' [(''server'', JStr server)]"
| "put_request (ReqTest country) = request_object ''test'' [(''country'', j_opt JStr country)]"
| "put_request (ReqLastRanking limit) = request_object ''last_ranking'' [(''limit'', j_opt j_nat limit)]"
| "put_request (ReqServers country limit al) =
     request_object ''servers''
       [(''country'', j_opt JStr country), (''limit'', j_opt j_nat limit), (''all'', JBool al)]"
| "put_request ReqReload = request_object ''reload'' []"
| "put_request ReqVersion = request_object ''version'' []"
| "put_request ReqAutotune = request_object ''autotune'' []"
| "put_request ReqApprove = request_object ''approve'' []"
| "put_request ReqDismiss = request_object ''dismiss'' []"
| "put_request ReqSpeedtest = request_object ''speedtest'' []"
| "put_request (ReqBaseline confirm) = request_object ''baseline'' [(''confirm'', JBool confirm)]"
| "put_request (ReqKillswitch enable) = request_object ''killswitch'' [(''enable'', j_opt JBool enable)]"

definition request_fields :: "string \<Rightarrow> (string \<times> json) list \<Rightarrow> request option" where
  "request_fields name fs =
     (if name = ''status'' then Some ReqStatus
      else if name = ''connect'' then do {
        server \<leftarrow> opt_field de_str ''server'' fs;
        meas \<leftarrow> opt_field de_bool ''measure'' fs;
        Some (ReqConnect server meas) }
      else if name = ''disconnect'' then Some ReqDisconnect
      else if name = ''switch'' then map_option ReqSwitch (field de_str ''server'' fs)
      else if name = ''test'' then map_option ReqTest (opt_field de_str ''country'' fs)
      else if name = ''last_ranking'' then map_option ReqLastRanking (opt_field de_nat ''limit'' fs)
      else if name = ''servers'' then do {
        country \<leftarrow> opt_field de_str ''country'' fs;
        limit \<leftarrow> opt_field de_nat ''limit'' fs;
        al \<leftarrow> field_or False de_bool ''all'' fs;
        Some (ReqServers country limit al) }
      else if name = ''reload'' then Some ReqReload
      else if name = ''version'' then Some ReqVersion
      else if name = ''autotune'' then Some ReqAutotune
      else if name = ''approve'' then Some ReqApprove
      else if name = ''dismiss'' then Some ReqDismiss
      else if name = ''speedtest'' then Some ReqSpeedtest
      else if name = ''baseline'' then map_option ReqBaseline (field de_bool ''confirm'' fs)
      else if name = ''killswitch'' then map_option ReqKillswitch (opt_field de_bool ''enable'' fs)
      else None)"

definition get_request :: "json \<Rightarrow> request option" where
  "get_request = de_object (\<lambda>fs. do { name \<leftarrow> field de_str ''request'' fs; request_fields name fs })"

section \<open>The records of responses\<close>

definition put_ranked :: "ranked_server \<Rightarrow> json" where
  "put_ranked r = JObj
     [(''name'', JStr (rk_name r)), (''country_code'', JStr (rk_country_code r)),
      (''country_name'', JStr (rk_country_name r)), (''location'', JStr (rk_location r)),
      (''load'', j_word (rk_load r)), (''rtt_ms'', j_f64 (rk_rtt_ms r)), (''score'', j_f64 (rk_score r)),
      (''entry'', j_word (rk_entry r)), (''endpoint'', JStr (show_sockaddr (rk_endpoint r))),
      (''mbps'', j_opt j_f64 (rk_mbps r)), (''mbps_age_secs'', j_opt j_nat (rk_mbps_age_secs r)),
      (''headroom_mbps'', j_word (rk_headroom_mbps r))]"

definition get_ranked :: "json \<Rightarrow> ranked_server option" where
  "get_ranked = de_object (\<lambda>fs. do {
     name \<leftarrow> field de_str ''name'' fs;
     country_code \<leftarrow> field de_str ''country_code'' fs;
     country_name \<leftarrow> field de_str ''country_name'' fs;
     location \<leftarrow> field de_str ''location'' fs;
     load \<leftarrow> field de_word ''load'' fs;
     rtt_ms \<leftarrow> field de_f64 ''rtt_ms'' fs;
     score \<leftarrow> field de_f64 ''score'' fs;
     entry \<leftarrow> field de_word ''entry'' fs;
     endpoint \<leftarrow> field de_sockaddr ''endpoint'' fs;
     mbps \<leftarrow> opt_field de_f64 ''mbps'' fs;
     mbps_age_secs \<leftarrow> opt_field de_nat ''mbps_age_secs'' fs;
     headroom_mbps \<leftarrow> field de_word ''headroom_mbps'' fs;
     Some \<lparr>rk_name = name, rk_country_code = country_code, rk_country_name = country_name,
       rk_location = location, rk_load = load, rk_rtt_ms = rtt_ms, rk_score = score, rk_entry = entry,
       rk_endpoint = endpoint, rk_mbps = mbps, rk_mbps_age_secs = mbps_age_secs,
       rk_headroom_mbps = headroom_mbps\<rparr> })"

definition put_summary :: "server_summary \<Rightarrow> json" where
  "put_summary s = JObj
     [(''name'', JStr (ss_name s)), (''country_code'', JStr (ss_country_code s)),
      (''country_name'', JStr (ss_country_name s)), (''location'', JStr (ss_location s)),
      (''load'', j_word (ss_load s)), (''users'', j_word (ss_users s)), (''healthy'', JBool (ss_healthy s)),
      (''headroom_mbps'', j_word (ss_headroom_mbps s))]"

definition get_summary :: "json \<Rightarrow> server_summary option" where
  "get_summary = de_object (\<lambda>fs. do {
     name \<leftarrow> field de_str ''name'' fs;
     country_code \<leftarrow> field de_str ''country_code'' fs;
     country_name \<leftarrow> field de_str ''country_name'' fs;
     location \<leftarrow> field de_str ''location'' fs;
     load \<leftarrow> field de_word ''load'' fs;
     users \<leftarrow> field de_word ''users'' fs;
     healthy \<leftarrow> field de_bool ''healthy'' fs;
     headroom_mbps \<leftarrow> field de_word ''headroom_mbps'' fs;
     Some \<lparr>ss_name = name, ss_country_code = country_code, ss_country_name = country_name,
       ss_location = location, ss_load = load, ss_users = users, ss_healthy = healthy,
       ss_headroom_mbps = headroom_mbps\<rparr> })"

definition put_sweep :: "sweep_summary \<Rightarrow> json" where
  "put_sweep s = JObj
     [(''probed'', j_nat (sw_probed s)), (''reachable'', j_nat (sw_reachable s)),
      (''elapsed_ms'', j_nat (sw_elapsed_ms s)), (''age_secs'', j_nat (sw_age_secs s)),
      (''best'', j_opt put_ranked (sw_best s)), (''all_unreachable'', JBool (sw_all_unreachable s))]"

definition get_sweep :: "json \<Rightarrow> sweep_summary option" where
  "get_sweep = de_object (\<lambda>fs. do {
     probed \<leftarrow> field de_nat ''probed'' fs;
     reachable \<leftarrow> field de_nat ''reachable'' fs;
     elapsed_ms \<leftarrow> field de_nat ''elapsed_ms'' fs;
     age_secs \<leftarrow> field de_nat ''age_secs'' fs;
     best \<leftarrow> opt_field get_ranked ''best'' fs;
     all_unreachable \<leftarrow> field de_bool ''all_unreachable'' fs;
     Some \<lparr>sw_probed = probed, sw_reachable = reachable, sw_elapsed_ms = elapsed_ms,
       sw_age_secs = age_secs, sw_best = best, sw_all_unreachable = all_unreachable\<rparr> })"

definition put_pending :: "pending_switch \<Rightarrow> json" where
  "put_pending p = JObj
     [(''to'', put_ranked (pd_to p)), (''reason'', JStr (pd_reason p)), (''age_secs'', j_nat (pd_age_secs p))]"

definition get_pending :: "json \<Rightarrow> pending_switch option" where
  "get_pending = de_object (\<lambda>fs. do {
     to \<leftarrow> field get_ranked ''to'' fs;
     reason \<leftarrow> field de_str ''reason'' fs;
     age_secs \<leftarrow> field de_nat ''age_secs'' fs;
     Some \<lparr>pd_to = to, pd_reason = reason, pd_age_secs = age_secs\<rparr> })"

definition put_tune :: "tune_report \<Rightarrow> json" where
  "put_tune t = JObj
     [(''summary'', JStr (tr_summary t)), (''switched'', JBool (tr_switched t)),
      (''pending'', j_opt put_pending (tr_pending t)), (''nothing_reachable'', JBool (tr_nothing_reachable t))]"

definition get_tune :: "json \<Rightarrow> tune_report option" where
  "get_tune = de_object (\<lambda>fs. do {
     summary \<leftarrow> field de_str ''summary'' fs;
     switched \<leftarrow> field de_bool ''switched'' fs;
     pending \<leftarrow> opt_field get_pending ''pending'' fs;
     nothing_reachable \<leftarrow> field de_bool ''nothing_reachable'' fs;
     Some \<lparr>tr_summary = summary, tr_switched = switched, tr_pending = pending,
       tr_nothing_reachable = nothing_reachable\<rparr> })"

definition put_sample :: "speed_sample \<Rightarrow> json" where
  "put_sample s = JObj
     [(''mbps'', j_f64 (sm_mbps s)), (''bytes'', j_word (sm_bytes s)), (''elapsed_ms'', j_nat (sm_elapsed_ms s)),
      (''truncated'', JBool (sm_truncated s))]"

definition get_sample :: "json \<Rightarrow> speed_sample option" where
  "get_sample = de_object (\<lambda>fs. do {
     mbps \<leftarrow> field de_f64 ''mbps'' fs;
     bytes \<leftarrow> field de_word ''bytes'' fs;
     elapsed_ms \<leftarrow> field de_nat ''elapsed_ms'' fs;
     truncated \<leftarrow> field de_bool ''truncated'' fs;
     Some \<lparr>sm_mbps = mbps, sm_bytes = bytes, sm_elapsed_ms = elapsed_ms, sm_truncated = truncated\<rparr> })"

definition put_speed :: "speed_report \<Rightarrow> json" where
  "put_speed r = JObj
     [(''tunnelled'', j_opt put_sample (sr_tunnelled r)), (''direct'', j_opt put_sample (sr_direct r)),
      (''server'', j_opt JStr (sr_server r)), (''min_mbps'', j_f64 (sr_min_mbps r)),
      (''meets_target'', JBool (sr_meets_target r)), (''verdict'', JStr (sr_verdict r))]"

definition get_speed :: "json \<Rightarrow> speed_report option" where
  "get_speed = de_object (\<lambda>fs. do {
     tunnelled \<leftarrow> opt_field get_sample ''tunnelled'' fs;
     direct \<leftarrow> opt_field get_sample ''direct'' fs;
     server \<leftarrow> opt_field de_str ''server'' fs;
     least \<leftarrow> field de_f64 ''min_mbps'' fs;
     meets_target \<leftarrow> field de_bool ''meets_target'' fs;
     verdict \<leftarrow> field de_str ''verdict'' fs;
     Some \<lparr>sr_tunnelled = tunnelled, sr_direct = direct, sr_server = server, sr_min_mbps = least,
       sr_meets_target = meets_target, sr_verdict = verdict\<rparr> })"

definition put_killswitch :: "killswitch_report \<Rightarrow> json" where
  "put_killswitch k = JObj
     [(''engaged'', JBool (kr_engaged k)), (''configured'', JBool (kr_configured k)),
      (''dropped'', j_opt j_nat (kr_dropped k))]"

definition get_killswitch :: "json \<Rightarrow> killswitch_report option" where
  "get_killswitch = de_object (\<lambda>fs. do {
     engaged \<leftarrow> field de_bool ''engaged'' fs;
     configured \<leftarrow> field de_bool ''configured'' fs;
     dropped \<leftarrow> opt_field de_nat ''dropped'' fs;
     Some \<lparr>kr_engaged = engaged, kr_configured = configured, kr_dropped = dropped\<rparr> })"

definition put_status :: "status_report \<Rightarrow> json" where
  "put_status s = JObj
     [(''connected'', JBool (st_connected s)), (''interface'', JStr (st_interface s)),
      (''server'', j_opt JStr (st_server s)), (''location'', j_opt JStr (st_location s)),
      (''country_code'', j_opt JStr (st_country_code s)),
      (''endpoint'', j_opt (\<lambda>a. JStr (show_sockaddr a)) (st_endpoint s)),
      (''entry'', j_opt j_word (st_entry s)), (''last_handshake_secs'', j_opt j_nat (st_last_handshake_secs s)),
      (''healthy'', JBool (st_healthy s)), (''tx_bytes'', j_word (st_tx_bytes s)),
      (''rx_bytes'', j_word (st_rx_bytes s)), (''last_sweep'', j_opt put_sweep (st_last_sweep s)),
      (''pending_switch'', j_opt put_pending (st_pending_switch s)), (''last_tune'', j_opt JStr (st_last_tune s)),
      (''next_tune_secs'', j_opt j_nat (st_next_tune_secs s)), (''config_path'', j_opt JStr (st_config_path s)),
      (''baseline_mbps'', j_opt j_f64 (st_baseline_mbps s)),
      (''baseline_age_secs'', j_opt j_nat (st_baseline_age_secs s))]"

definition get_status :: "json \<Rightarrow> status_report option" where
  "get_status = de_object (\<lambda>fs. do {
     connected \<leftarrow> field de_bool ''connected'' fs;
     iface \<leftarrow> field de_str ''interface'' fs;
     server \<leftarrow> opt_field de_str ''server'' fs;
     location \<leftarrow> opt_field de_str ''location'' fs;
     country_code \<leftarrow> opt_field de_str ''country_code'' fs;
     endpoint \<leftarrow> opt_field de_sockaddr ''endpoint'' fs;
     entry \<leftarrow> opt_field de_word ''entry'' fs;
     last_handshake_secs \<leftarrow> opt_field de_nat ''last_handshake_secs'' fs;
     healthy \<leftarrow> field de_bool ''healthy'' fs;
     tx_bytes \<leftarrow> field de_word ''tx_bytes'' fs;
     rx_bytes \<leftarrow> field de_word ''rx_bytes'' fs;
     last_sweep \<leftarrow> opt_field get_sweep ''last_sweep'' fs;
     pending_switch \<leftarrow> opt_field get_pending ''pending_switch'' fs;
     last_tune \<leftarrow> opt_field de_str ''last_tune'' fs;
     next_tune_secs \<leftarrow> opt_field de_nat ''next_tune_secs'' fs;
     config_path \<leftarrow> opt_field de_str ''config_path'' fs;
     baseline_mbps \<leftarrow> opt_field de_f64 ''baseline_mbps'' fs;
     baseline_age_secs \<leftarrow> opt_field de_nat ''baseline_age_secs'' fs;
     Some \<lparr>st_connected = connected, st_interface = iface, st_server = server, st_location = location,
       st_country_code = country_code, st_endpoint = endpoint, st_entry = entry,
       st_last_handshake_secs = last_handshake_secs, st_healthy = healthy, st_tx_bytes = tx_bytes,
       st_rx_bytes = rx_bytes, st_last_sweep = last_sweep, st_pending_switch = pending_switch,
       st_last_tune = last_tune, st_next_tune_secs = next_tune_secs, st_config_path = config_path,
       st_baseline_mbps = baseline_mbps, st_baseline_age_secs = baseline_age_secs\<rparr> })"

section \<open>Responses\<close>

text \<open>\<^verbatim>\<open>tag = "response", content = "data"\<close>: the name beside an object or a list of its own.\<close>

definition response_object :: "string \<Rightarrow> json \<Rightarrow> json" where
  "response_object name data = JObj [(''response'', JStr name), (''data'', data)]"

fun put_response :: "string response \<Rightarrow> json" where
  "put_response (RespStatus s) = response_object ''status'' (put_status s)"
| "put_response (RespRanking rs) = response_object ''ranking'' (JArr (map put_ranked rs))"
| "put_response (RespServers ss) = response_object ''servers'' (JArr (map put_summary ss))"
| "put_response (RespOk m) = response_object ''ok'' (JObj [(''message'', JStr m)])"
| "put_response (RespError m) = response_object ''error'' (JObj [(''message'', JStr m)])"
| "put_response (RespVersion v) = response_object ''version'' (JObj [(''version'', JStr v)])"
| "put_response (RespTuned t) = response_object ''tuned'' (put_tune t)"
| "put_response (RespSpeed r) = response_object ''speed'' (put_speed r)"
| "put_response (RespKillswitch k) = response_object ''killswitch'' (put_killswitch k)"

definition response_data :: "string \<Rightarrow> json \<Rightarrow> string response option" where
  "response_data name data =
     (if name = ''status'' then map_option RespStatus (get_status data)
      else if name = ''ranking'' then map_option RespRanking (de_list get_ranked data)
      else if name = ''servers'' then map_option RespServers (de_list get_summary data)
      else if name = ''ok'' then map_option RespOk (de_object (field de_str ''message'') data)
      else if name = ''error'' then map_option RespError (de_object (field de_str ''message'') data)
      else if name = ''version'' then map_option RespVersion (de_object (field de_str ''version'') data)
      else if name = ''tuned'' then map_option RespTuned (get_tune data)
      else if name = ''speed'' then map_option RespSpeed (get_speed data)
      else if name = ''killswitch'' then map_option RespKillswitch (get_killswitch data)
      else None)"

definition get_response :: "json \<Rightarrow> string response option" where
  "get_response = de_object (\<lambda>fs. do {
     name \<leftarrow> field de_str ''response'' fs;
     data \<leftarrow> field Some ''data'' fs;
     response_data name data })"

section \<open>Reading back\<close>

definition nat64 :: "nat \<Rightarrow> bool" where "nat64 n \<longleftrightarrow> n < 2 ^ 64"

text \<open>What a response must be to be read back: its floats finite, its numbers those of their types.\<close>

definition ranked_fits :: "ranked_server \<Rightarrow> bool" where
  "ranked_fits r \<longleftrightarrow> is_fin (rk_rtt_ms r) \<and> is_fin (rk_score r) \<and> pred_option is_fin (rk_mbps r) \<and>
     pred_option nat64 (rk_mbps_age_secs r)"

definition pending_fits :: "pending_switch \<Rightarrow> bool" where
  "pending_fits p \<longleftrightarrow> ranked_fits (pd_to p) \<and> nat64 (pd_age_secs p)"

definition sweep_fits :: "sweep_summary \<Rightarrow> bool" where
  "sweep_fits s \<longleftrightarrow> nat64 (sw_probed s) \<and> nat64 (sw_reachable s) \<and> nat64 (sw_elapsed_ms s) \<and>
     nat64 (sw_age_secs s) \<and> pred_option ranked_fits (sw_best s)"

definition sample_fits :: "speed_sample \<Rightarrow> bool" where
  "sample_fits s \<longleftrightarrow> is_fin (sm_mbps s) \<and> nat64 (sm_elapsed_ms s)"

definition status_fits :: "status_report \<Rightarrow> bool" where
  "status_fits s \<longleftrightarrow> pred_option nat64 (st_last_handshake_secs s) \<and> pred_option sweep_fits (st_last_sweep s) \<and>
     pred_option pending_fits (st_pending_switch s) \<and> pred_option nat64 (st_next_tune_secs s) \<and>
     pred_option is_fin (st_baseline_mbps s) \<and> pred_option nat64 (st_baseline_age_secs s)"

fun response_fits :: "string response \<Rightarrow> bool" where
  "response_fits (RespStatus s) \<longleftrightarrow> status_fits s"
| "response_fits (RespRanking rs) \<longleftrightarrow> list_all ranked_fits rs"
| "response_fits (RespServers ss) \<longleftrightarrow> True"
| "response_fits (RespOk m) \<longleftrightarrow> True"
| "response_fits (RespError m) \<longleftrightarrow> True"
| "response_fits (RespVersion v) \<longleftrightarrow> True"
| "response_fits (RespTuned t) \<longleftrightarrow> pred_option pending_fits (tr_pending t)"
| "response_fits (RespSpeed r) \<longleftrightarrow> pred_option sample_fits (sr_tunnelled r) \<and>
     pred_option sample_fits (sr_direct r) \<and> is_fin (sr_min_mbps r)"
| "response_fits (RespKillswitch k) \<longleftrightarrow> pred_option nat64 (kr_dropped k)"

fun request_fits :: "request \<Rightarrow> bool" where
  "request_fits (ReqLastRanking limit) \<longleftrightarrow> pred_option nat64 limit"
| "request_fits (ReqServers country limit al) \<longleftrightarrow> pred_option nat64 limit"
| "request_fits _ \<longleftrightarrow> True"

lemma de_nat_put [simp]: "nat64 n \<Longrightarrow> de_nat (j_nat n) = Some n"
  by (simp add: j_nat_def nat64_def) 

lemma de_word_put [simp]: "de_word (j_word w) = Some w"
  by (simp add: j_word_def uint_lt2p)

lemma de_f64_put [simp]: "is_fin x \<Longrightarrow> de_f64 (j_f64 x) = Some x"
  by (auto simp: is_fin_def)

lemma de_opt_put:
  assumes "\<And>x. v = Some x \<Longrightarrow> f x \<noteq> JNull \<and> d (f x) = Some x"
  shows "de_opt d (j_opt f v) = Some v"
proof (cases v)
  case (Some x)
  then show ?thesis using assms [of x] by (cases "f x") auto
qed simp

lemma not_null [simp]:
  "j_nat n \<noteq> JNull" "j_word w \<noteq> JNull" "is_fin x \<Longrightarrow> j_f64 x \<noteq> JNull" "put_ranked r \<noteq> JNull"
  "put_sweep s \<noteq> JNull" "put_pending p \<noteq> JNull" "put_sample m \<noteq> JNull"
  by (auto simp: j_nat_def j_word_def is_fin_def put_ranked_def put_sweep_def put_pending_def put_sample_def)

lemma de_opts [simp]:
  "de_opt de_str (j_opt JStr s) = Some s" "de_opt de_bool (j_opt JBool b) = Some b"
  "de_opt de_word (j_opt j_word w) = Some w"
  "de_opt de_sockaddr (j_opt (\<lambda>a. JStr (show_sockaddr a)) e) = Some e"
  "pred_option nat64 n \<Longrightarrow> de_opt de_nat (j_opt j_nat n) = Some n"
  "pred_option is_fin x \<Longrightarrow> de_opt de_f64 (j_opt j_f64 x) = Some x"
  by (rule de_opt_put; simp add: parse_sockaddr_show pred_option_def)+

lemma get_ranked_put [simp]: "ranked_fits r \<Longrightarrow> get_ranked (put_ranked r) = Some r"
  by (simp add: get_ranked_def put_ranked_def field_def field_or_def ranked_fits_def parse_sockaddr_show)

lemma get_summary_put [simp]: "get_summary (put_summary s) = Some s"
  by (simp add: get_summary_def put_summary_def field_def)

lemma get_sweep_put [simp]: "sweep_fits s \<Longrightarrow> get_sweep (put_sweep s) = Some s"
proof -
  assume s: "sweep_fits s"
  then have "de_opt get_ranked (j_opt put_ranked (sw_best s)) = Some (sw_best s)"
    by (intro de_opt_put) (simp add: sweep_fits_def pred_option_def)
  then show ?thesis using s by (simp add: get_sweep_def put_sweep_def field_def field_or_def sweep_fits_def)
qed

lemma get_pending_put [simp]: "pending_fits p \<Longrightarrow> get_pending (put_pending p) = Some p"
  by (simp add: get_pending_def put_pending_def field_def pending_fits_def)

lemma de_opt_pending [simp]:
  "pred_option pending_fits p \<Longrightarrow> de_opt get_pending (j_opt put_pending p) = Some p"
  by (rule de_opt_put) (simp add: pred_option_def)

lemma get_tune_put [simp]: "pred_option pending_fits (tr_pending t) \<Longrightarrow> get_tune (put_tune t) = Some t"
  by (simp add: get_tune_def put_tune_def field_def field_or_def)

lemma get_sample_put [simp]: "sample_fits s \<Longrightarrow> get_sample (put_sample s) = Some s"
  by (simp add: get_sample_def put_sample_def field_def sample_fits_def)

lemma de_opt_sample [simp]: "pred_option sample_fits p \<Longrightarrow> de_opt get_sample (j_opt put_sample p) = Some p"
  by (rule de_opt_put) (simp add: pred_option_def)

lemma get_speed_put [simp]:
  "pred_option sample_fits (sr_tunnelled r) \<Longrightarrow> pred_option sample_fits (sr_direct r) \<Longrightarrow> is_fin (sr_min_mbps r) \<Longrightarrow>
     get_speed (put_speed r) = Some r"
  by (simp add: get_speed_def put_speed_def field_def field_or_def)

lemma get_killswitch_put [simp]: "pred_option nat64 (kr_dropped k) \<Longrightarrow> get_killswitch (put_killswitch k) = Some k"
  by (simp add: get_killswitch_def put_killswitch_def field_def field_or_def)

lemma get_status_put [simp]: "status_fits s \<Longrightarrow> get_status (put_status s) = Some s"
proof -
  assume s: "status_fits s"
  then have "de_opt get_sweep (j_opt put_sweep (st_last_sweep s)) = Some (st_last_sweep s)"
    by (intro de_opt_put) (simp add: status_fits_def pred_option_def)
  then show ?thesis using s by (simp add: get_status_def put_status_def field_def field_or_def status_fits_def)
qed

lemma get_request_put: "request_fits rq \<Longrightarrow> get_request (put_request rq) = Some rq"
  by (cases rq) (simp_all add: get_request_def request_object_def request_fields_def field_def field_or_def)

lemma de_list_put: "list_all P xs \<Longrightarrow> (\<And>x. P x \<Longrightarrow> d (f x) = Some x) \<Longrightarrow> de_list d (JArr (map f xs)) = Some xs"
  by (simp add: each_map list_all_iff)

lemma get_response_put: "response_fits r \<Longrightarrow> get_response (put_response r) = Some r"
  by (cases r) (simp_all add: get_response_def response_object_def response_data_def field_def
      each_map list_all_iff)


section \<open>What cannot be read\<close>

text \<open>
  A ranking is read exactly when every latency and score in it is a finite number; a
  throughput that is not comes back as no measurement.
\<close>

definition blur :: "ranked_server \<Rightarrow> ranked_server" where
  "blur r = r\<lparr>rk_mbps := (case rk_mbps r of Some x \<Rightarrow> if is_fin x then Some x else None | None \<Rightarrow> None)\<rparr>"

lemma de_f64_put_None: "\<not> is_fin x \<Longrightarrow> de_f64 (j_f64 x) = None"
  by (cases x) (auto simp: is_fin_def)

lemma de_opt_f64:
  "de_opt de_f64 (j_opt j_f64 v) = Some (case v of Some x \<Rightarrow> if is_fin x then Some x else None | None \<Rightarrow> None)"
proof (cases v)
  case (Some x)
  then show ?thesis by (cases x) (auto simp: is_fin_def)
qed simp

lemma get_ranked_blur:
  assumes "pred_option nat64 (rk_mbps_age_secs r)"
  shows "get_ranked (put_ranked r) =
    (if is_fin (rk_rtt_ms r) \<and> is_fin (rk_score r) then Some (blur r) else None)"
  using assms
  by (cases "is_fin (rk_rtt_ms r)"; cases "is_fin (rk_score r)")
    (simp_all add: get_ranked_def put_ranked_def field_def field_or_def parse_sockaddr_show de_opt_f64
      de_f64_put_None blur_def)

lemma get_ranked_score: "\<not> is_fin (rk_score r) \<Longrightarrow> get_ranked (put_ranked r) = None"
  by (simp add: get_ranked_def put_ranked_def field_def field_or_def parse_sockaddr_show
      de_f64_put_None split: bind_splits)

lemma each_blur:
  assumes "\<forall>r\<in>set rs. pred_option nat64 (rk_mbps_age_secs r)"
  shows "each get_ranked (map put_ranked rs) =
    (if \<forall>r\<in>set rs. is_fin (rk_rtt_ms r) \<and> is_fin (rk_score r) then Some (map blur rs) else None)"
  using assms by (induction rs) (auto simp: get_ranked_blur)

text \<open>The reply the daemon falls back on when it cannot encode one is not a response either.\<close>

lemma fallback_is_no_response:
  "get_response (JObj [(''response'', JStr ''error''), (''message'', JStr e)]) = None"
  by (simp add: get_response_def field_def)

section \<open>Over the wire\<close>

text \<open>The text layer of \<^verbatim>\<open>serde_json\<close>, and the text of the error when a value has not the shape asked for.\<close>

record json_text =
  jt_print :: "json \<Rightarrow> string"
  jt_parse :: "string \<Rightarrow> string + json"
  jt_shape_error :: "json \<Rightarrow> string"

definition reads :: "json_text \<Rightarrow> (json \<Rightarrow> 'a option) \<Rightarrow> string \<Rightarrow> string + 'a" where
  "reads jt d s =
     (case jt_parse jt s of
        Inl e \<Rightarrow> Inl e
      | Inr v \<Rightarrow> (case d v of Some x \<Rightarrow> Inr x | None \<Rightarrow> Inl (jt_shape_error jt v)))"

definition json_codec :: "json_text \<Rightarrow> (daemon_error \<Rightarrow> string) \<Rightarrow> codec" where
  "json_codec jt show_error =
     \<lparr>cd_put_request = \<lambda>rq. Inr (jt_print jt (put_request rq)), cd_get_request = reads jt get_request,
      cd_put_response = \<lambda>r. Inr (jt_print jt (put_response r)), cd_get_response = reads jt get_response,
      cd_show_error = show_error\<rparr>"

text \<open>A value survives printing and parsing, on one line.\<close>

definition text_carries :: "json_text \<Rightarrow> json \<Rightarrow> bool" where
  "text_carries jt v \<longleftrightarrow> wire_text (jt_print jt v) \<and> jt_parse jt (jt_print jt v) = Inr v"

lemma json_carries_request:
  assumes "text_carries jt (put_request rq)" and "request_fits rq" and "length (jt_print jt (put_request rq)) < MAX_LINE"
  shows "carries_request (json_codec jt se) rq"
  using assms get_request_put
  by (simp add: carries_request_def json_codec_def text_carries_def reads_def)

lemma json_carries_response:
  assumes "text_carries jt (put_response r)" and "response_fits r"
  shows "carries_response (json_codec jt se) r"
  using assms get_response_put
  by (simp add: carries_response_def json_codec_def text_carries_def reads_def)

text \<open>What a client makes of the daemon's answer, readable or not.\<close>

lemma client_reads:
  assumes "carries_request cd rq" and "cd_put_response cd (wire_response cd (fst (handle env rq st))) = Inr t"
    and "wire_text t"
  shows "client_request cd (daemon_wire cd env) path rq ([], [], st) =
    ((case cd_get_response cd t of Inl e \<Rightarrow> Inl (IpcProtocol e) | Inr r \<Rightarrow> Inr r),
     ([], [], snd (handle env rq st)))"
proof -
  obtain s where s: "cd_put_request cd rq = Inr s" using assms(1) by (auto simp: carries_request_def)
  have "serve cd env (s @ [lf]) st = (Eof, t @ [lf], snd (handle env rq st))"
    using serve_request [OF assms(1), of env "[]" st] s assms(2)
    by (simp add: request_line_def put_reply_def split: prod.splits)
  moreover have "take_line (length (t @ [lf])) (t @ [lf]) = (t @ [lf], [])"
    using take_line_line [of t "length (t @ [lf])" "[]"] assms(3) by (simp add: wire_text_def)
  ultimately show ?thesis
    using trim_end_lf [OF assms(3)]
    by (simp add: client_request_def client_connect_def client_send_def daemon_wire_def s split: sum.split)
qed

section \<open>A weight that is not a number\<close>

lemma nan_sum [simp]: "NaN + x = NaN" "x + NaN = NaN" "NaN * x = NaN" "NaN / x = NaN"
  by (cases x; simp)+

lemma rank_nan:
  assumes "w_rtt (sc_weights sc) = NaN" and "x \<in> set (rank ms sc)"
  shows "sd_score x = NaN"
  using assms by (auto simp: rank_def score_one_def Let_def split: if_splits)

lemma sweep_nan:
  assumes "w_rtt (at_weights (cf_autotune (ds_config st))) = NaN" and "Daemon_State.sweep env country st = (Inr ranking, st1)"
  shows "\<exists>s t b. ds_last_sweep st1 = Some (s, t) \<and> sw_best s = Some b \<and> rk_score b = NaN"
proof -
  obtain measured st2 t where m: "filter (\<lambda>m. m_rtt m \<noteq> None) measured \<noteq> []"
      "ds_last_sweep st1 = Some (\<lparr>sw_probed = length measured,
         sw_reachable = length (filter (\<lambda>m. m_rtt m \<noteq> None) measured), sw_elapsed_ms = t, sw_age_secs = 0,
         sw_best = (case rank measured (scoring_of st) of [] \<Rightarrow> None | x # _ \<Rightarrow> Some (to_ranked env st2 x)),
         sw_all_unreachable = False\<rparr>, now env st2)"
    using assms(2) by (auto simp: Daemon_State.sweep_def Let_def split: sum.splits if_splits prod.splits)
  obtain x xs where x: "rank measured (scoring_of st) = x # xs"
  proof (cases "rank measured (scoring_of st)")
    case Nil
    then have "reachable measured = []"
      using arg_cong [OF set_rank [of measured "scoring_of st"], of "\<lambda>X. X = {}"] by simp
    then have "\<forall>m\<in>set measured. m_rtt m = None"
      by (auto simp: reachable_def List.map_filter_def filter_empty_conv)
    then show ?thesis using m(1) by (simp add: filter_empty_conv)
  qed (use that in blast)
  have "w_rtt (sc_weights (scoring_of st)) = NaN" using assms(1) by (simp add: scoring_of_def scoring_new_def Let_def)
  then have "sd_score x = NaN" using rank_nan [of "scoring_of st" x measured] x by simp
  then show ?thesis using m(2) x by (simp add: to_ranked_def Let_def)
qed


lemma status_sweep:
  "st_last_sweep (fst (status env st)) = None \<longleftrightarrow> ds_last_sweep st = None"
  "ds_last_sweep st = Some (s, t) \<Longrightarrow> \<exists>a. st_last_sweep (fst (status env st)) = Some (s\<lparr>sw_age_secs := a\<rparr>)"
  by (auto simp: status_def status_base_def Let_def split: option.splits prod.splits)

lemma unreadable_status:
  assumes "st_last_sweep r = Some s" and "sw_best s = Some b" and "rk_score b = NaN"
  shows "get_response (put_response (RespStatus r)) = None"
proof -
  have "get_ranked (put_ranked b) = None" by (rule get_ranked_score) (simp add: assms(3) is_fin_def)
  then have "de_opt get_ranked (j_opt put_ranked (Some b)) = None"
    by (simp add: put_ranked_def)
  then have "get_sweep (put_sweep s) = None"
    using assms(2) by (simp add: get_sweep_def put_sweep_def field_def field_or_def split: bind_splits)
  then have "de_opt get_sweep (j_opt put_sweep (Some s)) = None"
    by (simp add: put_sweep_def)
  then have "get_status (put_status r) = None"
    using assms(1) by (simp add: get_status_def put_status_def field_def field_or_def split: bind_splits)
  then show ?thesis
    by (simp add: get_response_def response_object_def response_data_def field_def)
qed

definition request_keys :: "string list" where
  "request_keys = [''request'', ''server'', ''measure'', ''country'', ''limit'', ''all'', ''confirm'', ''enable'']"

lemma entries_unknown: "\<forall>p\<in>set new. fst p \<notin> set ks \<Longrightarrow> k \<in> set ks \<Longrightarrow> values_at k (fs @ new @ gs) = values_at k (fs @ gs)"
  by (induction new) (auto simp: values_at_def)

lemma field_unknown:
  assumes "\<forall>p\<in>set new. fst p \<notin> set ks" and "k \<in> set ks"
  shows "field d k (fs @ new @ gs) = field d k (fs @ gs)" and "field_or x d k (fs @ new @ gs) = field_or x d k (fs @ gs)"
  by (simp_all add: field_def field_or_def entries_unknown [OF assms] del: entries_simps(3))

lemma request_unknown:
  assumes "\<forall>p\<in>set new. fst p \<notin> set request_keys"
  shows "get_request (JObj (fs @ new @ gs)) = get_request (JObj (fs @ gs))"
proof -
  note same = field_unknown(1) [OF assms, where fs = fs and gs = gs] field_unknown(2) [OF assms, where fs = fs and gs = gs]
  have keys: "''request'' \<in> set request_keys" "''server'' \<in> set request_keys" "''measure'' \<in> set request_keys"
      "''country'' \<in> set request_keys" "''limit'' \<in> set request_keys" "''all'' \<in> set request_keys"
      "''confirm'' \<in> set request_keys" "''enable'' \<in> set request_keys"
    by (simp_all add: request_keys_def)
  show ?thesis
    by (simp only: get_request_def de_object.simps request_fields_def same [OF keys(1)] same [OF keys(2)]
        same [OF keys(3)] same [OF keys(4)] same [OF keys(5)] same [OF keys(6)] same [OF keys(7)] same [OF keys(8)])
qed

lemma status_without_path:
  "status_fits s \<Longrightarrow> \<exists>fs. put_status s = JObj fs \<and>
     get_status (JObj (filter (\<lambda>p. fst p \<noteq> ''config_path'') fs)) = Some (s\<lparr>st_config_path := None\<rparr>)"
proof -
  assume s: "status_fits s"
  then have "de_opt get_sweep (j_opt put_sweep (st_last_sweep s)) = Some (st_last_sweep s)"
    by (intro de_opt_put) (simp add: status_fits_def pred_option_def)
  then show ?thesis using s by (simp add: get_status_def put_status_def field_def field_or_def status_fits_def)
qed

section \<open>Properties\<close>

text \<open>C11: every request and every response whose numbers JSON can carry is read
back from its JSON form as it was; so over a text layer that carries those values, a client
gets the daemon's answer.\<close>

theorem protocol_round_trip:
  assumes "request_fits rq" and "response_fits r"
  shows "get_request (put_request rq) = Some rq \<and> get_response (put_response r) = Some r \<and>
    (text_carries jt (put_request rq) \<and> length (jt_print jt (put_request rq)) < MAX_LINE \<and>
     text_carries jt (put_response r) \<and> wire_response (json_codec jt se) (fst (handle env rq st)) = r \<longrightarrow>
     client_request (json_codec jt se) (daemon_wire (json_codec jt se) env) path rq ([], [], st) =
       (Inr r, ([], [], snd (handle env rq st))))"
  using get_request_put [OF assms(1)] get_response_put [OF assms(2)]
    client_daemon [OF json_carries_request [OF _ assms(1)] , of jt se env st path]
    json_carries_response [OF _ assms(2), of jt se]
  by blast

text \<open>C38: entries a daemon does not know are ignored, wherever they stand in
a request; a request of a client that leaves the newer fields out means what it meant: a
connect that follows the settings, and a list of servers that is filtered. A client reads the
status of a daemon that does not say which file it loaded.\<close>

theorem older_peers_are_understood:
  assumes "\<forall>p\<in>set new. fst p \<notin> set request_keys" and "status_fits s"
  shows "get_request (JObj (fs @ new @ gs)) = get_request (JObj (fs @ gs)) \<and>
    get_request (JObj [(''request'', JStr ''connect''), (''server'', j_opt JStr server)]) = Some (ReqConnect server None) \<and>
    get_request (JObj [(''request'', JStr ''servers''), (''country'', j_opt JStr country)])
      = Some (ReqServers country None False) \<and>
    (\<exists>fs. put_status s = JObj fs \<and>
       get_status (JObj (filter (\<lambda>p. fst p \<noteq> ''config_path'') fs)) = Some (s\<lparr>st_config_path := None\<rparr>))"
  using request_unknown [OF assms(1)] status_without_path [OF assms(2)]
  by (simp add: get_request_def request_fields_def field_def field_or_def)


text \<open>Witnesses: a text layer for the messages at hand.\<close>

definition sample_text :: "json \<Rightarrow> json \<Rightarrow> json_text" where
  "sample_text q r =
     \<lparr>jt_print = \<lambda>v. if v = q then ''{q}'' else ''{r}'', jt_parse = \<lambda>s. if s = ''{q}'' then Inr q else Inr r,
      jt_shape_error = \<lambda>v. ''invalid type: null, expected f64''\<rparr>"

lemma sample_text_carries:
  "text_carries (sample_text q r) q" "length (jt_print (sample_text q r) q) < MAX_LINE"
  "q \<noteq> r \<Longrightarrow> text_carries (sample_text q r) r"
  by (simp_all add: text_carries_def sample_text_def wire_text_def graph_char_def lf_def MAX_LINE_def in_bytes_def)

lemma request_not_response: "put_request ReqStatus \<noteq> put_response r"
  by (cases r) (simp_all add: request_object_def response_object_def)

theorem protocol_round_trip_witness:
  "get_request (put_request (ReqLastRanking (Some 5))) = Some (ReqLastRanking (Some 5)) \<and>
   get_response (put_response (RespOk ''disconnected'')) = Some (RespOk ''disconnected'')"
proof -
  have "request_fits (ReqLastRanking (Some 5))" "response_fits (RespOk ''disconnected'')" by (simp_all add: nat64_def)
  from protocol_round_trip [OF this] show ?thesis by blast
qed

theorem older_peers_are_understood_witness:
  "get_request (JObj [(''request'', JStr ''reload''), (''force'', JBool True)]) = Some ReqReload"
  using older_peers_are_understood [of "[(''force'', JBool True)]" "fst (status sample_env sample_start)"
      "[(''request'', JStr ''reload'')]" "[]" None None]
  by (simp add: request_keys_def status_fits_def status_def status_base_def nat64_def sample_start_def
      pending_switch_of_def direct_mbps_def time_until_next_tune_def get_request_def request_fields_def field_def)

definition nan_start :: "(sockaddr option, nat) dstate" where
  "nan_start = sample_start\<lparr>ds_config := sample_config\<lparr>cf_autotune := (cf_autotune sample_config)
     \<lparr>at_weights := (at_weights (cf_autotune sample_config))\<lparr>w_rtt := NaN\<rparr>\<rparr>\<rparr>\<rparr>"


end
