(* ===== verification/Airvpn_Json.thy ===== *)
theory Airvpn_Json
  imports Ipc_Json
begin

text \<open>
  The server list of \<^verbatim>\<open>vpnmgr-core/src/airvpn.rs\<close> as JSON: what the \<^verbatim>\<open>serde\<close> attributes of its
  types make of the API's answer, in place of the decoder that \<open>from_json\<close> is given. As in the
  protocol, only decoding from objects is modelled; what parses the text is a parameter.
\<close>

section \<open>Decoding\<close>

text \<open>\<^verbatim>\<open>#[serde(other)]\<close>: any other name.\<close>

fun get_health :: "json \<Rightarrow> health option" where
  "get_health (JStr s) =
     Some (if s = ''ok'' then HealthOk else if s = ''error'' then HealthError else HealthUnknown)"
| "get_health _ = None"

fun de_v4 :: "json \<Rightarrow> 32 word option" where
  "de_v4 (JStr s) = parse_v4 s"
| "de_v4 _ = None"

fun de_v6 :: "json \<Rightarrow> 128 word option" where
  "de_v6 (JStr s) = parse_v6 s"
| "de_v6 _ = None"

definition get_srv :: "json \<Rightarrow> server option" where
  "get_srv = de_object (\<lambda>fs. do {
     name \<leftarrow> field de_str ''public_name'' fs;
     country \<leftarrow> field de_str ''country_name'' fs;
     code \<leftarrow> field de_str ''country_code'' fs;
     location \<leftarrow> field de_str ''location'' fs;
     cont \<leftarrow> field de_str ''continent'' fs;
     b \<leftarrow> field de_word ''bw'' fs;
     most \<leftarrow> field de_word ''bw_max'' fs;
     users \<leftarrow> field de_word ''users'' fs;
     percent \<leftarrow> field de_word ''currentload'' fs;
     health \<leftarrow> field get_health ''health'' fs;
     warning \<leftarrow> opt_field de_str ''warning'' fs;
     ipv4 \<leftarrow> field de_v4 ''ip_v4_in1'' fs;
     ipv4_alt \<leftarrow> opt_field de_v4 ''ip_v4_in3'' fs;
     ipv6 \<leftarrow> opt_field de_v6 ''ip_v6_in1'' fs;
     Some \<lparr>srv_name = name, country_name = country, country_code = code, srv_location = location,
       continent = cont, bw = b, bw_max = most, srv_users = users, srv_load = percent, srv_health = health,
       srv_warning = warning, wg_ipv4 = ipv4, wg_ipv4_alt = ipv4_alt, wg_ipv6 = ipv6\<rparr> })"

definition get_list :: "json \<Rightarrow> server_list option" where
  "get_list = de_object (\<lambda>fs. do {
     servers \<leftarrow> field (de_list get_srv) ''servers'' fs;
     outcome \<leftarrow> opt_field de_str ''result'' fs;
     Some \<lparr>sl_servers = servers, sl_result = outcome\<rparr> })"

text \<open>\<^verbatim>\<open>serde_json::from_str\<close> at the type of a list.\<close>

definition decode_list :: "json_text \<Rightarrow> string \<Rightarrow> string + server_list" where
  "decode_list jt = reads jt get_list"

section \<open>Lemmas\<close>

lemma each_Some: "each d vs = Some xs \<longleftrightarrow> map d vs = map Some xs"
  by (induction vs arbitrary: xs) (auto split: option.split)

lemma each_None: "v \<in> set vs \<Longrightarrow> d v = None \<Longrightarrow> each d vs = None"
  by (induction vs) (auto split: option.split)

text \<open>The entry of one field does not matter to another.\<close>

lemma field_other:
  "k' \<noteq> k \<Longrightarrow> field d k (fs @ (k', v) # gs) = field d k (fs @ gs)"
  "k' \<noteq> k \<Longrightarrow> field_or x d k (fs @ (k', v) # gs) = field_or x d k (fs @ gs)"
  by (simp_all add: field_def field_or_def)

text \<open>A server that is said to be in another state of health.\<close>

lemma get_srv_health:
  assumes "get_srv (JObj (fs @ (''health'', JStr h) # gs)) = Some s" and "get_health (JStr h') = Some x"
  shows "get_srv (JObj (fs @ (''health'', JStr h') # gs)) = Some (s\<lparr>srv_health := x\<rparr>)"
proof -
  have "field get_health ''health'' (fs @ (''health'', JStr h) # gs) \<noteq> None"
    using assms(1) by (auto simp: get_srv_def split: bind_splits)
  then have "length (values_at ''health'' fs @ JStr h # values_at ''health'' gs) = 1"
    by (cases "values_at ''health'' fs"; cases "values_at ''health'' gs") (auto simp: field_def split: list.splits)
  then have "values_at ''health'' fs = []" "values_at ''health'' gs = []" by simp_all
  then have h: "field get_health ''health'' (fs @ (''health'', JStr t) # gs) = get_health (JStr t)" for t
    by (simp add: field_def)
  show ?thesis
    using assms(1) unfolding get_srv_def de_object.simps h assms(2)
    by (auto simp: field_other split: bind_splits)
qed

lemma healthy_without:
  "healthy \<lparr>sl_servers = xs @ s\<lparr>srv_health := HealthUnknown\<rparr> # ys, sl_result = r\<rparr>
    = healthy \<lparr>sl_servers = xs @ ys, sl_result = r'\<rparr>"
  by (simp add: healthy_def is_healthy_def)

section \<open>Properties\<close>

definition api_answer :: "json list \<Rightarrow> json" where
  "api_answer vs = JObj [(''result'', JStr ''ok''), (''servers'', JArr vs)]"


text \<open>A witness: one server, whose state of health is new; and one without an address.\<close>

definition listed :: "string \<Rightarrow> (string \<times> json) list \<Rightarrow> json" where
  "listed h rest = JObj ([(''public_name'', JStr ''Achernar''), (''country_name'', JStr ''Netherlands''),
     (''country_code'', JStr ''nl''), (''location'', JStr ''Alblasserdam''), (''continent'', JStr ''Europe''),
     (''bw'', JInt 4000), (''bw_max'', JInt 20000), (''users'', JInt 120), (''currentload'', JInt 20)] @
     (''health'', JStr h) # rest)"

definition entry_one :: "(string \<times> json) list" where
  "entry_one = [(''ip_v4_in1'', JStr (show_v4 (wg_ipv4 sample_server)))]"

definition api_text :: json_text where
  "api_text = \<lparr>jt_print = \<lambda>_. [], jt_parse = \<lambda>s. Inr (api_answer [listed ''draining'' (if s = ''A'' then entry_one else [])]),
     jt_shape_error = \<lambda>_. ''missing field''\<rparr>"

lemma listed_read:
  "get_srv (listed ''ok'' entry_one) = Some (sample_server\<lparr>wg_ipv4_alt := None\<rparr>)" "get_srv (listed h []) = None"
  by (simp_all add: listed_def entry_one_def get_srv_def field_def field_or_def parse_v4_show_v4)
    (simp add: sample_server_def)


end
