(* ===== verification/Tray_Windows.thy ===== *)
theory Tray_Windows
  imports Tray_Linux Win_Sys
begin

text \<open>
  \<^verbatim>\<open>vpnmgr-tray/src/windows.rs\<close>: the tray on Windows. The snapshot it draws, the menu with the
  map from menu ids to actions, the loop that turns clicks into actions and snapshots into a
  new menu, the loop that polls the daemon and carries actions out, and the drawing of the
  icon (over the exact reals, where the code rounds to single precision). The shell's calls
  are outside; a fresh menu id is a parameter.
\<close>

section \<open>What it draws from\<close>

record snapshot =
  sn_status :: "status_report option"
  sn_ranking :: "ranked_server list"
  sn_servers :: "server_summary list"
  sn_unreachable :: "string option"
  sn_busy :: "string option"

definition snapshot_default :: snapshot where
  "snapshot_default =
     \<lparr>sn_status = None, sn_ranking = [], sn_servers = [], sn_unreachable = None, sn_busy = None\<rparr>"

definition wt_connected :: "snapshot \<Rightarrow> bool" where
  "wt_connected s \<longleftrightarrow> (case sn_status s of None \<Rightarrow> False | Some r \<Rightarrow> st_connected r)"

definition wt_baseline_line :: "snapshot \<Rightarrow> string option" where
  "wt_baseline_line s = Option.bind (sn_status s) baseline_text"

definition wt_headline :: "snapshot \<Rightarrow> string" where
  "wt_headline s = status_headline (sn_status s)"

definition tooltip :: "snapshot \<Rightarrow> string" where
  "tooltip s =
     wt_headline s @
     (case sn_status s of
        Some r \<Rightarrow>
          if st_connected r
          then nl @ human_bytes (st_tx_bytes r) @ '' up, '' @ human_bytes (st_rx_bytes r) @ '' down'' @
            (case st_last_handshake_secs r of
               Some age \<Rightarrow> nl @ ''handshake '' @ show_nat age @ ''s ago'' | None \<Rightarrow> [])
          else []
      | None \<Rightarrow> []) @
     (case wt_baseline_line s of Some b \<Rightarrow> nl @ b | None \<Rightarrow> []) @
     (case sn_busy s of Some b \<Rightarrow> nl @ b @ ellipsis | None \<Rightarrow> [])"

definition wt_seen_speed :: "ranked_server \<Rightarrow> string" where
  "wt_seen_speed s =
     (case (rk_mbps s, rk_mbps_age_secs s) of
        (Some mbps, Some age) \<Rightarrow> '', '' @ rate mbps @ '' '' @ measured_ago age
      | _ \<Rightarrow> [])"

definition wt_ranked_entry :: "ranked_server \<Rightarrow> string \<times> string" where
  "wt_ranked_entry s =
     (rk_name s,
      rk_name s @ '' '' @ emdash @ '' '' @ truncate_text (rk_location s) 22 @ '' ('' @
      fmt_prec 0 (rk_rtt_ms s) @ ''ms'' @ wt_seen_speed s @ '', '' @ show_nat (unat (rk_load s)) @
      ''% load, '' @ rate (f64_of_nat (unat (rk_headroom_mbps s))) @ '' free)'')"

definition wt_choices :: "snapshot \<Rightarrow> (string \<times> string) list" where
  "wt_choices s =
     (if sn_ranking s \<noteq> [] then map wt_ranked_entry (take QUICK_CONNECT_LIMIT (sn_ranking s))
      else map loaded_entry (take QUICK_CONNECT_LIMIT (sn_servers s)))"

section \<open>The menu\<close>

text \<open>
  The lines \<^verbatim>\<open>build_menu\<close> appends, in its order: text, enabled, and the action entered in the
  map; then the menu and the map they become, each item taking the next id.
\<close>

datatype wline = WLine string bool "action option" | WGroup string bool "(string \<times> action) list" | WSep

definition wt_info_lines :: "snapshot \<Rightarrow> wline list" where
  "wt_info_lines s =
     [WLine (wt_headline s) False None] @
     (case sn_unreachable s of Some r \<Rightarrow> [WLine (truncate_text r 60) False None] | None \<Rightarrow> []) @
     (case sn_busy s of Some b \<Rightarrow> [WLine (b @ ellipsis) False None] | None \<Rightarrow> []) @
     (case wt_baseline_line s of Some b \<Rightarrow> [WLine b False None] | None \<Rightarrow> [])"

definition wt_pending :: "snapshot \<Rightarrow> pending_switch option" where
  "wt_pending s = Option.bind (sn_status s) st_pending_switch"

definition wt_pending_lines :: "snapshot \<Rightarrow> wline list" where
  "wt_pending_lines s =
     (case wt_pending s of
        None \<Rightarrow> []
      | Some p \<Rightarrow>
          [WSep,
           WLine (''Suggested: '' @ rk_name (pd_to p) @ '' ('' @ truncate_text (pd_reason p) 40 @ '')'') False None,
           WLine ''Switch now'' True (Some AApprove),
           WLine ''Keep the current server'' True (Some ADismiss)])"

definition wt_connect_lines :: "snapshot \<Rightarrow> wline list" where
  "wt_connect_lines s =
     (let reachable = sn_status s \<noteq> None in
      if wt_connected s then [WLine ''Disconnect'' reachable (Some ADisconnect)]
      else [WLine ''Connect to best server'' reachable (Some (AConnect None (Some False))),
            WLine ''Measure and connect'' reachable (Some (AConnect None (Some True)))])"

definition wt_choice_lines :: "snapshot \<Rightarrow> wline list" where
  "wt_choice_lines s =
     (if wt_choices s \<noteq> []
      then [WGroup ''Connect to'' (sn_status s \<noteq> None)
              (map (\<lambda>(name, label). (label, AConnect (Some name) (Some False))) (wt_choices s))]
      else [])"

definition wt_lines :: "snapshot \<Rightarrow> wline list" where
  "wt_lines s =
     wt_info_lines s @ wt_pending_lines s @ [WSep] @ wt_connect_lines s @ wt_choice_lines s @
     [WLine ''Test servers now'' (sn_status s \<noteq> None) (Some AAutotune)] @
     (case Option.bind (sn_status s) st_config_path of
        Some path \<Rightarrow> [WLine (''Edit configuration'' @ ellipsis) True (Some (AEditConfig path))]
      | None \<Rightarrow> []) @
     [WSep, WLine ''Quit'' True (Some AQuit)]"

record 'id wbutton =
  wb_id :: 'id
  wb_label :: string
  wb_enabled :: bool

datatype 'id witem = WItem "'id wbutton" | WSubmenu string bool "'id wbutton list" | WSeparator

definition wbutton_of :: "'id \<Rightarrow> string \<Rightarrow> bool \<Rightarrow> 'id wbutton" where
  "wbutton_of i label enabled = \<lparr>wb_id = i, wb_label = label, wb_enabled = enabled\<rparr>"

text \<open>\<open>ids k\<close> is the id of the \<open>k\<close>th item made; \<open>n\<close> items were made before.\<close>

fun lay_out :: "(nat \<Rightarrow> 'id) \<Rightarrow> nat \<Rightarrow> wline list \<Rightarrow> 'id witem list \<times> ('id \<times> action) list \<times> nat" where
  "lay_out ids n [] = ([], [], n)"
| "lay_out ids n (WSep # ls) =
     (case lay_out ids n ls of (m, es, n1) \<Rightarrow> (WSeparator # m, es, n1))"
| "lay_out ids n (WLine label enabled a # ls) =
     (case lay_out ids (Suc n) ls of
        (m, es, n1) \<Rightarrow>
          (WItem (wbutton_of (ids n) label enabled) # m,
           (case a of Some x \<Rightarrow> [(ids n, x)] | None \<Rightarrow> []) @ es, n1))"
| "lay_out ids n (WGroup label enabled picks # ls) =
     (let ns = [n ..< n + length picks] in
      case lay_out ids (n + length picks) ls of
        (m, es, n1) \<Rightarrow>
          (WSubmenu label enabled (map (\<lambda>(k, l, a). wbutton_of (ids k) l True) (zip ns picks)) # m,
           map (\<lambda>(k, l, a). (ids k, a)) (zip ns picks) @ es, n1))"

definition build_menu :: "(nat \<Rightarrow> 'id) \<Rightarrow> nat \<Rightarrow> snapshot
    \<Rightarrow> 'id witem list \<times> ('id \<times> action) list \<times> nat" where
  "build_menu ids n s = lay_out ids n (wt_lines s)"

definition action_for :: "('id \<times> action) list \<Rightarrow> 'id \<Rightarrow> action option" where
  "action_for entries i = map_option snd (find (\<lambda>(candidate, _). candidate = i) entries)"

section \<open>The icon\<close>

definition state_colour :: "snapshot \<Rightarrow> 8 word \<times> 8 word \<times> 8 word" where
  "state_colour s =
     (case sn_status s of
        None \<Rightarrow> (0x75, 0x75, 0x75)
      | Some r \<Rightarrow>
          if \<not> st_connected r then (0x75, 0x75, 0x75)
          else if \<not> st_healthy r then (0xd3, 0x2f, 0x2f)
          else (0x2e, 0x7d, 0x32))"

definition SHOULDER :: real where "SHOULDER = 45 / 100"
definition CORNER :: real where "CORNER = 22 / 100"

definition half_width :: "real \<Rightarrow> real" where
  "half_width y =
     (let half = (if y \<le> SHOULDER then 1 else sqrt (max (1 - (y - SHOULDER) / (1 - SHOULDER)) 0))
      in if y < CORNER
         then let dy = (CORNER - y) / CORNER in half - (1 - sqrt (max (1 - dy * dy) 0)) * CORNER
         else half)"

definition shield_coverage :: "real \<Rightarrow> real \<Rightarrow> real" where
  "shield_coverage x y =
     (if \<not> (0 \<le> y \<and> y \<le> 1) then 0 else if \<bar>x\<bar> \<le> half_width y then 1 else 0)"

definition ICON_SIZE :: nat where "ICON_SIZE = 32"
definition ICON_SAMPLES :: nat where "ICON_SAMPLES = 3"

definition sample_at :: "nat \<Rightarrow> nat \<Rightarrow> real" where
  "sample_at p s = real p + (real s + 1 / 2) / real ICON_SAMPLES"

definition icon_x :: "real \<Rightarrow> real" where
  "icon_x fx = (fx - real ICON_SIZE / 2) / (real ICON_SIZE / 2 - 1)"

definition icon_y :: "real \<Rightarrow> real" where
  "icon_y fy = (fy - 1) / (real ICON_SIZE - 2)"

definition covered :: "nat \<Rightarrow> nat \<Rightarrow> real" where
  "covered px py =
     sum_list (map (\<lambda>sy. sum_list (map (\<lambda>sx.
         shield_coverage (icon_x (sample_at px sx)) (icon_y (sample_at py sy)))
       [0 ..< ICON_SAMPLES])) [0 ..< ICON_SAMPLES])"

definition alpha :: "nat \<Rightarrow> nat \<Rightarrow> 8 word" where
  "alpha px py = word_of_int \<lfloor>covered px py / real (ICON_SAMPLES * ICON_SAMPLES) * 255 + 1 / 2\<rfloor>"

definition icon_pixels :: "snapshot \<Rightarrow> 8 word list" where
  "icon_pixels s =
     (case state_colour s of
        (r, g, b) \<Rightarrow>
          concat (map (\<lambda>py. concat (map (\<lambda>px. [r, g, b, alpha px py]) [0 ..< ICON_SIZE])) [0 ..< ICON_SIZE]))"

section \<open>The message loop\<close>

text \<open>What the shell shows, and the loop's own state.\<close>

record 'id view =
  vw_menu :: "'id witem list"
  vw_map :: "('id \<times> action) list"
  vw_made :: nat
  vw_tooltip :: string
  vw_icon :: "8 word list"
  vw_announced :: bool

definition view_start :: "(nat \<Rightarrow> 'id) \<Rightarrow> 'id view" where
  "view_start ids =
     (case build_menu ids 0 snapshot_default of
        (m, es, n) \<Rightarrow>
          \<lparr>vw_menu = m, vw_map = es, vw_made = n, vw_tooltip = ''vpnmgrd is not reachable'',
           vw_icon = icon_pixels snapshot_default, vw_announced = False\<rparr>)"

text \<open>Clicks, in order: the actions sent, and whether the program ends.\<close>

fun take_clicks :: "('id \<times> action) list \<Rightarrow> 'id list \<Rightarrow> action list \<times> bool" where
  "take_clicks es [] = ([], False)"
| "take_clicks es (i # is) =
     (case action_for es i of
        None \<Rightarrow> take_clicks es is
      | Some a \<Rightarrow>
          if a = AQuit then ([], True)
          else (case take_clicks es is of (as, q) \<Rightarrow> (a # as, q)))"

text \<open>A snapshot arrives: whether a proposal is announced, and the new view.\<close>

definition show_snapshot :: "(nat \<Rightarrow> 'id) \<Rightarrow> snapshot \<Rightarrow> 'id view \<Rightarrow> bool \<times> 'id view" where
  "show_snapshot ids s v =
     (let pending = wt_pending s \<noteq> None in
      case build_menu ids (vw_made v) s of
        (m, es, n) \<Rightarrow>
          (pending \<and> \<not> vw_announced v,
           \<lparr>vw_menu = m, vw_map = es, vw_made = n, vw_tooltip = tooltip s,
            vw_icon = icon_pixels s, vw_announced = pending\<rparr>))"

fun show_snapshots :: "(nat \<Rightarrow> 'id) \<Rightarrow> snapshot list \<Rightarrow> 'id view \<Rightarrow> bool list \<times> 'id view" where
  "show_snapshots ids [] v = ([], v)"
| "show_snapshots ids (s # ss) v =
     (case show_snapshot ids s v of
        (b, v1) \<Rightarrow> (case show_snapshots ids ss v1 of (bs, v2) \<Rightarrow> (b # bs, v2)))"

text \<open>One turn: the clicks first, then the snapshots; \<open>None\<close> when the program ends.\<close>

definition turn :: "(nat \<Rightarrow> 'id) \<Rightarrow> 'id list \<Rightarrow> snapshot list \<Rightarrow> 'id view
    \<Rightarrow> action list \<times> (bool list \<times> 'id view) option" where
  "turn ids clicks ss v =
     (case take_clicks (vw_map v) clicks of
        (as, True) \<Rightarrow> (as, None)
      | (as, False) \<Rightarrow> (as, Some (show_snapshots ids ss v)))"

section \<open>The loop that talks to the daemon\<close>

definition wt_ask_status :: "'w desk \<Rightarrow> snapshot \<Rightarrow> 'w \<Rightarrow> snapshot \<times> 'w" where
  "wt_ask_status dk s w =
     (case ask_status Windows dk w of
        ((st, why), w1) \<Rightarrow> (s\<lparr>sn_status := st, sn_unreachable := why\<rparr>, w1))"

definition wt_refresh :: "'w desk \<Rightarrow> string option \<Rightarrow> 'w \<Rightarrow> snapshot \<times> 'w" where
  "wt_refresh dk busy w =
     (case wt_ask_status dk (snapshot_default\<lparr>sn_busy := busy\<rparr>) w of
        (s, w1) \<Rightarrow>
     (if sn_status s = None then (s, w1)
      else case ask_ranking dk w1 of
        (ranking, w2) \<Rightarrow>
     (let s1 = s\<lparr>sn_ranking := ranking\<rparr> in
      if ranking = []
      then (case ask_servers dk w2 of
              (Some ss, w3) \<Rightarrow> (s1\<lparr>sn_servers := ss\<rparr>, w3)
            | (None, w3) \<Rightarrow> (s1, w3))
      else (s1, w2))))"

fun wt_request :: "action \<Rightarrow> (request \<times> string) option" where
  "wt_request (AConnect server m) = Some (ReqConnect server m, ''Connecting'')"
| "wt_request ADisconnect = Some (ReqDisconnect, ''Disconnecting'')"
| "wt_request AAutotune = Some (ReqAutotune, ''Testing servers'')"
| "wt_request AApprove = Some (ReqApprove, ''Switching'')"
| "wt_request ADismiss = Some (ReqDismiss, ''Dismissing'')"
| "wt_request (AEditConfig _) = None"
| "wt_request AQuit = None"

text \<open>The script that opens the editor: the path stands in a quoted literal.\<close>

definition EDIT_SCRIPT_HEAD :: string where
  "EDIT_SCRIPT_HEAD =
     str_join nl
      [[],
       ''$path = '' @ sq]"

definition EDIT_SCRIPT_TAIL :: string where
  "EDIT_SCRIPT_TAIL =
     str_join nl
      [sq,
       ''$ext = [IO.Path]::GetExtension($path)'',
       ''$progId = $null'',
       ''try {'',
       ''  $key = '' @ dq @ ''HKCU:'' @ backslash @ ''SOFTWARE'' @ backslash @ ''Microsoft'' @
         backslash @ ''Windows'' @ backslash @ ''CurrentVersion'' @ backslash @ ''Explorer'' @
         backslash @ ''FileExts'' @ backslash @ ''$ext'' @ backslash @ ''UserChoice'' @ dq,
       ''  $progId = (Get-ItemProperty $key -ErrorAction Stop).ProgId'',
       ''} catch {}'',
       ''if (-not $progId) {'',
       ''  try { $progId = (Get-Item '' @ dq @ ''Registry::HKEY_CLASSES_ROOT'' @ backslash @
         ''$ext'' @ dq @ '' -ErrorAction Stop).GetValue('' @ sq @ sq @ '') } catch {}'',
       ''}'',
       ''# .toml is very often associated with nothing at all, and a config file is a'',
       ''# text file, so the editor chosen for .txt is a far better answer than the'',
       ''# fallback below -- it is what '' @ dq @ ''my default text editor'' @ dq @
         '' means to the person'',
       ''# who set it.'',
       ''if (-not $progId) {'',
       ''  try {'',
       ''    $key = '' @ dq @ ''HKCU:'' @ backslash @ ''SOFTWARE'' @ backslash @ ''Microsoft'' @
         backslash @ ''Windows'' @ backslash @ ''CurrentVersion'' @ backslash @ ''Explorer'' @
         backslash @ ''FileExts'' @ backslash @ ''.txt'' @ backslash @ ''UserChoice'' @ dq,
       ''    $progId = (Get-ItemProperty $key -ErrorAction Stop).ProgId'',
       ''  } catch {}'',
       ''}'',
       ''if (-not $progId) {'',
       ''  try { $progId = (Get-Item '' @ dq @ ''Registry::HKEY_CLASSES_ROOT'' @ backslash @
         ''.txt'' @ dq @ '' -ErrorAction Stop).GetValue('' @ sq @ sq @ '') } catch {}'',
       ''}'',
       ''$cmd = $null'',
       ''if ($progId) {'',
       ''  try {'',
       ''    $cmd = (Get-Item '' @ dq @ ''Registry::HKEY_CLASSES_ROOT'' @ backslash @
         ''$progId'' @ backslash @ ''shell'' @ backslash @ ''open'' @ backslash @ ''command'' @
         dq @ '' -ErrorAction Stop).GetValue('' @ sq @ sq @ '')'',
       ''  } catch {}'',
       ''}'',
       ''$exe = '' @ sq @ ''notepad.exe'' @ sq,
       ''if ($cmd) {'',
       ''  $expanded = [Environment]::ExpandEnvironmentVariables($cmd)'',
       ''  if ($expanded -match '' @ sq @ ''^'' @ backslash @ ''s*'' @ dq @ ''([^'' @ dq @
         '']+)'' @ dq @ sq @ '') { $exe = $Matches[1] }'',
       ''  elseif ($expanded -match '' @ sq @ ''^'' @ backslash @ ''s*('' @ backslash @
         ''S+)'' @ sq @ '') { $exe = $Matches[1] }'',
       ''}'',
       ''# A handler that is not a plain executable -- a shell verb routed through'',
       ''# rundll32, say -- would be launched with arguments it cannot understand.'',
       ''if (-not ($exe -like '' @ sq @ ''*.exe'' @ sq @ '')) { $exe = '' @ sq @
         ''notepad.exe'' @ sq @ '' }'',
       ''Start-Process -FilePath $exe -Verb RunAs -Wait -ArgumentList $path'',
       []]"

fun double_quotes :: "string \<Rightarrow> string" where
  "double_quotes [] = []"
| "double_quotes (c # s) = (if c = CHR 0x27 then [c, c] else [c]) @ double_quotes s"

definition edit_script :: "string \<Rightarrow> string" where
  "edit_script path = EDIT_SCRIPT_HEAD @ double_quotes path @ EDIT_SCRIPT_TAIL"

definition wt_edit_config :: "'w desk \<Rightarrow> string \<Rightarrow> 'w \<Rightarrow> 'w" where
  "wt_edit_config dk path w = snd (dk_spawn dk ''powershell'' (ps_args (edit_script path)) w)"

text \<open>
  One event of the loop: the snapshots it sends, in order; \<open>None\<close> when the loop returns. The
  reply to a request is not looked at.
\<close>

datatype wt_event = Tick | Raised action

fun loop_step :: "'w desk \<Rightarrow> wt_event \<Rightarrow> 'w \<Rightarrow> (snapshot list \<times> 'w) option" where
  "loop_step dk Tick w = (case wt_refresh dk None w of (s, w1) \<Rightarrow> Some ([s], w1))"
| "loop_step dk (Raised (AEditConfig path)) w =
     (case dk_ask dk ReqReload (wt_edit_config dk path w) of
        (_, w1) \<Rightarrow> (case wt_refresh dk None w1 of (s, w2) \<Rightarrow> Some ([s], w2)))"
| "loop_step dk (Raised a) w =
     (case wt_request a of
        None \<Rightarrow> None
      | Some (rq, busy) \<Rightarrow>
     (case wt_refresh dk (Some busy) w of
        (s, w1) \<Rightarrow>
     (case dk_ask dk rq w1 of
        (_, w2) \<Rightarrow>
     (case wt_refresh dk None w2 of
        (s1, w3) \<Rightarrow> Some ([s, s1], w3)))))"

section \<open>One instance\<close>

text \<open>On the handle and the error code of creating the named mutex.\<close>

definition single_instance :: "bool \<Rightarrow> 32 word \<Rightarrow> bool" where
  "single_instance null_handle last_error = (if null_handle then True else last_error \<noteq> 183)"

section \<open>Ids and actions\<close>

text \<open>The buttons of a menu, and the texts and actions of its lines, in order.\<close>

fun item_buttons :: "'id witem \<Rightarrow> 'id wbutton list" where
  "item_buttons (WItem b) = [b]"
| "item_buttons (WSubmenu _ _ bs) = bs"
| "item_buttons WSeparator = []"

definition buttons :: "'id witem list \<Rightarrow> 'id wbutton list" where
  "buttons m = concat (map item_buttons m)"

fun line_actions :: "wline \<Rightarrow> (string \<times> action option) list" where
  "line_actions (WLine l _ a) = [(l, a)]"
| "line_actions (WGroup _ _ picks) = map (\<lambda>(l, a). (l, Some a)) picks"
| "line_actions WSep = []"

definition lines_actions :: "wline list \<Rightarrow> (string \<times> action option) list" where
  "lines_actions ls = concat (map line_actions ls)"

lemma buttons_simps [simp]: "buttons [] = []" "buttons (x # m) = item_buttons x @ buttons m"
  by (simp_all add: buttons_def)

lemma lines_actions_simps [simp]:
  "lines_actions [] = []" "lines_actions (l # ls) = line_actions l @ lines_actions ls"
  by (simp_all add: lines_actions_def)

lemma numbered_Cons: "zip [n ..< n + length (x # xs)] (x # xs) = (n, x) # zip [Suc n ..< Suc n + length xs] xs"
  by (simp add: upt_conv_Cons del: upt_Suc)

lemma numbered_buttons:
  "map wb_id (map (\<lambda>(k, l, a). wbutton_of (ids k) l True) (zip [n ..< n + length ps] ps)) =
     map ids [n ..< n + length ps]"
  "map wb_label (map (\<lambda>(k, l, a). wbutton_of (ids k) l True) (zip [n ..< n + length ps] ps)) = map fst ps"
proof (induction ps arbitrary: n)
  case (Cons p ps)
  { case 1
    show ?case
      using Cons(1) [of "Suc n"] unfolding numbered_Cons
      by (cases p) (simp add: wbutton_of_def upt_conv_Cons del: upt_Suc) }
  { case 2
    show ?case
      using Cons(2) [of "Suc n"] unfolding numbered_Cons
      by (cases p) (simp add: wbutton_of_def del: upt_Suc) }
qed simp_all

lemma lay_out_buttons:
  "lay_out ids n ls = (m, es, n1) \<Longrightarrow>
     n1 = n + length (lines_actions ls) \<and> map wb_id (buttons m) = map ids [n ..< n1] \<and>
     map wb_label (buttons m) = map fst (lines_actions ls)"
proof (induction ls arbitrary: n m es n1)
  case (Cons l ls)
  show ?case
  proof (cases l)
    case (WLine label enabled a)
    obtain m1 es1 where 1: "lay_out ids (Suc n) ls = (m1, es1, n1)"
        "m = WItem (wbutton_of (ids n) label enabled) # m1"
      using Cons.prems WLine by (auto split: prod.splits)
    show ?thesis
      using Cons.IH [OF 1(1)] 1(2) WLine by (simp add: wbutton_of_def upt_conv_Cons del: upt_Suc)
  next
    case (WGroup label enabled picks)
    obtain m1 es1 where 1: "lay_out ids (n + length picks) ls = (m1, es1, n1)"
        "m = WSubmenu label enabled
           (map (\<lambda>(k, l, a). wbutton_of (ids k) l True) (zip [n ..< n + length picks] picks)) # m1"
      using Cons.prems WGroup by (auto simp: Let_def split: prod.splits)
    have split: "[n ..< n + length picks + j] = [n ..< n + length picks] @ [n + length picks ..< n + length picks + j]" for j
      by (rule upt_add_eq_append) simp
    show ?thesis
      using Cons.IH [OF 1(1)] unfolding 1(2) WGroup buttons_simps lines_actions_simps item_buttons.simps
        line_actions.simps map_append numbered_buttons
      by (simp add: split comp_def case_prod_beta add.assoc [symmetric])
  next
    case WSep
    then show ?thesis using Cons.prems Cons.IH [of n] by (auto split: prod.splits)
  qed
qed simp

lemma action_for_simps [simp]:
  "action_for [] i = None"
  "action_for ((j, a) # es) i = (if j = i then Some a else action_for es i)"
  by (simp_all add: action_for_def)

lemma action_for_append:
  "action_for (xs @ ys) i = (case action_for xs i of Some a \<Rightarrow> Some a | None \<Rightarrow> action_for ys i)"
  by (induction xs) auto

lemma action_for_picks:
  assumes "inj ids"
  shows "action_for (map (\<lambda>(k, l, a). (ids k, a)) (zip [n ..< n + length ps] ps)) (ids k) =
    (if n \<le> k \<and> k < n + length ps then Some (snd (ps ! (k - n))) else None)"
proof (induction ps arbitrary: n)
  case (Cons p ps)
  have "k - n = Suc (k - Suc n)" if "Suc n \<le> k" using that by simp
  then show ?case
    using Cons.IH [of "Suc n"] assms unfolding numbered_Cons
    by (cases p) (auto simp: inj_eq simp del: upt_Suc)
qed (simp add: not_less)

lemma lay_out_action:
  assumes "inj ids"
  shows "lay_out ids n ls = (m, es, n1) \<Longrightarrow>
     action_for es (ids k) = (if n \<le> k \<and> k < n1 then snd (lines_actions ls ! (k - n)) else None)"
proof (induction ls arbitrary: n m es n1)
  case (Cons l ls)
  show ?case
  proof (cases l)
    case (WLine label enabled a)
    obtain m1 es1 where 1: "lay_out ids (Suc n) ls = (m1, es1, n1)"
        "es = (case a of Some x \<Rightarrow> [(ids n, x)] | None \<Rightarrow> []) @ es1"
      using Cons.prems WLine by (auto split: prod.splits)
    have "k - n = Suc (k - Suc n)" if "Suc n \<le> k" using that by simp
    moreover have "n < n1" using lay_out_buttons [OF 1(1)] by simp
    ultimately show ?thesis
      using Cons.IH [OF 1(1)] assms unfolding 1(2) WLine
      by (auto simp: inj_eq Suc_le_eq not_less_eq split: option.split)
  next
    case (WGroup label enabled picks)
    obtain m1 es1 where 1: "lay_out ids (n + length picks) ls = (m1, es1, n1)"
        "es = map (\<lambda>(k, l, a). (ids k, a)) (zip [n ..< n + length picks] picks) @ es1"
      using Cons.prems WGroup by (auto simp: Let_def split: prod.splits)
    have b: "n1 = n + length picks + length (lines_actions ls)" using lay_out_buttons [OF 1(1)] by simp
    show ?thesis
      using Cons.IH [OF 1(1)] b unfolding 1(2) WGroup action_for_append action_for_picks [OF assms]
      by (auto simp: nth_append case_prod_beta)
  next
    case WSep
    then show ?thesis using Cons.prems Cons.IH [of n] by (auto split: prod.splits)
  qed
qed auto

section \<open>What the menu asks for\<close>

definition wt_offered :: "wline list \<Rightarrow> action list" where
  "wt_offered ls =
     concat (map (\<lambda>l. case l of
        WLine _ True (Some a) \<Rightarrow> [a]
      | WGroup _ True picks \<Rightarrow> map snd picks
      | _ \<Rightarrow> []) ls)"

lemma wt_offered_simps [simp]:
  "wt_offered [] = []"
  "wt_offered (WLine t e a # ls) = (case a of Some x \<Rightarrow> if e then [x] else [] | None \<Rightarrow> []) @ wt_offered ls"
  "wt_offered (WGroup t e ps # ls) = (if e then map snd ps else []) @ wt_offered ls"
  "wt_offered (WSep # ls) = wt_offered ls"
  "wt_offered (xs @ ys) = wt_offered xs @ wt_offered ys"
  by (simp_all add: wt_offered_def split: option.split bool.split)

lemma wt_offered_menu:
  assumes "a \<in> set (wt_offered (wt_lines s))"
  shows "a = AQuit \<or> a = AAutotune \<or> (\<exists>p. a = AEditConfig p) \<or> a = ADisconnect \<and> wt_connected s \<or>
    (\<exists>m. a = AConnect None m) \<and> \<not> wt_connected s \<or> (\<exists>n. a = AConnect (Some n) (Some False)) \<or>
    (a = AApprove \<or> a = ADismiss) \<and> wt_pending s \<noteq> None"
  using assms
  by (auto simp: wt_lines_def wt_info_lines_def wt_pending_lines_def wt_connect_lines_def
      wt_choice_lines_def Let_def split: option.splits if_splits)

lemma wt_refresh_daemon:
  assumes "wt_refresh (daemon_desk cd env dk) busy st = (s, st1)"
  shows "sn_status s = Some (fst (status env st))"
    and "sn_ranking s = last_ranking env (Some QUICK_CONNECT_LIMIT) (snd (status env st))"
    and "same_conn st st1" and "sn_busy s = busy" and "sn_unreachable s = None"
proof -
  obtain r st0 where s: "status env st = (r, st0)" by fastforce
  obtain q st2 where q: "servers env None (Some QUICK_CONNECT_LIMIT) False st0 = (q, st2)" by fastforce
  note run = assms [unfolded wt_refresh_def wt_ask_status_def ask_status_daemon ask_ranking_daemon
      ask_servers_daemon s, simplified, unfolded q]
  show "sn_status s = Some (fst (status env st))" "sn_busy s = busy" "sn_unreachable s = None"
      "sn_ranking s = last_ranking env (Some QUICK_CONNECT_LIMIT) (snd (status env st))"
    using run s by (auto simp: Let_def snapshot_default_def split: if_splits sum.splits)
  have "st1 = st0 \<or> st1 = st2"
    using run by (auto simp: Let_def split: if_splits sum.splits)
  then show "same_conn st st1"
    using status_frame [OF s] servers_frame [OF q] same_conn_trans by blast
qed

lemma wt_refresh_linked:
  assumes "wt_refresh (daemon_desk cd env dk) busy st = (s, st1)"
  shows "wt_connected s \<longleftrightarrow> ds_current st1 \<noteq> None"
    and "wt_pending s \<noteq> None \<longleftrightarrow> ds_pending st1 \<noteq> None"
proof -
  note r = wt_refresh_daemon [OF assms]
  show "wt_connected s \<longleftrightarrow> ds_current st1 \<noteq> None"
    using r(1,3) by (simp add: wt_connected_def status_connected same_conn_def)
  show "wt_pending s \<noteq> None \<longleftrightarrow> ds_pending st1 \<noteq> None"
    using r(1,3) status_pending [of env st] by (simp add: wt_pending_def same_conn_def)
qed

section \<open>The drawing\<close>

lemma shield_mirror [simp]: "shield_coverage (- x) y = shield_coverage x y"
  by (simp add: shield_coverage_def)

lemma sample_mirror:
  assumes "p < ICON_SIZE" and "s < ICON_SAMPLES"
  shows "icon_x (sample_at (ICON_SIZE - 1 - p) (ICON_SAMPLES - 1 - s)) = - icon_x (sample_at p s)"
proof -
  have "real (ICON_SIZE - 1 - p) = real ICON_SIZE - 1 - real p"
      "real (ICON_SAMPLES - 1 - s) = real ICON_SAMPLES - 1 - real s"
    using assms by (simp_all add: of_nat_diff)
  then show ?thesis
    by (simp add: icon_x_def sample_at_def ICON_SIZE_def ICON_SAMPLES_def field_simps)
qed

lemma covered_mirror:
  assumes "px < ICON_SIZE"
  shows "covered (ICON_SIZE - 1 - px) py = covered px py"
proof -
  have all: "[0 ..< ICON_SAMPLES] = [0, 1, 2]"
    by (simp add: ICON_SAMPLES_def upt_conv_Cons numeral_3_eq_3)
  have m: "shield_coverage (icon_x (sample_at (ICON_SIZE - 1 - px) (2 - s))) y =
      shield_coverage (icon_x (sample_at px s)) y" if "s < 3" for s y
    using sample_mirror [OF assms, of s] that by (simp add: ICON_SAMPLES_def)
  have "shield_coverage (icon_x (sample_at (ICON_SIZE - 1 - px) 2)) y = shield_coverage (icon_x (sample_at px 0)) y"
      "shield_coverage (icon_x (sample_at (ICON_SIZE - 1 - px) 1)) y = shield_coverage (icon_x (sample_at px 1)) y"
      "shield_coverage (icon_x (sample_at (ICON_SIZE - 1 - px) 0)) y = shield_coverage (icon_x (sample_at px 2)) y"
    for y
    using m [of 0 y] m [of 1 y] m [of 2 y] by (simp_all add: numeral_2_eq_2)
  then show ?thesis unfolding covered_def all by (simp add: add.commute add.left_commute)
qed

lemma half_width_narrows:
  assumes "SHOULDER \<le> y" and "y \<le> y'"
  shows "half_width y' \<le> half_width y"
proof -
  have c: "half_width z = sqrt (max (1 - (z - SHOULDER) / (1 - SHOULDER)) 0)" if "SHOULDER \<le> z" for z
    using that by (auto simp: half_width_def SHOULDER_def CORNER_def)
  have "1 - (y' - SHOULDER) / (1 - SHOULDER) \<le> 1 - (y - SHOULDER) / (1 - SHOULDER)"
    using assms(2) by (simp add: SHOULDER_def divide_right_mono)
  then have "max (1 - (y' - SHOULDER) / (1 - SHOULDER)) 0 \<le> max (1 - (y - SHOULDER) / (1 - SHOULDER)) 0"
    by (rule max.mono) simp
  then show ?thesis using c assms by simp
qed

lemma length_same: "(\<And>x. x \<in> set xs \<Longrightarrow> length (f x) = k) \<Longrightarrow> length (concat (map f xs)) = k * length xs"
  by (induction xs) simp_all

section \<open>Properties\<close>

text \<open>In the menu built from a snapshot every item has an id of its own, a
click on it is the action of its line and on a line of information nothing, and a click
still under way from a menu that has been replaced is dropped.\<close>

lemma a_click_means_its_item:
  assumes "inj ids" and "build_menu ids n s = (m, es, n1)"
  shows "map (\<lambda>b. (wb_label b, action_for es (wb_id b))) (buttons m) = lines_actions (wt_lines s) \<and>
    distinct (map wb_id (buttons m)) \<and> (\<forall>k<n. action_for es (ids k) = None)"
proof -
  note l = assms(2) [unfolded build_menu_def]
  note b = lay_out_buttons [OF l] and a = lay_out_action [OF assms(1) l]
  have len: "length (buttons m) = length (lines_actions (wt_lines s))"
    using b by (metis length_map)
  have nth: "wb_label (buttons m ! k) = fst (lines_actions (wt_lines s) ! k)"
      "wb_id (buttons m ! k) = ids (n + k)" if "k < length (buttons m)" for k
  proof -
    have "map wb_label (buttons m) ! k = map fst (lines_actions (wt_lines s)) ! k"
        "map wb_id (buttons m) ! k = map ids [n ..< n1] ! k"
      using b by simp_all
    then show "wb_label (buttons m ! k) = fst (lines_actions (wt_lines s) ! k)"
        "wb_id (buttons m ! k) = ids (n + k)"
      using that len conjunct1 [OF b] by simp_all
  qed
  have "map (\<lambda>b. (wb_label b, action_for es (wb_id b))) (buttons m) = lines_actions (wt_lines s)"
  proof (rule nth_equalityI)
    fix k assume "k < length (map (\<lambda>b. (wb_label b, action_for es (wb_id b))) (buttons m))"
    then have k: "k < length (buttons m)" by simp
    then have "n + k < n1" using len conjunct1 [OF b] by simp
    then have "action_for es (ids (n + k)) = snd (lines_actions (wt_lines s) ! k)"
      using a [of "n + k"] by simp
    then show "map (\<lambda>b. (wb_label b, action_for es (wb_id b))) (buttons m) ! k = lines_actions (wt_lines s) ! k"
      using nth [OF k] k by (simp add: prod_eq_iff)
  qed (simp add: len)
  moreover have "distinct (map wb_id (buttons m))"
  proof -
    have "map wb_id (buttons m) = map ids [n ..< n1]" using b by blast
    moreover have "inj_on ids (set [n ..< n1])" using assms(1) by (rule inj_on_subset) simp
    ultimately show ?thesis by (simp only: distinct_map distinct_upt simp_thms)
  qed
  moreover have "\<forall>k<n. action_for es (ids k) = None" using a by simp
  ultimately show ?thesis by blast
qed

text \<open>On Windows a server picked from the menu while connected is always
refused as already connected and changes nothing, for the menu asks to connect where it
would have to switch (the tunnel handle and the connection record agreeing, as they do in
every state the daemon reaches). Everything else the menu of a fresh snapshot offers fits the daemon's
state, but for approving a proposal that has outlived its connection.\<close>

lemma windows_picks_are_refused:
  assumes "linked st" and "wt_refresh (daemon_desk cd env dk) busy st = (s, st1)"
    and "a \<in> set (wt_offered (wt_lines s))"
  shows "(\<forall>n m. a = AConnect (Some n) m \<and> wt_connected s \<longrightarrow>
      (\<exists>c. ds_current st1 = Some c \<and>
        handle env (ReqConnect (Some n) m) st1 = (RespError (AlreadyConnected (cn_server c)), st1))) \<and>
    (\<forall>rq msg e. wt_request a = Some (rq, msg) \<and> misfit e \<and> fst (handle env rq st1) = RespError e \<longrightarrow>
      (\<exists>n. a = AConnect (Some n) (Some False)) \<and> wt_connected s \<or>
      a = AApprove \<and> e = NotConnected \<and> \<not> wt_connected s)"
proof -
  note r = wt_refresh_daemon [OF assms(2)] and l = wt_refresh_linked [OF assms(2)]
  have 1: "\<exists>c. ds_current st1 = Some c \<and>
      handle env (ReqConnect (Some n) m) st1 = (RespError (AlreadyConnected (cn_server c)), st1)"
    if "wt_connected s" for n m
    using l(1) that by (auto simp: reply_def connect_def)
  have 2: "(\<exists>n. a = AConnect (Some n) (Some False)) \<and> wt_connected s \<or>
      a = AApprove \<and> e = NotConnected \<and> \<not> wt_connected s"
    if rq: "wt_request a = Some (rq, msg)" and e: "misfit e" "fst (handle env rq st1) = RespError e" for rq msg e
  proof -
    have "linked st1"
      using assms(1) linked_same_conn [OF r(3)] by simp
    then have "refusal rq st1 = Some e" using refusal_only e by blast
    then show ?thesis
      using wt_offered_menu [OF assms(3)] rq l by (auto split: if_splits)
  qed
  show ?thesis
  proof (intro conjI allI impI; elim conjE)
    fix n m assume "wt_connected s"
    then show "\<exists>c. ds_current st1 = Some c \<and>
        handle env (ReqConnect (Some n) m) st1 = (RespError (AlreadyConnected (cn_server c)), st1)"
      by (rule 1)
  next
    fix rq msg e
    assume "wt_request a = Some (rq, msg)" "misfit e" "fst (handle env rq st1) = RespError e"
    then show "(\<exists>n. a = AConnect (Some n) (Some False)) \<and> wt_connected s \<or>
        a = AApprove \<and> e = NotConnected \<and> \<not> wt_connected s"
      by (rule 2)
  qed
qed

text \<open>The icon has the number of bytes it is handed over with, so building it
cannot fail, it is the mirror image of itself, and below the shoulder its outline only
narrows (over exact arithmetic).\<close>

lemma icon_is_a_shield:
  "length (icon_pixels s) = ICON_SIZE * ICON_SIZE * 4 \<and>
   (\<forall>px<ICON_SIZE. \<forall>py. alpha (ICON_SIZE - 1 - px) py = alpha px py) \<and>
   (\<forall>x y y'. SHOULDER \<le> y \<and> y \<le> y' \<longrightarrow> shield_coverage x y' \<le> shield_coverage x y)"
proof (intro conjI allI impI)
  obtain r g b where c: "state_colour s = (r, g, b)" by (cases "state_colour s") auto
  have row: "length (concat (map (\<lambda>px. [r, g, b, alpha px py]) [0 ..< ICON_SIZE])) = 4 * ICON_SIZE" for py
    by (subst length_same [where k = 4]) simp_all
  show "length (icon_pixels s) = ICON_SIZE * ICON_SIZE * 4"
    unfolding icon_pixels_def c prod.case
    by (subst length_same [where k = "4 * ICON_SIZE"]) (rule row, simp)
next
  fix px py assume "px < ICON_SIZE"
  then show "alpha (ICON_SIZE - 1 - px) py = alpha px py"
    by (simp only: alpha_def covered_mirror)
next
  fix x y y' assume "SHOULDER \<le> y \<and> y \<le> y'"
  then show "shield_coverage x y' \<le> shield_coverage x y"
    using half_width_narrows [of y y'] by (auto simp: shield_coverage_def SHOULDER_def)
qed

text \<open>Witnesses.\<close>

definition sample_ranked_up :: "(sockaddr option, nat) dstate" where
  "sample_ranked_up = sample_up\<lparr>ds_last_ranking := [sample_ranked]\<rparr>"

lemma picks_offered:
  "sn_status s \<noteq> None \<Longrightarrow> x \<in> set (wt_choices s) \<Longrightarrow> AConnect (Some (fst x)) (Some False) \<in> set (wt_offered (wt_lines s))"
  by (cases x) (force simp: wt_lines_def wt_choice_lines_def)

end
