(* ===== verification/Tray_Loops.thy ===== *)
theory Tray_Loops
  imports Tray_Windows
begin

text \<open>
  The two threads of the tray on Windows side by side (\<^verbatim>\<open>main\<close>, \<^verbatim>\<open>daemon_loop\<close> and \<^verbatim>\<open>refresh\<close> in
  \<^verbatim>\<open>vpnmgr-tray/src/windows.rs\<close>): the thread that owns the icon, which takes clicks and shows
  snapshots; the client's thread, which polls the daemon and carries actions out; the two
  channels between them; and everybody else who uses the daemon. A step of the client is what
  happens between two awaits, a step of the icon's thread is one turn of its loop. The process
  ends with the icon's thread, and the client with it.
\<close>

section \<open>A refresh, request by request\<close>

datatype wt_pull =
    AskStatus snapshot
  | AskRanking snapshot
  | AskServers snapshot
  | Complete snapshot

definition wt_pull_start :: "string option \<Rightarrow> wt_pull" where
  "wt_pull_start busy = AskStatus (snapshot_default\<lparr>sn_busy := busy\<rparr>)"

fun wt_pull_step :: "'w desk \<Rightarrow> wt_pull \<Rightarrow> 'w \<Rightarrow> wt_pull \<times> 'w" where
  "wt_pull_step dk (AskStatus s) w =
     (case wt_ask_status dk s w of
        (s1, w1) \<Rightarrow> (if sn_status s1 = None then Complete s1 else AskRanking s1, w1))"
| "wt_pull_step dk (AskRanking s) w =
     (case ask_ranking dk w of
        (r, w1) \<Rightarrow>
          (if r = [] then AskServers (s\<lparr>sn_ranking := r\<rparr>) else Complete (s\<lparr>sn_ranking := r\<rparr>), w1))"
| "wt_pull_step dk (AskServers s) w =
     (case ask_servers dk w of
        (Some ss, w1) \<Rightarrow> (Complete (s\<lparr>sn_servers := ss\<rparr>), w1)
      | (None, w1) \<Rightarrow> (Complete s, w1))"
| "wt_pull_step dk (Complete s) w = (Complete s, w)"

section \<open>The threads\<close>

text \<open>
  The client's thread: in \<^verbatim>\<open>select\<close>; drawing the snapshot that says it is busy, before the request
  of an action; about to send that request; with the editor open, and about to have the daemon
  reload; drawing the snapshot that closes a tick or an action; or returned.
\<close>

datatype client_thread =
    Selecting
  | Marking action wt_pull
  | Sending action
  | Editing path
  | Reloading
  | Drawing wt_pull
  | Returned

record ('id, 'w) win_run =
  wr_open :: bool
  wr_view :: "'id view"
  wr_shown :: snapshot \<comment> \<open>the one the view was made of\<close>
  wr_actions :: "action list"
  wr_updates :: "snapshot list"
  wr_client :: client_thread
  wr_world :: 'w
  wr_raised :: "action list" \<comment> \<open>all actions sent to the client so far\<close>
  wr_sent :: "request list" \<comment> \<open>the requests answered so far\<close>

definition win_start :: "(nat \<Rightarrow> 'id) \<Rightarrow> 'w \<Rightarrow> ('id, 'w) win_run" where
  "win_start ids w =
     \<lparr>wr_open = True, wr_view = view_start ids, wr_shown = snapshot_default, wr_actions = [], wr_updates = [],
      wr_client = Selecting, wr_world = w, wr_raised = [], wr_sent = []\<rparr>"

text \<open>What can be clicked: the enabled items of the menu on show.\<close>

fun clickable_item :: "'id witem \<Rightarrow> 'id list" where
  "clickable_item (WItem b) = (if wb_enabled b then [wb_id b] else [])"
| "clickable_item (WSubmenu l enabled bs) = (if enabled then map wb_id (filter wb_enabled bs) else [])"
| "clickable_item WSeparator = []"

definition clickable :: "'id view \<Rightarrow> 'id list" where
  "clickable v = concat (map clickable_item (vw_menu v))"

fun latest :: "snapshot \<Rightarrow> snapshot list \<Rightarrow> snapshot" where
  "latest s [] = s"
| "latest s (x # xs) = latest x xs"

inductive win_step :: "(nat \<Rightarrow> 'id) \<Rightarrow> 'w desk \<Rightarrow> ('w \<Rightarrow> 'w \<Rightarrow> bool) \<Rightarrow> ('id, 'w) win_run \<Rightarrow> ('id, 'w) win_run \<Rightarrow> bool"
  for ids dk others where
  turned: "wr_open s \<Longrightarrow> set clicks \<subseteq> set (clickable (wr_view s)) \<Longrightarrow> wr_updates s = ss @ rest \<Longrightarrow>
    turn ids clicks ss (wr_view s) = (as, Some (bs, v)) \<Longrightarrow>
    win_step ids dk others s (s\<lparr>wr_view := v, wr_shown := latest (wr_shown s) ss, wr_updates := rest,
      wr_actions := wr_actions s @ as, wr_raised := wr_raised s @ as\<rparr>)"
| ended: "wr_open s \<Longrightarrow> set clicks \<subseteq> set (clickable (wr_view s)) \<Longrightarrow>
    turn ids clicks (wr_updates s) (wr_view s) = (as, None) \<Longrightarrow>
    win_step ids dk others s
      (s\<lparr>wr_open := False, wr_actions := wr_actions s @ as, wr_raised := wr_raised s @ as\<rparr>)"
| tick: "wr_open s \<Longrightarrow> wr_client s = Selecting \<Longrightarrow>
    win_step ids dk others s (s\<lparr>wr_client := Drawing (wt_pull_start None)\<rparr>)"
| take_edit: "wr_open s \<Longrightarrow> wr_client s = Selecting \<Longrightarrow> wr_actions s = AEditConfig path # q \<Longrightarrow>
    win_step ids dk others s (s\<lparr>wr_actions := q, wr_client := Editing path\<rparr>)"
| take_action: "wr_open s \<Longrightarrow> wr_client s = Selecting \<Longrightarrow> wr_actions s = a # q \<Longrightarrow>
    wt_request a = Some (rq, busy) \<Longrightarrow>
    win_step ids dk others s (s\<lparr>wr_actions := q, wr_client := Marking a (wt_pull_start (Some busy))\<rparr>)"
| take_quit: "wr_open s \<Longrightarrow> wr_client s = Selecting \<Longrightarrow> wr_actions s = AQuit # q \<Longrightarrow>
    win_step ids dk others s (s\<lparr>wr_actions := q, wr_client := Returned\<rparr>)"
| edited: "wr_open s \<Longrightarrow> wr_client s = Editing path \<Longrightarrow>
    win_step ids dk others s (s\<lparr>wr_world := wt_edit_config dk path (wr_world s), wr_client := Reloading\<rparr>)"
| reloaded: "wr_open s \<Longrightarrow> wr_client s = Reloading \<Longrightarrow> dk_ask dk ReqReload (wr_world s) = (r, w) \<Longrightarrow>
    win_step ids dk others s
      (s\<lparr>wr_world := w, wr_sent := wr_sent s @ [ReqReload], wr_client := Drawing (wt_pull_start None)\<rparr>)"
| marking: "wr_open s \<Longrightarrow> wr_client s = Marking a p \<Longrightarrow> (\<forall>x. p \<noteq> Complete x) \<Longrightarrow>
    wt_pull_step dk p (wr_world s) = (p', w) \<Longrightarrow>
    win_step ids dk others s (s\<lparr>wr_client := Marking a p', wr_world := w\<rparr>)"
| marked: "wr_open s \<Longrightarrow> wr_client s = Marking a (Complete x) \<Longrightarrow>
    win_step ids dk others s (s\<lparr>wr_updates := wr_updates s @ [x], wr_client := Sending a\<rparr>)"
| answered: "wr_open s \<Longrightarrow> wr_client s = Sending a \<Longrightarrow> wt_request a = Some (rq, busy) \<Longrightarrow>
    dk_ask dk rq (wr_world s) = (r, w) \<Longrightarrow>
    win_step ids dk others s
      (s\<lparr>wr_world := w, wr_sent := wr_sent s @ [rq], wr_client := Drawing (wt_pull_start None)\<rparr>)"
| drawing: "wr_open s \<Longrightarrow> wr_client s = Drawing p \<Longrightarrow> (\<forall>x. p \<noteq> Complete x) \<Longrightarrow>
    wt_pull_step dk p (wr_world s) = (p', w) \<Longrightarrow>
    win_step ids dk others s (s\<lparr>wr_client := Drawing p', wr_world := w\<rparr>)"
| drawn: "wr_open s \<Longrightarrow> wr_client s = Drawing (Complete x) \<Longrightarrow>
    win_step ids dk others s (s\<lparr>wr_updates := wr_updates s @ [x], wr_client := Selecting\<rparr>)"
| another: "others (wr_world s) w \<Longrightarrow> win_step ids dk others s (s\<lparr>wr_world := w\<rparr>)"

inductive win_reach :: "(nat \<Rightarrow> 'id) \<Rightarrow> 'w desk \<Rightarrow> ('w \<Rightarrow> 'w \<Rightarrow> bool) \<Rightarrow> ('id, 'w) win_run \<Rightarrow> bool"
  for ids dk others where
  win_begin: "win_reach ids dk others (win_start ids w)"
| win_next: "win_reach ids dk others s \<Longrightarrow> win_step ids dk others s s' \<Longrightarrow> win_reach ids dk others s'"

section \<open>Requests and clicks\<close>

text \<open>The request an action stands for; editing has the daemon reload.\<close>

definition asks :: "action \<Rightarrow> request \<Rightarrow> bool" where
  "asks a rq \<longleftrightarrow> (\<exists>busy. wt_request a = Some (rq, busy)) \<or> (\<exists>p. a = AEditConfig p) \<and> rq = ReqReload"

text \<open>The action in the client's hand, its request not answered yet.\<close>

fun holds :: "client_thread \<Rightarrow> action list \<Rightarrow> bool" where
  "holds (Marking a p) as \<longleftrightarrow> as = [a] \<and> wt_request a \<noteq> None"
| "holds (Sending a) as \<longleftrightarrow> as = [a] \<and> wt_request a \<noteq> None"
| "holds (Editing path) as \<longleftrightarrow> as = [AEditConfig path]"
| "holds Reloading as \<longleftrightarrow> (\<exists>path. as = [AEditConfig path])"
| "holds Returned as \<longleftrightarrow> False"
| "holds _ as \<longleftrightarrow> as = []"

definition win_in_order :: "('id, 'w) win_run \<Rightarrow> bool" where
  "win_in_order s \<longleftrightarrow> AQuit \<notin> set (wr_raised s) \<and>
     (\<exists>taken now. list_all2 asks taken (wr_sent s) \<and> holds (wr_client s) now \<and>
        wr_raised s = taken @ now @ wr_actions s)"

lemma take_clicks_no_quit: "take_clicks es is = (as, q) \<Longrightarrow> AQuit \<notin> set as"
  by (induction es "is" arbitrary: as q rule: take_clicks.induct) (auto split: option.splits if_splits prod.splits)

lemma turn_no_quit: "turn ids clicks ss v = (as, r) \<Longrightarrow> AQuit \<notin> set as"
  by (auto simp: turn_def split: prod.splits bool.splits dest: take_clicks_no_quit)

lemma win_step_in_order:
  assumes "win_step ids dk others s s'" and "win_in_order s"
  shows "win_in_order s'"
proof -
  obtain taken now where t: "list_all2 asks taken (wr_sent s)" "holds (wr_client s) now"
      "wr_raised s = taken @ now @ wr_actions s" "AQuit \<notin> set (wr_raised s)"
    using assms(2) by (auto simp: win_in_order_def)
  have snoc: "list_all2 asks (taken @ [a]) (wr_sent s @ [rq])" if "asks a rq" for a rq
    using t(1) that by (simp add: list_all2_appendI)
  from assms(1) show ?thesis
  proof (cases rule: win_step.cases)
    case (reloaded r w)
    then obtain path where "now = [AEditConfig path]" using t(2) by auto
    then show ?thesis
      using reloaded t snoc [of "AEditConfig path" ReqReload]
      by (auto simp: win_in_order_def asks_def intro!: exI [of _ "taken @ [AEditConfig path]"])
  next
    case (answered a rq busy r w)
    then show ?thesis
      using t snoc [of a rq] by (auto simp: win_in_order_def asks_def intro!: exI [of _ "taken @ [a]"])
  qed (use t in \<open>auto simp: win_in_order_def dest: turn_no_quit\<close>)
qed

section \<open>What is shown\<close>

text \<open>A view made of a snapshot.\<close>

definition view_of :: "(nat \<Rightarrow> 'id) \<Rightarrow> snapshot \<Rightarrow> 'id view \<Rightarrow> bool" where
  "view_of ids x v \<longleftrightarrow> (\<exists>n. build_menu ids n x = (vw_menu v, vw_map v, vw_made v)) \<and> vw_icon v = icon_pixels x"

lemma view_of_start: "view_of ids snapshot_default (view_start ids)"
  by (auto simp: view_of_def view_start_def split: prod.split)

lemma view_of_show: "show_snapshot ids x v = (b, v1) \<Longrightarrow> view_of ids x v1"
  by (auto simp: view_of_def show_snapshot_def Let_def split: prod.splits)

lemma view_of_shows: "show_snapshots ids ss v = (bs, v1) \<Longrightarrow> view_of ids x v \<Longrightarrow> view_of ids (latest x ss) v1"
  by (induction ids ss v arbitrary: x bs v1 rule: show_snapshots.induct)
    (auto split: prod.splits dest: view_of_show)

lemma turn_shows: "turn ids clicks ss v = (as, Some (bs, v1)) \<Longrightarrow> show_snapshots ids ss v = (bs, v1)"
  by (auto simp: turn_def split: prod.splits bool.splits)

lemma latest_append [simp]: "latest x (xs @ ys) = latest (latest x xs) ys"
  by (induction x xs rule: latest.induct) simp_all

lemma win_step_view:
  assumes "win_step ids dk others s s'" and "view_of ids (wr_shown s) (wr_view s)"
  shows "view_of ids (wr_shown s') (wr_view s')"
  using assms by (cases rule: win_step.cases) (auto dest: turn_shows view_of_shows)

section \<open>Over the daemon\<close>

text \<open>A snapshot agrees with the daemon on what is connected and what is proposed, if it has a status.\<close>

definition agrees :: "snapshot \<Rightarrow> ('t, 'w) dstate \<Rightarrow> bool" where
  "agrees x st \<longleftrightarrow> sn_status x \<noteq> None \<longrightarrow>
     (wt_connected x \<longleftrightarrow> ds_current st \<noteq> None) \<and> (wt_pending x \<noteq> None \<longleftrightarrow> ds_pending st \<noteq> None)"

fun pull_agrees :: "wt_pull \<Rightarrow> ('t, 'w) dstate \<Rightarrow> bool" where
  "pull_agrees (AskStatus x) st \<longleftrightarrow> sn_status x = None"
| "pull_agrees (AskRanking x) st \<longleftrightarrow> sn_status x \<noteq> None \<and> agrees x st"
| "pull_agrees (AskServers x) st \<longleftrightarrow> sn_status x \<noteq> None \<and> agrees x st"
| "pull_agrees (Complete x) st \<longleftrightarrow> sn_status x \<noteq> None \<and> agrees x st"

text \<open>Between actions, the last snapshot drawn agrees; a refresh under way will.\<close>

fun settled :: "client_thread \<Rightarrow> snapshot \<Rightarrow> ('t, 'w) dstate \<Rightarrow> bool" where
  "settled Selecting x st \<longleftrightarrow> agrees x st"
| "settled (Marking a p) x st \<longleftrightarrow> pull_agrees p st"
| "settled (Drawing p) x st \<longleftrightarrow> pull_agrees p st"
| "settled _ x st \<longleftrightarrow> True"

lemma agrees_conn: "same_conn st st' \<Longrightarrow> agrees x st \<Longrightarrow> agrees x st'"
  by (simp add: agrees_def same_conn_def)

lemma pull_agrees_conn: "same_conn st st' \<Longrightarrow> pull_agrees p st \<Longrightarrow> pull_agrees p st'"
  by (cases p) (auto intro: agrees_conn)

lemma settled_conn: "same_conn st st' \<Longrightarrow> settled c x st \<Longrightarrow> settled c x st'"
  by (cases c) (auto intro: agrees_conn pull_agrees_conn)

lemma pull_start_agrees [simp]: "pull_agrees (wt_pull_start busy) st"
  by (simp add: wt_pull_start_def snapshot_default_def)

lemma pull_step_agrees:
  assumes "wt_pull_step (daemon_desk cd env dk) p st = (p', st')" and "pull_agrees p st"
  shows "pull_agrees p' st' \<and> same_conn st st'"
proof (cases p)
  case (AskStatus x)
  obtain r st1 where r: "status env st = (r, st1)" by fastforce
  have "same_conn st st1" by (rule status_frame [OF r])
  then show ?thesis
    using AskStatus assms(1) r status_connected [of env st] status_pending [of env st]
    by (auto simp: wt_ask_status_def ask_status_daemon agrees_def wt_connected_def wt_pending_def same_conn_def)
next
  case (AskRanking x)
  then show ?thesis
    using assms by (auto simp: ask_ranking_daemon agrees_def wt_connected_def wt_pending_def split: if_splits)
next
  case (AskServers x)
  obtain q st1 where q: "servers env None (Some QUICK_CONNECT_LIMIT) False st = (q, st1)" by fastforce
  have "same_conn st st1" by (rule servers_frame [OF q])
  then show ?thesis
    using AskServers assms q
    by (auto simp: ask_servers_daemon agrees_def wt_connected_def wt_pending_def same_conn_def split: sum.splits)
next
  case (Complete x)
  then show ?thesis using assms by auto
qed

definition win_settled :: "('id, ('t, 'w) dstate) win_run \<Rightarrow> bool" where
  "win_settled s \<longleftrightarrow> settled (wr_client s) (latest (wr_shown s) (wr_updates s)) (wr_world s)"

lemma win_step_settled:
  assumes "win_step ids (daemon_desk cd env dk) others s s'" and "win_settled s"
    and "\<And>st st'. others st st' \<Longrightarrow> same_conn st st'"
  shows "win_settled s'"
  using assms(1)
proof (cases rule: win_step.cases)
  case (another w)
  then show ?thesis using assms(2,3) settled_conn by (fastforce simp: win_settled_def)
qed (use assms(2) in \<open>auto simp: win_settled_def dest: pull_step_agrees\<close>)

section \<open>Coming to rest\<close>

fun pull_left :: "wt_pull \<Rightarrow> nat" where
  "pull_left (AskStatus x) = 3"
| "pull_left (AskRanking x) = 2"
| "pull_left (AskServers x) = 1"
| "pull_left (Complete x) = 0"

lemma pull_left_less:
  "wt_pull_step dk p w = (p', w') \<Longrightarrow> (\<forall>x. p \<noteq> Complete x) \<Longrightarrow> pull_left p' < pull_left p"
  by (cases p) (auto split: prod.splits option.splits if_splits)

lemma drawing_completes:
  "wr_open s \<Longrightarrow> wr_client s = Drawing p \<Longrightarrow>
    \<exists>x w. (win_step ids dk others)\<^sup>*\<^sup>* s (s\<lparr>wr_client := Drawing (Complete x), wr_world := w\<rparr>)"
proof (induction "pull_left p" arbitrary: s p rule: less_induct)
  case less
  show ?case
  proof (cases "\<exists>x. p = Complete x")
    case True
    then obtain x where "s\<lparr>wr_client := Drawing (Complete x), wr_world := wr_world s\<rparr> = s"
      using less.prems by (cases s) auto
    then show ?thesis by (metis rtranclp.rtrancl_refl)
  next
    case False
    obtain p' w where st: "wt_pull_step dk p (wr_world s) = (p', w)" by fastforce
    let ?s = "s\<lparr>wr_client := Drawing p', wr_world := w\<rparr>"
    have "win_step ids dk others s ?s" using win_step.drawing [OF less.prems _ st] False by blast
    moreover obtain x w' where "(win_step ids dk others)\<^sup>*\<^sup>* ?s (?s\<lparr>wr_client := Drawing (Complete x), wr_world := w'\<rparr>)"
      using less.hyps [OF pull_left_less [OF st], of ?s] less.prems(1) False by auto
    ultimately show ?thesis by (auto intro: converse_rtranclp_into_rtranclp)
  qed
qed

lemma marking_completes:
  "wr_open s \<Longrightarrow> wr_client s = Marking a p \<Longrightarrow>
    \<exists>x w. (win_step ids dk others)\<^sup>*\<^sup>* s (s\<lparr>wr_client := Marking a (Complete x), wr_world := w\<rparr>)"
proof (induction "pull_left p" arbitrary: s p rule: less_induct)
  case less
  show ?case
  proof (cases "\<exists>x. p = Complete x")
    case True
    then obtain x where "s\<lparr>wr_client := Marking a (Complete x), wr_world := wr_world s\<rparr> = s"
      using less.prems by (cases s) auto
    then show ?thesis by (metis rtranclp.rtrancl_refl)
  next
    case False
    obtain p' w where st: "wt_pull_step dk p (wr_world s) = (p', w)" by fastforce
    let ?s = "s\<lparr>wr_client := Marking a p', wr_world := w\<rparr>"
    have "win_step ids dk others s ?s" using win_step.marking [OF less.prems _ st] False by blast
    moreover obtain x w' where "(win_step ids dk others)\<^sup>*\<^sup>* ?s (?s\<lparr>wr_client := Marking a (Complete x), wr_world := w'\<rparr>)"
      using less.hyps [OF pull_left_less [OF st], of ?s] less.prems(1) False by auto
    ultimately show ?thesis by (auto intro: converse_rtranclp_into_rtranclp)
  qed
qed

text \<open>A run in which the icon's thread does nothing: what it leaves alone.\<close>

definition works :: "(nat \<Rightarrow> 'id) \<Rightarrow> 'w desk \<Rightarrow> ('w \<Rightarrow> 'w \<Rightarrow> bool) \<Rightarrow> ('id, 'w) win_run \<Rightarrow> ('id, 'w) win_run \<Rightarrow> bool" where
  "works ids dk others s s' \<longleftrightarrow> (win_step ids dk others)\<^sup>*\<^sup>* s s' \<and> wr_open s' = wr_open s \<and>
     wr_raised s' = wr_raised s \<and> wr_actions s' = wr_actions s"

lemma works_trans: "works ids dk others s s1 \<Longrightarrow> works ids dk others s1 s2 \<Longrightarrow> works ids dk others s s2"
  by (auto simp: works_def)

lemma works_step:
  "win_step ids dk others s s1 \<Longrightarrow> wr_open s1 = wr_open s \<Longrightarrow> wr_raised s1 = wr_raised s \<Longrightarrow>
    wr_actions s1 = wr_actions s \<Longrightarrow> works ids dk others s s1"
  by (simp add: works_def r_into_rtranclp)

definition selects :: "(nat \<Rightarrow> 'id) \<Rightarrow> 'w desk \<Rightarrow> ('w \<Rightarrow> 'w \<Rightarrow> bool) \<Rightarrow> ('id, 'w) win_run \<Rightarrow> bool" where
  "selects ids dk others s \<longleftrightarrow> (\<exists>s'. works ids dk others s s' \<and> wr_client s' = Selecting)"

lemma selects_works: "works ids dk others s s1 \<Longrightarrow> selects ids dk others s1 \<Longrightarrow> selects ids dk others s"
  unfolding selects_def using works_trans by blast

lemma drawing_ends: "wr_open s \<Longrightarrow> wr_client s = Drawing p \<Longrightarrow> selects ids dk others s"
proof -
  assume s: "wr_open s" "wr_client s = Drawing p"
  obtain x w where r: "(win_step ids dk others)\<^sup>*\<^sup>* s (s\<lparr>wr_client := Drawing (Complete x), wr_world := w\<rparr>)"
    using drawing_completes [OF s] by blast
  let ?s = "s\<lparr>wr_client := Drawing (Complete x), wr_world := w\<rparr>"
  have "works ids dk others ?s (?s\<lparr>wr_updates := wr_updates ?s @ [x], wr_client := Selecting\<rparr>)"
    by (rule works_step [OF win_step.drawn]) (simp_all add: s)
  then have "selects ids dk others ?s" by (auto simp: selects_def)
  moreover have "works ids dk others s ?s" using r by (simp add: works_def)
  ultimately show ?thesis by (rule selects_works [rotated])
qed

lemma sending_ends:
  assumes "wr_open s" and "wr_client s = Sending a" and "wt_request a \<noteq> None"
  shows "selects ids dk others s"
proof -
  obtain rq busy where rq: "wt_request a = Some (rq, busy)" using assms(3) by (cases "wt_request a") auto
  obtain r w where a: "dk_ask dk rq (wr_world s) = (r, w)" by fastforce
  show ?thesis
    by (rule selects_works [OF works_step [OF win_step.answered [OF assms(1,2) rq a]] drawing_ends])
      (simp_all add: assms)
qed

lemma reloading_ends:
  assumes "wr_open s" and "wr_client s = Reloading"
  shows "selects ids dk others s"
proof -
  obtain r w where a: "dk_ask dk ReqReload (wr_world s) = (r, w)" by fastforce
  show ?thesis
    by (rule selects_works [OF works_step [OF win_step.reloaded [OF assms a]] drawing_ends]) (simp_all add: assms)
qed

lemma editing_ends:
  assumes "wr_open s" and "wr_client s = Editing path"
  shows "selects ids dk others s"
  by (rule selects_works [OF works_step [OF win_step.edited [OF assms]] reloading_ends]) (simp_all add: assms)

lemma marking_ends:
  assumes "wr_open s" and "wr_client s = Marking a p" and "wt_request a \<noteq> None"
  shows "selects ids dk others s"
proof -
  obtain x w where r: "(win_step ids dk others)\<^sup>*\<^sup>* s (s\<lparr>wr_client := Marking a (Complete x), wr_world := w\<rparr>)"
    using marking_completes [OF assms(1,2)] by blast
  let ?s = "s\<lparr>wr_client := Marking a (Complete x), wr_world := w\<rparr>"
  have "selects ids dk others ?s"
    by (rule selects_works [OF works_step [OF win_step.marked] sending_ends]) (use assms in auto)
  moreover have "works ids dk others s ?s" using r by (simp add: works_def)
  ultimately show ?thesis by (rule selects_works [rotated])
qed

lemma client_ends: "wr_open s \<Longrightarrow> holds (wr_client s) as \<Longrightarrow> selects ids dk others s"
proof (cases "wr_client s")
  case Selecting
  then show ?thesis by (auto simp: selects_def works_def)
qed (auto intro: sending_ends reloading_ends editing_ends marking_ends drawing_ends)

text \<open>The client then takes the actions that wait, one after the other.\<close>

lemma actions_end:
  assumes "wr_open s" and "wr_client s = Selecting" and "AQuit \<notin> set (wr_actions s)"
  shows "\<exists>s'. (win_step ids dk others)\<^sup>*\<^sup>* s s' \<and> wr_open s' \<and> wr_raised s' = wr_raised s \<and>
    wr_client s' = Selecting \<and> wr_actions s' = []"
  using assms
proof (induction "wr_actions s" arbitrary: s)
  case Nil
  then show ?case by (metis rtranclp.rtrancl_refl)
next
  case (Cons a q)
  have q: "wr_actions s = a # q" using Cons.hyps(2) by simp
  obtain c where c: "win_step ids dk others s (s\<lparr>wr_actions := q, wr_client := c\<rparr>)" "holds c [a]"
  proof (cases "wt_request a")
    case None
    then obtain path where "a = AEditConfig path" using Cons.prems(3) q by (cases a) auto
    then show ?thesis using that [of "Editing path"] win_step.take_edit [OF Cons.prems(1,2)] q by simp
  next
    case (Some r)
    then show ?thesis
      using that [of "Marking a (wt_pull_start (Some (snd r)))"] win_step.take_action [OF Cons.prems(1,2) q, of "fst r" "snd r"]
      by simp
  qed
  have "selects ids dk others (s\<lparr>wr_actions := q, wr_client := c\<rparr>)"
    by (rule client_ends [of _ "[a]"]) (use Cons.prems c(2) in simp_all)
  then obtain s1 where s1: "works ids dk others (s\<lparr>wr_actions := q, wr_client := c\<rparr>) s1" "wr_client s1 = Selecting"
    by (auto simp: selects_def)
  obtain s2 where s2: "(win_step ids dk others)\<^sup>*\<^sup>* s1 s2" "wr_open s2" "wr_raised s2 = wr_raised s1"
      "wr_client s2 = Selecting" "wr_actions s2 = []"
    using Cons.hyps(1) [of s1] s1 Cons.prems q by (auto simp: works_def)
  have "(win_step ids dk others)\<^sup>*\<^sup>* s s2"
    using c(1) s1(1) s2(1) by (meson works_def converse_rtranclp_into_rtranclp rtranclp_trans)
  then show ?case using s1(1) s2 by (intro exI [of _ s2]) (simp add: works_def)
qed

text \<open>And the icon's thread shows what has come.\<close>

lemma updates_shown:
  assumes "wr_open s"
  shows "\<exists>v. win_step ids dk others s (s\<lparr>wr_view := v, wr_shown := latest (wr_shown s) (wr_updates s), wr_updates := []\<rparr>)"
proof -
  obtain bs v where "turn ids [] (wr_updates s) (wr_view s) = ([], Some (bs, v))"
    by (cases "show_snapshots ids (wr_updates s) (wr_view s)") (simp add: turn_def)
  from win_step.turned [OF assms _ _ this, of "[]" dk others] show ?thesis by auto
qed

section \<open>Properties\<close>

lemma win_reach_ok: "win_reach ids dk others s \<Longrightarrow> win_in_order s \<and> view_of ids (wr_shown s) (wr_view s)"
proof (induction rule: win_reach.induct)
  case (win_begin w)
  then show ?case by (simp add: win_start_def win_in_order_def view_of_start)
next
  case (win_next s s')
  then show ?case using win_step_in_order win_step_view by blast
qed

lemma win_reach_settled:
  assumes "win_reach ids (daemon_desk cd env dk) others s" and "\<And>st st'. others st st' \<Longrightarrow> same_conn st st'"
  shows "win_settled s"
  using assms(1)
proof (induction rule: win_reach.induct)
  case (win_begin w)
  then show ?case by (simp add: win_start_def win_settled_def agrees_def snapshot_default_def)
next
  case (win_next s s')
  then show ?case using win_step_settled [OF _ _ assms(2)] by blast
qed

lemma win_reach_steps: "(win_step ids dk others)\<^sup>*\<^sup>* s s' \<Longrightarrow> win_reach ids dk others s \<Longrightarrow> win_reach ids dk others s'"
  by (induction rule: rtranclp_induct) (auto intro: win_reach.win_next)



end
